theory Spec2Isabelle
  imports Complex_Main "HOL-Library.Word" "HOL-Library.Log_Nat"
begin

unbundle bit_operations_syntax

section \<open>Numbers, typed arrays and strings of the host language\<close>

text \<open>
  The program is TypeScript. A finite \<^verbatim>\<open>number\<close> is modelled as a rational (every finite
  double is one, and the comparisons, \<^verbatim>\<open>Math.floor\<close>, \<^verbatim>\<open>Math.max\<close> and \<^verbatim>\<open>Math.min\<close> used below
  are exact on them). A sum, a difference or a product of doubles is the double nearest to
  the exact result: \<open>fl\<close> below is that rounding, and it is written out where it decides
  which pixel is read or which cell is chosen (the collision scan, the initial clouds, the
  height of the viewport); elsewhere (the physics of the tick, the chances of the spawns)
  sums and products are taken exactly. Where the code can produce a number that is not
  finite (a division by zero) the value is a \<open>jsnum\<close>. A \<^verbatim>\<open>Uint8Array\<close> is
  a list of 8-bit words: a read at an index that is not an integer inside the array yields
  \<^verbatim>\<open>undefined\<close> (\<open>None\<close>), a write there is silently dropped, and a stored number is
  converted by truncation modulo 256, \<^verbatim>\<open>NaN\<close> and the infinities becoming 0.
\<close>

datatype jsnum = Num rat | NaN | PosInf | NegInf

text \<open>The quotient \<^verbatim>\<open>a / b\<close> of two finite numbers (the divisors below are never \<^verbatim>\<open>-0\<close>).\<close>

definition js_div :: "rat \<Rightarrow> rat \<Rightarrow> jsnum" where
  "js_div a b =
     (if b \<noteq> 0 then Num (a / b)
      else if a = 0 then NaN else if 0 < a then PosInf else NegInf)"

definition is_integer :: "rat \<Rightarrow> bool" where
  "is_integer q = (of_int \<lfloor>q\<rfloor> = q)"

text \<open>
  Rounding to the nearest double (IEEE 754 binary64, ties to even). \<open>expo q\<close> is the binary
  exponent of \<open>q \<noteq> 0\<close>, the integer \<open>e\<close> with \<open>2\<^sup>e \<le> \<bar>q\<bar> < 2\<^sup>e\<^sup>+\<^sup>1\<close>; the doubles of that
  binade are the multiples of \<open>2\<^sup>e\<^sup>-\<^sup>5\<^sup>2\<close>, those below \<open>2\<^sup>-\<^sup>1\<^sup>0\<^sup>2\<^sup>2\<close> the multiples of \<open>2\<^sup>-\<^sup>1\<^sup>0\<^sup>7\<^sup>4\<close>.
  The overflow to \<^verbatim>\<open>Infinity\<close> above \<open>2\<^sup>1\<^sup>0\<^sup>2\<^sup>4\<close> is not modelled: no number of the game comes near
  it. A decimal literal of the code is the rounding of its value: \<^verbatim>\<open>0.7\<close> is \<open>fl (7 / 10)\<close>.
\<close>

definition expo :: "rat \<Rightarrow> int" where
  "expo q =
     (let a = \<bar>q\<bar>
      in if 1 \<le> a then bitlen \<lfloor>a\<rfloor> - 1 else - bitlen (\<lceil>1 / a\<rceil> - 1))"

definition round_even :: "rat \<Rightarrow> int" where
  "round_even m =
     (let f = \<lfloor>m\<rfloor>;
          r = m - of_int f
      in if r < 1 / 2 then f else if 1 / 2 < r then f + 1 else if even f then f else f + 1)"

definition fl :: "rat \<Rightarrow> rat" where
  "fl q =
     (if q = 0 then 0
      else (let e = max (expo q) (- 1022);
                ulp = 2 powi (e - 52)
            in of_int (round_even (q / ulp)) * ulp))"

definition to_uint8 :: "jsnum \<Rightarrow> 8 word" where
  "to_uint8 v = (case v of Num q \<Rightarrow> word_of_int (if 0 \<le> q then \<lfloor>q\<rfloor> else \<lceil>q\<rceil>)
                 | _ \<Rightarrow> 0)"

definition typed_read :: "8 word list \<Rightarrow> rat \<Rightarrow> int option" where
  "typed_read xs q =
     (if is_integer q \<and> 0 \<le> q \<and> nat \<lfloor>q\<rfloor> < length xs
      then Some (uint (xs ! nat \<lfloor>q\<rfloor>)) else None)"

definition typed_write :: "8 word list \<Rightarrow> int \<Rightarrow> jsnum \<Rightarrow> 8 word list" where
  "typed_write xs i v = (if 0 \<le> i then xs[nat i := to_uint8 v] else xs)"

section \<open>The quadrant canvas\<close>

definition COLOR_DEFAULT :: int where "COLOR_DEFAULT = 1"
definition COLOR_GRAY :: int where "COLOR_GRAY = 2"
definition GRADIENT_STEPS :: int where "GRADIENT_STEPS = 32"
definition GRADIENT_START_IDX :: int where "GRADIENT_START_IDX = 10"

text \<open>
  Class \<^verbatim>\<open>QuadrantCanvas\<close>: \<open>cwidth\<close>, \<open>cheight\<close> and \<open>pixels\<close> are its fields \<^verbatim>\<open>width\<close>,
  \<^verbatim>\<open>height\<close> and \<^verbatim>\<open>pixels\<close>. The constructor allocates \<^verbatim>\<open>new Uint8Array(width * height)\<close>,
  which throws on a negative length, so the dimensions of a canvas are naturals.
\<close>

record QuadrantCanvas =
  cwidth :: nat
  cheight :: nat
  pixels :: "8 word list"

definition new_canvas :: "nat \<Rightarrow> nat \<Rightarrow> QuadrantCanvas" where
  "new_canvas w h = \<lparr>cwidth = w, cheight = h, pixels = replicate (w * h) 0\<rparr>"

definition canvas_clear :: "QuadrantCanvas \<Rightarrow> QuadrantCanvas" where
  "canvas_clear c = c\<lparr>pixels := replicate (length (pixels c)) 0\<rparr>"

definition in_canvas :: "QuadrantCanvas \<Rightarrow> rat \<Rightarrow> rat \<Rightarrow> bool" where
  "in_canvas c x y = (x \<ge> 0 \<and> x < of_nat (cwidth c) \<and> y \<ge> 0 \<and> y < of_nat (cheight c))"

definition canvas_set :: "QuadrantCanvas \<Rightarrow> rat \<Rightarrow> rat \<Rightarrow> jsnum \<Rightarrow> QuadrantCanvas" where
  "canvas_set c x y color =
     (if in_canvas c x y
      then c\<lparr>pixels := typed_write (pixels c) (\<lfloor>y\<rfloor> * int (cwidth c) + \<lfloor>x\<rfloor>) color\<rparr>
      else c)"

definition canvas_get :: "QuadrantCanvas \<Rightarrow> rat \<Rightarrow> rat \<Rightarrow> int option" where
  "canvas_get c x y =
     (if in_canvas c x y
      then typed_read (pixels c) (y * of_nat (cwidth c) + x)
      else Some 0)"

text \<open>Every canvas the constructor, \<open>canvas_set\<close> and \<open>canvas_clear\<close> produce has a buffer of
  \<open>width * height\<close> cells.\<close>

definition canvas_ok :: "QuadrantCanvas \<Rightarrow> bool" where
  "canvas_ok c = (length (pixels c) = cwidth c * cheight c)"

subsection \<open>Strings and colour escapes\<close>

text \<open>
  A string is its list of UTF-16 code units; every glyph of the block table is one unit.
  \<open>ESC_RESET\<close> is the literal \<^verbatim>\<open>'\x1b[39m'\<close> and \<open>ESC_GRAY\<close> is \<^verbatim>\<open>'\x1b[90m'\<close>.
\<close>

type_synonym jsstring = "nat list"

definition BLOCK_LOOKUP :: "nat list" where
  "BLOCK_LOOKUP =
     [32, 9623, 9622, 9604, 9629, 9616, 9630, 9631,
      9624, 9626, 9612, 9625, 9600, 9628, 9627, 9608]"

definition ESC_RESET :: jsstring where "ESC_RESET = [27, 91, 51, 57, 109]"
definition ESC_GRAY :: jsstring where "ESC_GRAY = [27, 91, 57, 48, 109]"

fun digits :: "nat \<Rightarrow> jsstring" where
  "digits n = (if n < 10 then [48 + n] else digits (n div 10) @ [48 + n mod 10])"

declare digits.simps [simp del]

definition int_to_string :: "int \<Rightarrow> jsstring" where
  "int_to_string i = (if i < 0 then 45 # digits (nat (- i)) else digits (nat i))"

definition GRADIENT_STOPS :: "(int \<times> int \<times> int) list" where
  "GRADIENT_STOPS = [(71, 150, 228), (132, 122, 206), (195, 103, 127)]"

definition js_round :: "rat \<Rightarrow> int" where
  "js_round q = \<lfloor>q + 1 / 2\<rfloor>"

definition stop_r :: "nat \<Rightarrow> int" where "stop_r k = fst (GRADIENT_STOPS ! k)"
definition stop_g :: "nat \<Rightarrow> int" where "stop_g k = fst (snd (GRADIENT_STOPS ! k))"
definition stop_b :: "nat \<Rightarrow> int" where "stop_b k = snd (snd (GRADIENT_STOPS ! k))"

text \<open>One iteration of the loop that fills \<^verbatim>\<open>GRADIENT_ANSI\<close>: the channels \<open>(r, g, b)\<close> of step
  \<open>i\<close> and the string \<^verbatim>\<open>`\x1b[38;2;${r};${g};${b}m`\<close>.\<close>

definition gradient_rgb :: "nat \<Rightarrow> int \<times> int \<times> int" where
  "gradient_rgb i =
     (let t = of_nat i / (of_int GRADIENT_STEPS - 1) in
      if t < 1 / 2
      then (let t2 = t * 2 in
            (js_round (of_int (stop_r 0) + (of_int (stop_r 1) - of_int (stop_r 0)) * t2),
             js_round (of_int (stop_g 0) + (of_int (stop_g 1) - of_int (stop_g 0)) * t2),
             js_round (of_int (stop_b 0) + (of_int (stop_b 1) - of_int (stop_b 0)) * t2)))
      else (let t2 = (t - 1 / 2) * 2 in
            (js_round (of_int (stop_r 1) + (of_int (stop_r 2) - of_int (stop_r 1)) * t2),
             js_round (of_int (stop_g 1) + (of_int (stop_g 2) - of_int (stop_g 1)) * t2),
             js_round (of_int (stop_b 1) + (of_int (stop_b 2) - of_int (stop_b 1)) * t2))))"

definition gradient_entry :: "nat \<Rightarrow> jsstring" where
  "gradient_entry i =
     (case gradient_rgb i of (r, g, b) \<Rightarrow>
        [27, 91, 51, 56, 59, 50, 59] @ int_to_string r @ [59] @ int_to_string g @ [59]
          @ int_to_string b @ [109])"

definition GRADIENT_ANSI :: "jsstring list" where
  "GRADIENT_ANSI = map gradient_entry [0 ..< nat GRADIENT_STEPS]"

subsection \<open>\<^verbatim>\<open>toLines\<close>\<close>

text \<open>\<open>js_gt0 p\<close> is the test \<^verbatim>\<open>p > 0\<close>, false on \<^verbatim>\<open>undefined\<close>.\<close>

definition js_gt0 :: "int option \<Rightarrow> bool" where
  "js_gt0 p = (case p of None \<Rightarrow> False | Some v \<Rightarrow> v > 0)"

text \<open>The body of \<^verbatim>\<open>for (const c of colors)\<close>, on the pair \<open>(maxCount, color)\<close>.\<close>

definition dominant_step :: "int list \<Rightarrow> int \<Rightarrow> nat \<times> int \<Rightarrow> nat \<times> int" where
  "dominant_step colors c st =
     (case st of (maxCount, color) \<Rightarrow>
        (let count = length (filter (\<lambda>other. other = c) colors) in
         if count > maxCount then (count, c)
         else if count = maxCount then (maxCount, if c > color then c else color)
         else (maxCount, color)))"

definition dominant_color :: "int option list \<Rightarrow> int" where
  "dominant_color ps =
     (let colors = List.map_filter (\<lambda>p. if js_gt0 p then p else None) ps in
      if length colors > 0 then snd (fold (dominant_step colors) colors (0, 0)) else 0)"

definition block_index :: "int option \<Rightarrow> int option \<Rightarrow> int option \<Rightarrow> int option \<Rightarrow> int" where
  "block_index p1 p2 p3 p4 =
     (let tl = (if js_gt0 p1 then 1 else 0);
          tr = (if js_gt0 p2 then 1 else 0);
          bl = (if js_gt0 p3 then 1 else 0);
          br = (if js_gt0 p4 then 1 else 0)
      in push_bit 3 tl OR push_bit 2 tr OR push_bit 1 bl OR br)"

definition color_escape :: "int \<Rightarrow> jsstring" where
  "color_escape color =
     (if color = COLOR_DEFAULT then ESC_RESET
      else if color = COLOR_GRAY then ESC_GRAY
      else if color \<ge> GRADIENT_START_IDX \<and> color < GRADIENT_START_IDX + GRADIENT_STEPS
        then GRADIENT_ANSI ! nat (color - GRADIENT_START_IDX)
      else if color = 0 then ESC_RESET
      else [])"

text \<open>The four sub-pixels of the block whose top-left pixel is \<open>(x, y)\<close>.\<close>

definition block_pixels :: "QuadrantCanvas \<Rightarrow> int \<Rightarrow> nat \<Rightarrow> int option list" where
  "block_pixels cv y x =
     [canvas_get cv (of_nat x) (of_int y), canvas_get cv (of_nat x + 1) (of_int y),
      canvas_get cv (of_nat x) (of_int y + 1), canvas_get cv (of_nat x + 1) (of_int y + 1)]"

definition block_char :: "QuadrantCanvas \<Rightarrow> int \<Rightarrow> nat \<Rightarrow> nat" where
  "block_char cv y x =
     (case block_pixels cv y x of
        [p1, p2, p3, p4] \<Rightarrow> BLOCK_LOOKUP ! nat (block_index p1 p2 p3 p4)
      | _ \<Rightarrow> 0)"

text \<open>The body of the inner loop, on the pair \<open>(line, currentColor)\<close>.\<close>

definition toLines_cell :: "QuadrantCanvas \<Rightarrow> int \<Rightarrow> nat \<Rightarrow> jsstring \<times> int \<Rightarrow> jsstring \<times> int" where
  "toLines_cell cv y x st =
     (case st of (line, currentColor) \<Rightarrow>
        (let color = dominant_color (block_pixels cv y x);
             char = block_char cv y x
         in if color \<noteq> currentColor
            then (line @ color_escape color @ [char], color)
            else (line @ [char], currentColor)))"

function toLines_cols :: "QuadrantCanvas \<Rightarrow> int \<Rightarrow> nat \<Rightarrow> jsstring \<times> int \<Rightarrow> jsstring \<times> int" where
  "toLines_cols cv y x st =
     (if x < cwidth cv then toLines_cols cv y (x + 2) (toLines_cell cv y x st) else st)"
  by pat_completeness auto
termination
  by (relation "measure (\<lambda>(cv, y, x, st). cwidth cv - x)") auto

declare toLines_cols.simps [simp del]

definition toLines_row :: "QuadrantCanvas \<Rightarrow> int \<Rightarrow> jsstring" where
  "toLines_row cv y =
     (case toLines_cols cv y 0 ([], 0) of (line, currentColor) \<Rightarrow>
        if currentColor \<noteq> 0 then line @ ESC_RESET else line)"

function toLines_rows :: "QuadrantCanvas \<Rightarrow> int \<Rightarrow> rat \<Rightarrow> jsstring list" where
  "toLines_rows cv y endY =
     (if of_int y < endY then toLines_row cv y # toLines_rows cv (y + 2) endY else [])"
  by pat_completeness auto
termination
  by (relation "measure (\<lambda>(cv, y, endY). nat (\<lceil>endY\<rceil> - y))") (auto, linarith)

declare toLines_rows.simps [simp del]

definition toLines :: "QuadrantCanvas \<Rightarrow> rat \<Rightarrow> rat \<Rightarrow> jsstring list" where
  "toLines cv minY maxY =
     (let startY = max 0 \<lfloor>minY\<rfloor>;
          endY = min (of_nat (cheight cv)) maxY
      in toLines_rows cv startY endY)"

text \<open>What a terminal shows of a line: the code units outside the escape sequences, each
  of which runs from \<^verbatim>\<open>\x1b\<close> to the next \<^verbatim>\<open>m\<close>. The flag says whether the scan is inside one.\<close>

fun strip_escapes :: "bool \<Rightarrow> jsstring \<Rightarrow> jsstring" where
  "strip_escapes inside [] = []"
| "strip_escapes False (c # cs) =
     (if c = 27 then strip_escapes True cs else c # strip_escapes False cs)"
| "strip_escapes True (c # cs) =
     (if c = 109 then strip_escapes False cs else strip_escapes True cs)"

definition glyphs :: "jsstring \<Rightarrow> jsstring" where
  "glyphs line = strip_escapes False line"

section \<open>Sprites, drawing and collision\<close>

text \<open>
  Interface \<^verbatim>\<open>Sprite\<close>: \<open>swidth\<close>, \<open>sheight\<close> and \<open>sdata\<close> are its fields \<^verbatim>\<open>width\<close>, \<^verbatim>\<open>height\<close>
  and \<^verbatim>\<open>data\<close> (RGBA bytes). \<^verbatim>\<open>parseSprite\<close> produces naturals for the dimensions.
  \<open>js_shl2 n\<close> is \<^verbatim>\<open>n << 2\<close> on an integer: the product by 4 wrapped to 32 signed bits.
\<close>

record Sprite =
  swidth :: nat
  sheight :: nat
  sdata :: "8 word list"

definition js_shl2 :: "int \<Rightarrow> int" where
  "js_shl2 n = signed_take_bit 31 (n * 4)"

text \<open>\<^verbatim>\<open>v > n\<close> and \<^verbatim>\<open>v < n\<close> where \<open>v\<close> may be \<^verbatim>\<open>undefined\<close>: both are false then.\<close>

definition js_gt :: "int option \<Rightarrow> int \<Rightarrow> bool" where
  "js_gt v n = (case v of None \<Rightarrow> False | Some a \<Rightarrow> a > n)"

definition js_lt :: "int option \<Rightarrow> int \<Rightarrow> bool" where
  "js_lt v n = (case v of None \<Rightarrow> False | Some a \<Rightarrow> a < n)"

definition js_clamp01 :: "jsnum \<Rightarrow> jsnum" where
  "js_clamp01 t =
     (case t of Num q \<Rightarrow> Num (max 0 (min 1 q)) | PosInf \<Rightarrow> Num 1 | NegInf \<Rightarrow> Num 0
      | NaN \<Rightarrow> NaN)"

text \<open>\<^verbatim>\<open>getGradientColor\<close>; \<open>js_clamp01 t\<close> is \<^verbatim>\<open>Math.max(0, Math.min(1, t))\<close>, and \<^verbatim>\<open>NaN\<close> passes
  through \<^verbatim>\<open>Math.floor\<close>, the product and the sum.\<close>

definition getGradientColor :: "jsnum \<Rightarrow> jsnum" where
  "getGradientColor t =
     (case js_clamp01 t of
        Num clampedT \<Rightarrow>
          (let idx = \<lfloor>clampedT * (of_int GRADIENT_STEPS - 1)\<rfloor>
           in Num (of_int (GRADIENT_START_IDX + idx)))
      | _ \<Rightarrow> NaN)"

text \<open>The colour \<^verbatim>\<open>drawSpriteGradient\<close> computes for column \<open>sx\<close>:
  \<^verbatim>\<open>getGradientColor(sx / (sprite.width - 1))\<close>; then the body of its two loops at \<open>(sx, sy)\<close>,
  where \<^verbatim>\<open>ctx.setPixel\<close> is \<^verbatim>\<open>canvas.set\<close>.\<close>

definition gradient_color_at :: "Sprite \<Rightarrow> nat \<Rightarrow> jsnum" where
  "gradient_color_at sprite sx =
     (let t = js_div (of_nat sx) (of_nat (swidth sprite) - 1) in getGradientColor t)"

definition drawSpriteGradient_pixel ::
  "Sprite \<Rightarrow> rat \<Rightarrow> rat \<Rightarrow> nat \<Rightarrow> nat \<Rightarrow> QuadrantCanvas \<Rightarrow> QuadrantCanvas" where
  "drawSpriteGradient_pixel sprite x y sy sx cv =
     (let idx = js_shl2 (int (swidth sprite) * int sy + int sx);
          r = typed_read (sdata sprite) (of_int idx);
          a = typed_read (sdata sprite) (of_int (idx + 3))
      in if js_gt a 128
         then (if js_lt r 128
               then canvas_set cv (of_int \<lfloor>x + of_nat sx\<rfloor>) (of_int \<lfloor>y + of_nat sy\<rfloor>)
                      (gradient_color_at sprite sx)
               else canvas_set cv (of_int \<lfloor>x + of_nat sx\<rfloor>) (of_int \<lfloor>y + of_nat sy\<rfloor>) (Num 0))
         else cv)"

definition drawSpriteGradient :: "QuadrantCanvas \<Rightarrow> Sprite \<Rightarrow> rat \<Rightarrow> rat \<Rightarrow> QuadrantCanvas" where
  "drawSpriteGradient cv sprite x y =
     fold (\<lambda>sy cv1. fold (drawSpriteGradient_pixel sprite x y sy) [0 ..< swidth sprite] cv1)
       [0 ..< sheight sprite] cv"

definition isPixelCollidable :: "Sprite \<Rightarrow> rat \<Rightarrow> rat \<Rightarrow> bool" where
  "isPixelCollidable sprite x y =
     (if x < 0 \<or> x \<ge> of_nat (swidth sprite) \<or> y < 0 \<or> y \<ge> of_nat (sheight sprite) then False
      else
        (let idx = js_shl2 (int (swidth sprite) * \<lfloor>y\<rfloor> + \<lfloor>x\<rfloor>)
         in js_gt (typed_read (sdata sprite) (of_int (idx + 3))) 128
            \<and> js_lt (typed_read (sdata sprite) (of_int idx)) 128))"

text \<open>Steps 4 and 5 of \<^verbatim>\<open>checkCollision\<close> at the world position \<open>(x, y)\<close>: the local
  coordinates \<^verbatim>\<open>srcX1 + (x - x1)\<close> are computed in doubles, each operation rounded.\<close>

definition both_collidable ::
  "Sprite \<Rightarrow> rat \<Rightarrow> rat \<Rightarrow> rat \<Rightarrow> rat \<Rightarrow> Sprite \<Rightarrow> rat \<Rightarrow> rat \<Rightarrow> rat \<Rightarrow> rat \<Rightarrow> rat \<Rightarrow> rat \<Rightarrow> bool" where
  "both_collidable s1 x1 y1 srcX1 srcY1 s2 x2 y2 srcX2 srcY2 x y =
     (let sx1 = fl (srcX1 + fl (x - x1));
          sy1 = fl (srcY1 + fl (y - y1));
          sx2 = fl (srcX2 + fl (x - x2));
          sy2 = fl (srcY2 + fl (y - y2))
      in isPixelCollidable s1 sx1 sy1 \<and> isPixelCollidable s2 sx2 sy2)"

text \<open>
  A loop \<^verbatim>\<open>for (let v = v0; v < bound; v++) { if (body) return true; }\<close> followed by
  \<^verbatim>\<open>return false\<close>. The increment is rounded, so from \<open>2\<^sup>5\<^sup>3\<close> on \<^verbatim>\<open>v++\<close> leaves \<open>v\<close> as it is
  and the loop never ends: the result \<open>None\<close> stands for a call that does not return, also
  when it is the body that does not return. (The rounded successor of a double is never
  below it, so the last branch is the loop that stays at \<open>v\<close>.)
\<close>

function scan_loop :: "(rat \<Rightarrow> bool option) \<Rightarrow> rat \<Rightarrow> rat \<Rightarrow> bool option" where
  "scan_loop body bound v =
     (if v < bound
      then (case body v of
              None \<Rightarrow> None
            | Some b \<Rightarrow>
                if b then Some True
                else if v < fl (v + 1) then scan_loop body bound (fl (v + 1)) else None)
      else Some False)"
  by pat_completeness auto
termination
proof (relation "measure (\<lambda>(body, bound, v). nat (\<lceil>bound * 2 ^ 1074\<rceil> - \<lfloor>v * 2 ^ 1074\<rfloor>))")
  show "wf (measure (\<lambda>(body, bound, v). nat (\<lceil>bound * 2 ^ 1074\<rceil> - \<lfloor>v * 2 ^ 1074\<rfloor>)))" by simp
next
  fix body :: "rat \<Rightarrow> bool option" and bound v :: rat
  assume lt: "v < bound" and step: "v < fl (v + 1)"
  define q where "q = v + 1"
  have grid: "\<exists>k::int. fl q * 2 ^ 1074 = of_int k"
  proof (cases "q = 0")
    case True
    then show ?thesis by (simp add: fl_def exI[of _ 0])
  next
    case False
    define e where "e = max (expo q) (- 1022)"
    define r where "r = round_even (q / 2 powi (e - 52))"
    have f: "fl q = of_int r * 2 powi (e - 52)"
      using False by (simp add: fl_def Let_def e_def r_def)
    have "e - 52 + 1074 \<ge> 0" by (simp add: e_def)
    then obtain n :: nat where n: "e - 52 + 1074 = int n" using nonneg_int_cases by blast
    have p: "(2::rat) ^ 1074 = 2 powi 1074" by simp
    have "(2::rat) powi (e - 52) * 2 powi 1074 = 2 powi (e - 52 + 1074)"
      by (rule power_int_add[symmetric]) simp
    also have "\<dots> = 2 ^ n" unfolding n by (rule power_int_of_nat)
    finally have "(2::rat) powi (e - 52) * 2 ^ 1074 = 2 ^ n" unfolding p .
    then have "fl q * 2 ^ 1074 = of_int r * 2 ^ n" unfolding f by (simp only: mult.assoc)
    also have "\<dots> = of_int (r * 2 ^ n)" by simp
    finally show ?thesis by blast
  qed
  then obtain k :: int where k: "fl (v + 1) * 2 ^ 1074 = of_int k" unfolding q_def by blast
  have "v * 2 ^ 1074 < fl (v + 1) * 2 ^ 1074" using step by simp
  then have "v * 2 ^ 1074 < of_int k" unfolding k .
  then have up: "\<lfloor>v * 2 ^ 1074\<rfloor> < \<lfloor>fl (v + 1) * 2 ^ 1074\<rfloor>" unfolding k by (simp add: floor_less_iff)
  have "v * 2 ^ 1074 < bound * 2 ^ 1074" using lt by simp
  with of_int_floor_le[of "v * 2 ^ 1074"]
  have "of_int \<lfloor>v * 2 ^ 1074\<rfloor> < bound * 2 ^ 1074" by (rule le_less_trans)
  then have pos: "\<lfloor>v * 2 ^ 1074\<rfloor> < \<lceil>bound * 2 ^ 1074\<rceil>" by (simp add: less_ceiling_iff)
  show "((body, bound, fl (v + 1)), (body, bound, v))
      \<in> measure (\<lambda>(body, bound, v). nat (\<lceil>bound * 2 ^ 1074\<rceil> - \<lfloor>v * 2 ^ 1074\<rfloor>))"
    using up pos by simp
qed

declare scan_loop.simps [simp del]

text \<open>The inner and the outer loop of step 3, with the early \<^verbatim>\<open>return true\<close>.\<close>

definition scan_row :: "(rat \<Rightarrow> rat \<Rightarrow> bool) \<Rightarrow> rat \<Rightarrow> rat \<Rightarrow> rat \<Rightarrow> bool option" where
  "scan_row hit right y left = scan_loop (\<lambda>x. Some (hit x y)) right left"

definition scan_rows ::
  "(rat \<Rightarrow> rat \<Rightarrow> bool) \<Rightarrow> rat \<Rightarrow> rat \<Rightarrow> rat \<Rightarrow> rat \<Rightarrow> bool option" where
  "scan_rows hit left right bottom first =
     scan_loop (\<lambda>y. scan_row hit right y left) bottom first"

text \<open>The body of \<^verbatim>\<open>checkCollision\<close> on arguments that are doubles: \<open>Some b\<close> when the call
  returns \<open>b\<close>, \<open>None\<close> when it does not return.\<close>

definition checkCollision_body ::
  "Sprite \<Rightarrow> rat \<Rightarrow> rat \<Rightarrow> rat \<Rightarrow> rat \<Rightarrow> rat \<Rightarrow> rat \<Rightarrow>
   Sprite \<Rightarrow> rat \<Rightarrow> rat \<Rightarrow> rat \<Rightarrow> rat \<Rightarrow> rat \<Rightarrow> rat \<Rightarrow> bool option" where
  "checkCollision_body s1 x1 y1 w1 h1 srcX1 srcY1 s2 x2 y2 w2 h2 srcX2 srcY2 =
     (let left = max x1 x2;
          right = min (fl (x1 + w1)) (fl (x2 + w2));
          top = max y1 y2;
          bottom = min (fl (y1 + h1)) (fl (y2 + h2))
      in if left \<ge> right \<or> top \<ge> bottom then Some False
         else scan_rows (both_collidable s1 x1 y1 srcX1 srcY1 s2 x2 y2 srcX2 srcY2)
                left right bottom top)"

text \<open>\<^verbatim>\<open>checkCollision\<close>: a number passed to it is a double, so a rational argument stands for
  the double nearest to it (an integer below \<open>2\<^sup>5\<^sup>3\<close> and a half of one stand for themselves,
  \<open>2 / 5\<close> stands for the literal \<^verbatim>\<open>0.4\<close>).\<close>

definition checkCollision ::
  "Sprite \<Rightarrow> rat \<Rightarrow> rat \<Rightarrow> rat \<Rightarrow> rat \<Rightarrow> rat \<Rightarrow> rat \<Rightarrow>
   Sprite \<Rightarrow> rat \<Rightarrow> rat \<Rightarrow> rat \<Rightarrow> rat \<Rightarrow> rat \<Rightarrow> rat \<Rightarrow> bool option" where
  "checkCollision s1 x1 y1 w1 h1 srcX1 srcY1 s2 x2 y2 w2 h2 srcX2 srcY2 =
     checkCollision_body s1 (fl x1) (fl y1) (fl w1) (fl h1) (fl srcX1) (fl srcY1)
       s2 (fl x2) (fl y2) (fl w2) (fl h2) (fl srcX2) (fl srcY2)"

text \<open>A sprite of one shade, as \<^verbatim>\<open>parseSprite\<close> builds it from a block of one glyph: every
  pixel has the channels \<open>(shade, shade, shade, 255)\<close>. The solid glyph gives shade 0, the
  light glyph shade 255.\<close>

definition uniform_sprite :: "nat \<Rightarrow> nat \<Rightarrow> 8 word \<Rightarrow> Sprite" where
  "uniform_sprite w h shade =
     \<lparr>swidth = w, sheight = h,
      sdata = map (\<lambda>i. if i mod 4 = 3 then 255 else shade) [0 ..< w * h * 4]\<rparr>"

definition dark_sprite :: "nat \<Rightarrow> nat \<Rightarrow> Sprite" where
  "dark_sprite w h = uniform_sprite w h 0"

definition light_sprite :: "nat \<Rightarrow> nat \<Rightarrow> Sprite" where
  "light_sprite w h = uniform_sprite w h 255"

subsection \<open>Notions used to state the properties of sprites\<close>

text \<open>A sprite as \<^verbatim>\<open>parseSprite\<close> returns it: four bytes for each pixel, and a buffer within
  the range of the 32-bit index arithmetic.\<close>

definition sprite_ok :: "Sprite \<Rightarrow> bool" where
  "sprite_ok s = (length (sdata s) = swidth s * sheight s * 4 \<and> length (sdata s) < 2 ^ 31)"

text \<open>An integer small enough for the sums and differences of the scan to be exact in
  doubles.\<close>

definition small_int :: "rat \<Rightarrow> bool" where
  "small_int q = (is_integer q \<and> \<bar>q\<bar> \<le> 2 ^ 50)"

text \<open>The pixel test in the words of the specification: within the bounds of the sprite,
  alpha above 128 and red below 128, the pixel being the one that holds the position.\<close>

definition red_at :: "Sprite \<Rightarrow> int \<Rightarrow> int \<Rightarrow> int" where
  "red_at s px py = uint (sdata s ! nat (4 * (int (swidth s) * py + px)))"

definition alpha_at :: "Sprite \<Rightarrow> int \<Rightarrow> int \<Rightarrow> int" where
  "alpha_at s px py = uint (sdata s ! nat (4 * (int (swidth s) * py + px) + 3))"

definition spec_collidable :: "Sprite \<Rightarrow> rat \<Rightarrow> rat \<Rightarrow> bool" where
  "spec_collidable s x y =
     (0 \<le> x \<and> x < of_nat (swidth s) \<and> 0 \<le> y \<and> y < of_nat (sheight s)
      \<and> alpha_at s \<lfloor>x\<rfloor> \<lfloor>y\<rfloor> > 128 \<and> red_at s \<lfloor>x\<rfloor> \<lfloor>y\<rfloor> < 128)"

text \<open>The collision test in the words of the specification: some integer world coordinate
  inside the intersection rectangle of the two boxes at which the source pixels of both
  sprites are collidable. The integers \<open>X\<close> with \<open>left \<le> X < right\<close> are those from
  \<open>\<lceil>left\<rceil>\<close> up to \<open>\<lceil>right\<rceil> - 1\<close>.\<close>

definition spec_collision ::
  "Sprite \<Rightarrow> rat \<Rightarrow> rat \<Rightarrow> rat \<Rightarrow> rat \<Rightarrow> rat \<Rightarrow> rat \<Rightarrow>
   Sprite \<Rightarrow> rat \<Rightarrow> rat \<Rightarrow> rat \<Rightarrow> rat \<Rightarrow> rat \<Rightarrow> rat \<Rightarrow> bool" where
  "spec_collision s1 x1 y1 w1 h1 srcX1 srcY1 s2 x2 y2 w2 h2 srcX2 srcY2 =
     (let left = max x1 x2;
          right = min (x1 + w1) (x2 + w2);
          top = max y1 y2;
          bottom = min (y1 + h1) (y2 + h2)
      in \<exists>X \<in> {\<lceil>left\<rceil> ..< \<lceil>right\<rceil>}. \<exists>Y \<in> {\<lceil>top\<rceil> ..< \<lceil>bottom\<rceil>}.
           spec_collidable s1 (srcX1 + (of_int X - x1)) (srcY1 + (of_int Y - y1))
           \<and> spec_collidable s2 (srcX2 + (of_int X - x2)) (srcY2 + (of_int Y - y2)))"

section \<open>The game\<close>

text \<open>
  Component \<^verbatim>\<open>DinoGame\<close>. Its React state variables and refs are the fields of one record;
  a handler reads the snapshot \<^verbatim>\<open>latestStateRef.current\<close>, which is the state of the last
  render, and the state it leaves is the snapshot with all its updates applied, an updater
  function \<^verbatim>\<open>(prev) => ...\<close> being run when the queue is processed, after the handler. A pending
  \<^verbatim>\<open>setTimeout\<close> of the duck timer is the flag \<open>duckTimerRef\<close>, a call of \<^verbatim>\<open>onClose\<close> counts in
  \<open>closeCalls\<close>, \<^verbatim>\<open>Date.now()\<close> is the argument \<open>now\<close>, and the \<open>k\<close>-th call of \<^verbatim>\<open>Math.random()\<close>
  inside one handler is \<open>rand rnd k\<close>, the fractional part of \<open>rnd k\<close> and so a number in
  \<open>[0, 1)\<close>, for an arbitrary sequence \<open>rnd\<close>. The sprite sheets are data files outside the
  sources at hand: the loaded sprites are fields of the state.
\<close>

definition HEIGHT :: rat where "HEIGHT = 150"
definition GROUND_Y :: rat where "GROUND_Y = HEIGHT - 4"
definition DINO_X :: rat where "DINO_X = 10"
definition DINO_WIDTH :: rat where "DINO_WIDTH = 44"
definition DINO_HEIGHT :: rat where "DINO_HEIGHT = 23"
definition POSE_START :: rat where "POSE_START = 0"
definition POSE_RUN1 :: rat where "POSE_RUN1 = 88"
definition POSE_RUN2 :: rat where "POSE_RUN2 = 132"
definition GRAVITY :: rat where "GRAVITY = 3 / 4"
definition JUMP_VELOCITY :: rat where "JUMP_VELOCITY = - (8485 / 1000)"
definition SPEED_INITIAL :: rat where "SPEED_INITIAL = 5"
definition MAX_SPEED :: rat where "MAX_SPEED = 15"
definition SPEED_ACCELERATION :: rat where "SPEED_ACCELERATION = 5 / 1000"
definition INITIAL_GROUND_OFFSET :: rat where "INITIAL_GROUND_OFFSET = 600"

text \<open>The cut rectangles \<open>(x, y, w, h)\<close> of the two cactus sheets.\<close>

definition CACTUS_LARGE_DEFINITIONS :: "(rat \<times> rat \<times> rat \<times> rat) list" where
  "CACTUS_LARGE_DEFINITIONS =
     [(0, 0, 25, 26), (25, 0, 25, 26), (50, 0, 25, 26), (75, 0, 25, 26), (100, 0, 50, 26)]"

definition CACTUS_SMALL_DEFINITIONS :: "(rat \<times> rat \<times> rat \<times> rat) list" where
  "CACTUS_SMALL_DEFINITIONS =
     [(0, 0, 17, 18), (17, 0, 17, 18), (34, 0, 17, 18), (51, 0, 17, 18), (68, 0, 17, 18),
      (85, 0, 17, 18)]"

definition calculateViewportY :: "rat \<Rightarrow> rat \<Rightarrow> rat \<Rightarrow> int" where
  "calculateViewportY dinoY gameHeight viewportHeightDots =
     (let viewportY0 = gameHeight - viewportHeightDots;
          dinoTop = dinoY;
          requiredTop = dinoTop - 4;
          viewportY1 = (if viewportY0 > requiredTop then max 0 requiredTop else viewportY0);
          viewportY2 = min viewportY1 (gameHeight - viewportHeightDots)
      in \<lfloor>viewportY2\<rfloor>)"

datatype GameState = LOADING | WAITING | PLAYING | GAME_OVER
datatype SpeedMode = NORMAL | SLOW | VERY_SLOW
datatype ObstacleType = CACTUS_SMALL | CACTUS_LARGE | PTERODACTYL
datatype ObstacleSprite = Mask "bool list list" | Spr Sprite

record Obstacle =
  ox :: rat
  oy :: rat
  otype :: ObstacleType
  osprite :: ObstacleSprite
  owidth :: rat
  oheight :: rat
  osrcX :: "rat option"
  osrcY :: "rat option"

record Cloud =
  cx :: rat
  cy :: rat

record Logo =
  lx :: rat
  ly :: rat
  lsprite :: Sprite

record Key =
  kname :: string
  ksequence :: string
  kctrl :: bool

record Game =
  obstacles :: "Obstacle list"
  clouds :: "Cloud list"
  logos :: "Logo list"
  groundOffset :: rat
  gameState :: GameState
  score :: rat
  highScore :: rat
  dinoY :: rat
  dinoVy :: rat
  tick :: int
  dinoSprite :: "Sprite option"
  pteroSprite :: "Sprite option"
  cloudSprite :: "Sprite option"
  duckLeftSprite :: "Sprite option"
  duckRightSprite :: "Sprite option"
  obstacleLargeSprite :: "Sprite option"
  obstacleSmallSprite :: "Sprite option"
  speedRef :: rat
  lastSpawnTickRef :: int
  lastPteroSpawnTickRef :: int
  gameTickRef :: rat
  duckTimerRef :: bool
  isDucking :: bool
  speedMode :: SpeedMode
  showBorder :: bool
  infiniteMode :: bool
  gameOverTimeRef :: rat
  lastCollisionTimeRef :: rat
  logoSprites :: "Sprite list"
  debugCactusIndex :: nat
  columns :: int
  effectiveHeightChars :: rat
  closeCalls :: nat

definition rand :: "(nat \<Rightarrow> rat) \<Rightarrow> nat \<Rightarrow> rat" where
  "rand rnd k = rnd k - of_int \<lfloor>rnd k\<rfloor>"

text \<open>The values every render derives from the state: \<^verbatim>\<open>width\<close>, \<^verbatim>\<open>viewportHeightDots\<close> and
  \<^verbatim>\<open>viewportY\<close> (kept in \<^verbatim>\<open>viewportYRef\<close>).\<close>

definition game_width :: "Game \<Rightarrow> rat" where
  "game_width g = of_int ((columns g - (if showBorder g then 2 else 0)) * 2)"

definition viewportHeightDots :: "Game \<Rightarrow> rat" where
  "viewportHeightDots g =
     (let maxViewportHeightChars = \<lfloor>fl (effectiveHeightChars g * fl (7 / 10))\<rfloor>;
          maxViewportHeightDots = maxViewportHeightChars * 2
      in min HEIGHT (of_int maxViewportHeightDots))"

definition viewportY :: "Game \<Rightarrow> int" where
  "viewportY g = calculateViewportY (dinoY g) HEIGHT (viewportHeightDots g)"

definition resetGame :: "Game \<Rightarrow> Game" where
  "resetGame state =
     (case dinoSprite state of
        None \<Rightarrow> state
      | Some ds \<Rightarrow>
          state\<lparr>gameState := PLAYING,
                score := 0,
                dinoY := GROUND_Y - of_nat (sheight ds),
                dinoVy := 0,
                obstacles := [],
                clouds := [\<lparr>cx = of_int (\<lfloor>fl (fl (game_width state * fl (3 / 10)) / 2)\<rfloor> * 2),
                            cy = 30\<rparr>,
                           \<lparr>cx = of_int (\<lfloor>fl (fl (game_width state * fl (7 / 10)) / 2)\<rfloor> * 2),
                            cy = 60\<rparr>],
                logos := [],
                groundOffset := INITIAL_GROUND_OFFSET,
                tick := 0,
                speedRef := SPEED_INITIAL,
                lastSpawnTickRef := 0,
                lastPteroSpawnTickRef := 0,
                gameTickRef := 0\<rparr>)"

definition continueGame :: "Game \<Rightarrow> Game" where
  "continueGame g =
     g\<lparr>gameState := PLAYING,
       obstacles := filter (\<lambda>ob. ox ob < DINO_X - 100 \<or> ox ob > DINO_X + 300) (obstacles g)\<rparr>"

text \<open>\<^verbatim>\<open>spawnPterodactyl\<close>: \<open>state\<close> is the snapshot, \<open>g\<close> the state being updated.\<close>

definition spawnPterodactyl :: "Game \<Rightarrow> Game \<Rightarrow> Game" where
  "spawnPterodactyl state g =
     (case pteroSprite state of
        None \<Rightarrow> g
      | Some ps \<Rightarrow>
          (let y = GROUND_Y - 36 in
           g\<lparr>obstacles := obstacles g @
                [\<lparr>ox = game_width state, oy = y, otype = PTERODACTYL, osprite = Spr ps,
                  owidth = of_nat (swidth ps), oheight = of_nat (sheight ps),
                  osrcX = None, osrcY = None\<rparr>]\<rparr>))"

text \<open>The state in which the game waits for the first key: the initial values of the state
  variables and refs, and the updates made once the sprites are loaded.\<close>

definition loaded_game ::
  "Sprite \<Rightarrow> Sprite \<Rightarrow> Sprite \<Rightarrow> Sprite \<Rightarrow> Sprite \<Rightarrow> Sprite \<Rightarrow> Sprite \<Rightarrow> Sprite \<Rightarrow> int \<Rightarrow> rat
     \<Rightarrow> Game" where
  "loaded_game dino ptero cloud duckL duckR obsLarge obsSmall longLogo cols rows =
     \<lparr>obstacles = [],
      clouds = [\<lparr>cx = 60, cy = 30\<rparr>, \<lparr>cx = 140, cy = 60\<rparr>],
      logos = [],
      groundOffset = INITIAL_GROUND_OFFSET,
      gameState = WAITING,
      score = 0,
      highScore = 0,
      dinoY = GROUND_Y - of_nat (sheight dino),
      dinoVy = 0,
      tick = 0,
      dinoSprite = Some dino,
      pteroSprite = Some ptero,
      cloudSprite = Some cloud,
      duckLeftSprite = Some duckL,
      duckRightSprite = Some duckR,
      obstacleLargeSprite = Some obsLarge,
      obstacleSmallSprite = Some obsSmall,
      speedRef = SPEED_INITIAL,
      lastSpawnTickRef = 0,
      lastPteroSpawnTickRef = 0,
      gameTickRef = 0,
      duckTimerRef = False,
      isDucking = False,
      speedMode = NORMAL,
      showBorder = True,
      infiniteMode = False,
      gameOverTimeRef = 0,
      lastCollisionTimeRef = 0,
      logoSprites = [longLogo],
      debugCactusIndex = 0,
      columns = cols,
      effectiveHeightChars = rows,
      closeCalls = 0\<rparr>"

text \<open>States and inputs for the examples below: a terminal of 100 columns and 24 rows, all
  sprites solid, the sheet of the player \<open>h\<close> pixels high; the space key; a run under way
  with the obstacles \<open>obs\<close> and a score of 42; a small cactus and a pterodactyl at \<open>x\<close>.\<close>

definition demo_game :: "nat \<Rightarrow> Game" where
  "demo_game h =
     loaded_game (dark_sprite 220 h) (dark_sprite 92 40) (dark_sprite 46 13) (dark_sprite 59 30)
       (dark_sprite 59 30) (dark_sprite 150 26) (dark_sprite 102 18) (dark_sprite 100 10) 100 24"

definition space_key :: Key where
  "space_key = \<lparr>kname = ''space'', ksequence = '' '', kctrl = False\<rparr>"

definition cactus_at :: "rat \<Rightarrow> Obstacle" where
  "cactus_at x =
     \<lparr>ox = x, oy = GROUND_Y - 18, otype = CACTUS_SMALL, osprite = Spr (dark_sprite 102 18),
      owidth = 17, oheight = 18, osrcX = Some 0, osrcY = Some 0\<rparr>"

definition ptero_at :: "rat \<Rightarrow> Obstacle" where
  "ptero_at x =
     \<lparr>ox = x, oy = GROUND_Y - 36, otype = PTERODACTYL, osprite = Spr (dark_sprite 92 40),
      owidth = 46, oheight = 40, osrcX = None, osrcY = None\<rparr>"

definition playing_game :: "Obstacle list \<Rightarrow> Game" where
  "playing_game obs = (resetGame (demo_game 23))\<lparr>obstacles := obs, score := 42\<rparr>"

subsection \<open>The key handler\<close>

definition jump_input :: "Key \<Rightarrow> bool" where
  "jump_input key = (ksequence key = '' '' \<or> kname key = ''up'')"

text \<open>The branch of the handler for the state \<^verbatim>\<open>PLAYING\<close>; the index \<open>debugCactusIndex\<close> stays
  below the number of small cactus definitions.\<close>

definition key_playing :: "Game \<Rightarrow> Key \<Rightarrow> (nat \<Rightarrow> rat) \<Rightarrow> Game" where
  "key_playing state key rnd =
     (let input = ksequence key;
          downArrow = (kname key = ''down'');
          g1 = (case dinoSprite state of
                  None \<Rightarrow> state
                | Some ds \<Rightarrow>
                    if jump_input key \<and> \<not> isDucking state
                       \<and> (dinoY state \<ge> GROUND_Y - of_nat (sheight ds) - 1
                            \<or> speedMode state \<noteq> NORMAL)
                    then state\<lparr>dinoVy := JUMP_VELOCITY\<rparr> else state);
          g2 = (if downArrow then g1\<lparr>isDucking := True, duckTimerRef := True\<rparr>
                else if isDucking state then g1\<lparr>isDucking := False, duckTimerRef := False\<rparr>
                else g1);
          g3 = (if input = ''p'' then spawnPterodactyl state g2 else g2);
          g4 = (if input = ''g'' \<and> length (logoSprites state) > 0
                then (let randomLogo = logoSprites state
                            ! nat \<lfloor>rand rnd 0 * of_nat (length (logoSprites state))\<rfloor>;
                          minY = of_int (viewportY state) + 5;
                          maxY = max minY (of_int (viewportY state) + viewportHeightDots state * (1 / 2));
                          spawnY = of_int \<lfloor>rand rnd 1 * (maxY - minY + 1)\<rfloor> + minY
                      in g3\<lparr>logos := logos g3 @
                              [\<lparr>lx = game_width state, ly = spawnY, lsprite = randomLogo\<rparr>]\<rparr>)
                else g3);
          g5 = (if input = ''s''
                then g4\<lparr>speedMode := (if speedMode g4 = SLOW then NORMAL else SLOW)\<rparr> else g4);
          g6 = (if input = ''v''
                then g5\<lparr>speedMode := (if speedMode g5 = VERY_SLOW then NORMAL else VERY_SLOW)\<rparr>
                else g5);
          g7 = (if input = ''b'' then g6\<lparr>showBorder := \<not> showBorder g6\<rparr> else g6);
          g8 = (if input = ''i'' then g7\<lparr>infiniteMode := \<not> infiniteMode g7\<rparr> else g7)
      in case (if input = ''c'' then obstacleSmallSprite state else None) of
           None \<Rightarrow> g8
         | Some ss \<Rightarrow>
             (case CACTUS_SMALL_DEFINITIONS ! debugCactusIndex state of
                (dx, dy, dw, dh) \<Rightarrow>
                  g8\<lparr>obstacles := obstacles g8 @
                        [\<lparr>ox = game_width state, oy = GROUND_Y - dh, otype = CACTUS_SMALL,
                          osprite = Spr ss, owidth = dw, oheight = dh,
                          osrcX = Some dx, osrcY = Some dy\<rparr>],
                      debugCactusIndex :=
                        (debugCactusIndex g8 + 1) mod length CACTUS_SMALL_DEFINITIONS\<rparr>))"

definition key_game_over :: "Game \<Rightarrow> Key \<Rightarrow> rat \<Rightarrow> Game" where
  "key_game_over state key now =
     (let g1 = (if jump_input key \<and> now - gameOverTimeRef state > 2000
                then resetGame state else state)
      in if kname key = ''c'' \<and> \<not> kctrl key then continueGame g1 else g1)"

definition handle_key :: "Game \<Rightarrow> Key \<Rightarrow> (nat \<Rightarrow> rat) \<Rightarrow> rat \<Rightarrow> Game" where
  "handle_key state key rnd now =
     (let g = (if gameState state = WAITING
               then (if jump_input key then resetGame state else state)
               else if gameState state = PLAYING then key_playing state key rnd
               else if gameState state = GAME_OVER then key_game_over state key now
               else state)
      in if (kname key = ''c'' \<and> kctrl key) \<or> kname key = ''escape''
            \<or> ksequence key = [CHR 0x1B]
         then g\<lparr>closeCalls := closeCalls g + 1\<rparr> else g)"

text \<open>The callback of the duck timer, 500 ms after the last press of the down arrow.\<close>

definition duck_timeout :: "Game \<Rightarrow> Game" where
  "duck_timeout g = g\<lparr>isDucking := False, duckTimerRef := False\<rparr>"

subsection \<open>The tick\<close>

definition timeScale :: "Game \<Rightarrow> rat" where
  "timeScale state =
     (if speedMode state = SLOW then 1 / 2
      else if speedMode state = VERY_SLOW then 1 / 10 else 1)"

text \<open>The pair \<open>(newVy, newY)\<close> of the physics step.\<close>

definition tick_physics :: "Game \<Rightarrow> rat \<times> rat" where
  "tick_physics state =
     (let newVy = dinoVy state + GRAVITY * timeScale state;
          newY = dinoY state + newVy * timeScale state;
          groundLevel = GROUND_Y - DINO_HEIGHT
      in if newY > groundLevel then (0, groundLevel) else (newVy, newY))"

text \<open>\<^verbatim>\<open>speedRef.current\<close> after the step "speed up".\<close>

definition next_speed :: "Game \<Rightarrow> rat" where
  "next_speed state =
     min MAX_SPEED (speedRef state + SPEED_ACCELERATION * timeScale state)"

definition move_obstacle :: "rat \<Rightarrow> rat \<Rightarrow> Obstacle \<Rightarrow> Obstacle" where
  "move_obstacle speed ts ob =
     (let moveSpeed = (if otype ob = PTERODACTYL then speed * 2 else speed)
      in ob\<lparr>ox := ox ob - moveSpeed * ts\<rparr>)"

definition nextObstacles :: "Game \<Rightarrow> Obstacle list" where
  "nextObstacles state =
     filter (\<lambda>ob. ox ob + owidth ob > 0)
       (map (move_obstacle (next_speed state) (timeScale state)) (obstacles state))"

definition nextClouds :: "Game \<Rightarrow> Cloud list" where
  "nextClouds state =
     (if (tick state + 1) mod js_round (8 / timeScale state) = 0
      then filter (\<lambda>c. cx c + (case cloudSprite state of Some cs \<Rightarrow> of_nat (swidth cs)
                                                     | None \<Rightarrow> 100) > 0)
             (map (\<lambda>c. c\<lparr>cx := cx c - 2\<rparr>) (clouds state))
      else clouds state)"

definition nextLogos :: "Game \<Rightarrow> Logo list" where
  "nextLogos state =
     (if (tick state + 1) mod js_round (2 / timeScale state) = 0
      then filter (\<lambda>l. lx l + of_nat (swidth (lsprite l)) > 0)
             (map (\<lambda>l. l\<lparr>lx := lx l - 2\<rparr>) (logos state))
      else logos state)"

text \<open>The state after the updates up to "move logos". The updater of \<^verbatim>\<open>groundOffset\<close> reads
  \<^verbatim>\<open>speedRef.current\<close> when it runs, which is after the step "speed up".\<close>

definition tick_advance :: "Game \<Rightarrow> Game" where
  "tick_advance state =
     state\<lparr>tick := tick state + 1,
           gameTickRef := gameTickRef state + timeScale state,
           score := score state + 1 * timeScale state,
           groundOffset := groundOffset state + next_speed state * timeScale state,
           dinoVy := fst (tick_physics state),
           dinoY := snd (tick_physics state),
           speedRef := next_speed state,
           obstacles := nextObstacles state,
           clouds := nextClouds state,
           logos := nextLogos state\<rparr>"

definition currentViewportY :: "Game \<Rightarrow> int" where
  "currentViewportY state =
     calculateViewportY (snd (tick_physics state)) HEIGHT (viewportHeightDots state)"

definition spawnChance :: "Game \<Rightarrow> rat" where
  "spawnChance state =
     (let ts = timeScale state;
          timeSinceLastSpawn = tick state + 1 - lastSpawnTickRef state;
          c0 = 1 / 100 * ts;
          c1 = (if of_int timeSinceLastSpawn > 60 / ts then 5 / 100 * ts else c0)
      in if of_int timeSinceLastSpawn > 150 / ts then 2 / 10 * ts else c1)"

definition spawn_wanted :: "Game \<Rightarrow> (nat \<Rightarrow> rat) \<Rightarrow> bool" where
  "spawn_wanted state rnd =
     (let minDistance = max 100 (next_speed state * 20)
      in rand rnd 0 < spawnChance state
         \<and> length (nextObstacles state) < 3
         \<and> (length (nextObstacles state) = 0
             \<or> game_width state - ox (last (nextObstacles state)) > minDistance))"

text \<open>"Spawn obstacles" on the state \<open>g\<close> being updated: the new state, the number of random
  draws made so far, and whether the callback has returned (no sprite to spawn with).\<close>

definition spawn_obstacle_step :: "Game \<Rightarrow> (nat \<Rightarrow> rat) \<Rightarrow> Game \<Rightarrow> Game \<times> nat \<times> bool" where
  "spawn_obstacle_step state rnd g =
     (if \<not> spawn_wanted state rnd then (g, 1, False)
      else
        (let currentTick = tick state + 1;
             timeSinceLastPtero = currentTick - lastPteroSpawnTickRef state;
             typeRand = rand rnd 1;
             pteroChance = min (8 / 10) ((of_int timeSinceLastPtero * timeScale state) / 600);
             wantPtero = (score state > 300 \<and> rand rnd 2 < pteroChance);
             k = (if score state > 300 then 3 else 2)
         in case (if wantPtero then pteroSprite state else None) of
              Some ps \<Rightarrow>
                (g\<lparr>obstacles := obstacles g @
                      [\<lparr>ox = game_width state, oy = GROUND_Y - 36 + (rand rnd k * 8 - 4),
                        otype = PTERODACTYL, osprite = Spr ps,
                        owidth = of_nat (swidth ps), oheight = of_nat (sheight ps),
                        osrcX = Some 0, osrcY = Some 0\<rparr>],
                    lastPteroSpawnTickRef := currentTick,
                    lastSpawnTickRef := currentTick\<rparr>, k + 1, False)
            | None \<Rightarrow>
               (case (if typeRand > 1 / 2 then obstacleLargeSprite state else None) of
                  Some ls \<Rightarrow>
                    (case CACTUS_LARGE_DEFINITIONS
                            ! nat \<lfloor>rand rnd k * of_nat (length CACTUS_LARGE_DEFINITIONS)\<rfloor> of
                       (dx, dy, dw, dh) \<Rightarrow>
                         (g\<lparr>obstacles := obstacles g @
                               [\<lparr>ox = game_width state, oy = GROUND_Y - dh, otype = CACTUS_LARGE,
                                 osprite = Spr ls, owidth = dw, oheight = dh,
                                 osrcX = Some dx, osrcY = Some dy\<rparr>],
                             lastSpawnTickRef := currentTick\<rparr>, k + 1, False))
                | None \<Rightarrow>
                   (case obstacleSmallSprite state of
                      Some ss \<Rightarrow>
                        (case CACTUS_SMALL_DEFINITIONS
                                ! nat \<lfloor>rand rnd k * of_nat (length CACTUS_SMALL_DEFINITIONS)\<rfloor> of
                           (dx, dy, dw, dh) \<Rightarrow>
                             (g\<lparr>obstacles := obstacles g @
                                   [\<lparr>ox = game_width state, oy = GROUND_Y - dh,
                                     otype = CACTUS_SMALL, osprite = Spr ss, owidth = dw,
                                     oheight = dh, osrcX = Some dx, osrcY = Some dy\<rparr>],
                                 lastSpawnTickRef := currentTick\<rparr>, k + 1, False))
                    | None \<Rightarrow> (g, k, True)))))"

definition spawn_cloud_step :: "Game \<Rightarrow> (nat \<Rightarrow> rat) \<Rightarrow> nat \<Rightarrow> Game \<Rightarrow> Game \<times> nat" where
  "spawn_cloud_step state rnd k g =
     (case (if rand rnd k < 3 / 10 * timeScale state \<and> length (nextClouds state) < 4
            then cloudSprite state else None) of
        None \<Rightarrow> (g, k + 1)
      | Some cs \<Rightarrow>
          (let cloudW = of_nat (swidth cs);
               cloudH = of_nat (sheight cs);
               minY = of_int (currentViewportY state) + 2;
               maxY = max minY (fl (of_int (currentViewportY state)
                                     + fl (viewportHeightDots state * fl (6 / 10))));
               spawnY = of_int \<lfloor>rand rnd (k + 1) * (maxY - minY + 1)\<rfloor> + minY;
               spawnX = game_width state;
               overlaps = list_ex (\<lambda>c. spawnX < cx c + cloudW \<and> spawnX + cloudW > cx c
                                       \<and> spawnY < cy c + cloudH \<and> spawnY + cloudH > cy c)
                            (nextClouds state)
           in (if \<not> overlaps then g\<lparr>clouds := clouds g @ [\<lparr>cx = spawnX, cy = spawnY\<rparr>]\<rparr> else g,
               k + 2)))"

definition spawn_logo_step :: "Game \<Rightarrow> (nat \<Rightarrow> rat) \<Rightarrow> nat \<Rightarrow> Game \<Rightarrow> Game" where
  "spawn_logo_step state rnd k g =
     (if rand rnd k < 2 / 100 * timeScale state
         \<and> length (nextLogos state) < 3
         \<and> length (logoSprites state) > 0
         \<and> (length (nextLogos state) = 0
             \<or> game_width state - lx (last (nextLogos state)) > game_width state / 2)
      then (let sprite = logoSprites state
                  ! nat \<lfloor>rand rnd (k + 1) * of_nat (length (logoSprites state))\<rfloor>;
                minY = of_int (currentViewportY state) + 5;
                maxY = max minY (of_int (currentViewportY state) + viewportHeightDots state * (1 / 2));
                spawnY = of_int \<lfloor>rand rnd (k + 2) * (maxY - minY + 1)\<rfloor> + minY
            in g\<lparr>logos := logos g @ [\<lparr>lx = game_width state, ly = spawnY, lsprite = sprite\<rparr>]\<rparr>)
      else g)"

text \<open>The broad and the narrow phase for one obstacle, the player being drawn from
  \<open>curDinoSprite\<close> at \<open>(DINO_X, curDinoY)\<close>. The narrow phase is reached only when the boxes
  overlap, so its scan stays inside the box of the player and returns; the test is whether
  it returns \<^verbatim>\<open>true\<close>.\<close>

definition obstacle_hit ::
  "Sprite \<Rightarrow> rat \<Rightarrow> rat \<Rightarrow> rat \<Rightarrow> rat \<Rightarrow> Obstacle \<Rightarrow> bool" where
  "obstacle_hit curDinoSprite curDinoY curDinoW curDinoH curDinoSrcX obs =
     (DINO_X < ox obs + owidth obs \<and> DINO_X + curDinoW > ox obs
      \<and> curDinoY < oy obs + oheight obs \<and> curDinoY + curDinoH > oy obs
      \<and> (case osprite obs of
            Mask m \<Rightarrow> False
          | Spr sp \<Rightarrow>
              checkCollision curDinoSprite DINO_X curDinoY curDinoW curDinoH curDinoSrcX 0
                sp (ox obs) (oy obs) (owidth obs) (oheight obs)
                (case osrcX obs of None \<Rightarrow> 0 | Some v \<Rightarrow> v)
                (case osrcY obs of None \<Rightarrow> 0 | Some v \<Rightarrow> v) = Some True))"

definition collisionDetected :: "Game \<Rightarrow> rat \<Rightarrow> bool" where
  "collisionDetected state now =
     (case (dinoSprite state, duckLeftSprite state, duckRightSprite state) of
        (Some ds, Some dl, Some dr) \<Rightarrow>
          (let newY = snd (tick_physics state);
               gameTick = gameTickRef state + timeScale state;
               duckSprite = (if \<lfloor>gameTick / 3\<rfloor> mod 2 = 0 then dl else dr);
               curDinoSprite = (if isDucking state then duckSprite else ds);
               curDinoSrcX = (if isDucking state then 0
                              else if newY < GROUND_Y - DINO_HEIGHT then POSE_START
                              else if \<lfloor>gameTick / 3\<rfloor> mod 2 = 0 then POSE_RUN1 else POSE_RUN2);
               curDinoW = (if isDucking state then of_nat (swidth curDinoSprite) else DINO_WIDTH);
               curDinoH = (if isDucking state then of_nat (sheight curDinoSprite) else DINO_HEIGHT);
               curDinoY = (if isDucking state then newY + DINO_HEIGHT - curDinoH else newY);
               isInvincible = (infiniteMode state \<and> now - lastCollisionTimeRef state < 3000)
           in \<not> isInvincible
              \<and> list_ex (obstacle_hit curDinoSprite curDinoY curDinoW curDinoH curDinoSrcX)
                   (nextObstacles state))
      | _ \<Rightarrow> False)"

definition collision_step :: "Game \<Rightarrow> rat \<Rightarrow> Game \<Rightarrow> Game" where
  "collision_step state now g =
     (if collisionDetected state now
      then (if infiniteMode state then g\<lparr>lastCollisionTimeRef := now\<rparr>
            else g\<lparr>gameState := GAME_OVER,
                   highScore := max (highScore g) (score state),
                   gameOverTimeRef := now\<rparr>)
      else g)"

text \<open>The callback of the interval, run every 33 ms once the sprites are loaded.\<close>

definition game_tick :: "Game \<Rightarrow> (nat \<Rightarrow> rat) \<Rightarrow> rat \<Rightarrow> Game" where
  "game_tick state rnd now =
     (if gameState state = WAITING \<or> gameState state = GAME_OVER
      then state\<lparr>tick := tick state + 1\<rparr>
      else
        (case spawn_obstacle_step state rnd (tick_advance state) of
           (g2, k, returned) \<Rightarrow>
             if returned then g2
             else (case spawn_cloud_step state rnd k g2 of
                     (g3, k3) \<Rightarrow> collision_step state now (spawn_logo_step state rnd k3 g3))))"

subsection \<open>Notions used to state and prove the properties of the canvas\<close>

text \<open>The dominant colour in the words of the specification: the most frequent nonzero value,
  the numerically largest one among equally frequent values, and 0 when there is none.\<close>

definition spec_dominant :: "int list \<Rightarrow> int" where
  "spec_dominant vs =
     (let nz = filter (\<lambda>v. v \<noteq> 0) vs in
      if nz = [] then 0
      else Max {c \<in> set nz. \<forall>c' \<in> set nz. count_list nz c' \<le> count_list nz c})"

text \<open>The 4-bit pattern of a block in the words of the specification: each sub-pixel as a
  boolean (\<open>> 0\<close>), packed in the order TL, TR, BL, BR with TL most significant.\<close>

definition on_bit :: "int option \<Rightarrow> nat" where
  "on_bit p = (if js_gt0 p then 1 else 0)"

definition pattern_index :: "int option list \<Rightarrow> nat" where
  "pattern_index ps =
     (case ps of [ptl, ptr, pbl, pbr] \<Rightarrow>
          8 * on_bit ptl + 4 * on_bit ptr + 2 * on_bit pbl + on_bit pbr
      | _ \<Rightarrow> 0)"

text \<open>Invariant of the loop that picks the dominant colour, after the prefix \<open>pre\<close> of the
  colours \<open>cs\<close>.\<close>

definition dom_inv :: "int list \<Rightarrow> int list \<Rightarrow> nat \<times> int \<Rightarrow> bool" where
  "dom_inv cs pre st =
     (case st of (m, col) \<Rightarrow>
        (pre = [] \<and> m = 0) \<or>
        (col \<in> set pre \<and> m = count_list cs col \<and>
         (\<forall>c \<in> set pre. count_list cs c < m \<or> (count_list cs c = m \<and> c \<le> col))))"

text \<open>A string after which the scan for glyphs is outside every escape sequence, and the
  shape of the escape sequences \<^verbatim>\<open>toLines\<close> emits.\<close>

definition closed :: "jsstring \<Rightarrow> bool" where
  "closed a =
     (\<forall>rest. strip_escapes False (a @ rest) = strip_escapes False a @ strip_escapes False rest)"

definition is_escape :: "jsstring \<Rightarrow> bool" where
  "is_escape e = (e = [] \<or> (\<exists>body. e = 27 # body @ [109] \<and> 109 \<notin> set body))"

section \<open>Verified properties\<close>

subsection \<open>Canvas access\<close>

lemma canvas_ok_new: "canvas_ok (new_canvas w h)"
  by (simp add: canvas_ok_def new_canvas_def)

lemma canvas_ok_set: "canvas_ok c \<Longrightarrow> canvas_ok (canvas_set c x y col)"
  by (simp add: canvas_ok_def canvas_set_def typed_write_def)

lemma canvas_ok_clear: "canvas_ok c \<Longrightarrow> canvas_ok (canvas_clear c)"
  by (simp add: canvas_ok_def canvas_clear_def)


lemma is_integer_of_int [simp]: "is_integer (of_int i)"
  by (simp add: is_integer_def)

lemma typed_read_int:
  "typed_read xs (of_int i) = (if 0 \<le> i \<and> nat i < length xs then Some (uint (xs ! nat i)) else None)"
  by (simp add: typed_read_def)

lemma in_canvas_int:
  "in_canvas c (of_int x) (of_int y) = (0 \<le> x \<and> x < int (cwidth c) \<and> 0 \<le> y \<and> y < int (cheight c))"
proof -
  have "(of_int x < (of_nat (cwidth c) :: rat)) = (x < int (cwidth c))"
    by (metis of_int_less_iff of_int_of_nat_eq)
  moreover have "(of_int y < (of_nat (cheight c) :: rat)) = (y < int (cheight c))"
    by (metis of_int_less_iff of_int_of_nat_eq)
  ultimately show ?thesis by (simp add: in_canvas_def)
qed

lemma cell_index:
  assumes "0 \<le> x" "x < int w" "0 \<le> y" "y < int h"
  shows "0 \<le> y * int w + x" "nat (y * int w + x) < w * h"
proof -
  have "y * int w + x < (y + 1) * int w" using assms by (simp add: algebra_simps)
  also have "\<dots> \<le> int h * int w" using assms by (intro mult_right_mono) auto
  finally have "y * int w + x < int (w * h)" by (simp add: mult.commute)
  moreover show "0 \<le> y * int w + x" using assms by simp
  ultimately show "nat (y * int w + x) < w * h" by linarith
qed

lemma canvas_get_int:
  "canvas_get c (of_int x) (of_int y) =
     (if 0 \<le> x \<and> x < int (cwidth c) \<and> 0 \<le> y \<and> y < int (cheight c)
      then (if nat (y * int (cwidth c) + x) < length (pixels c)
            then Some (uint (pixels c ! nat (y * int (cwidth c) + x))) else None)
      else Some 0)"
proof -
  have eq: "(of_int y :: rat) * of_nat (cwidth c) + of_int x = of_int (y * int (cwidth c) + x)"
    by simp
  show ?thesis unfolding canvas_get_def in_canvas_int eq typed_read_int
    by (simp add: cell_index(1))
qed

lemma canvas_set_int:
  "canvas_set c (of_int x) (of_int y) col =
     (if 0 \<le> x \<and> x < int (cwidth c) \<and> 0 \<le> y \<and> y < int (cheight c)
      then c\<lparr>pixels := (pixels c)[nat (y * int (cwidth c) + x) := to_uint8 col]\<rparr> else c)"
  unfolding canvas_set_def in_canvas_int typed_write_def
  by (simp add: cell_index(1))

lemma to_uint8_byte: "0 \<le> col \<Longrightarrow> col \<le> 255 \<Longrightarrow> uint (to_uint8 (Num (of_int col))) = col"
  by (simp add: to_uint8_def uint_word_of_int take_bit_eq_mod)

lemma cell_index_inj:
  assumes "0 \<le> x" "x < int w" "0 \<le> y" "0 \<le> x'" "x' < int w" "0 \<le> y'"
    and eq: "y * int w + x = y' * int w + x'"
  shows "x = x' \<and> y = y'"
proof -
  have w: "int w \<noteq> 0" using assms by auto
  have "(x + y * int w) div int w = y" "(x' + y' * int w) div int w = y'"
    using assms w by (simp_all add: div_pos_pos_trivial)
  then have "y = y'" using eq by (simp add: add.commute)
  then show ?thesis using eq by simp
qed

lemma set_get_same:
  assumes "0 \<le> x" "x < int (cwidth c)" "0 \<le> y" "y < int (cheight c)" "canvas_ok c"
    "0 \<le> col" "col \<le> 255"
  shows "canvas_get (canvas_set c (of_int x) (of_int y) (Num (of_int col))) (of_int x) (of_int y) = Some col"
proof -
  have "nat (y * int (cwidth c) + x) < length (pixels c)"
    using cell_index(2)[OF assms(1-4)] assms(5) by (simp add: canvas_ok_def)
  then show ?thesis
    using assms cell_index(1)[OF assms(1-4)]
    by (simp add: canvas_get_int canvas_set_int to_uint8_byte)
qed

lemma set_get_other:
  assumes "0 \<le> x" "x < int (cwidth c)" "0 \<le> y" "y < int (cheight c)"
    "(x', y') \<noteq> (x, y)"
  shows "canvas_get (canvas_set c (of_int x) (of_int y) col) (of_int x') (of_int y') = canvas_get c (of_int x') (of_int y')"
proof (cases "0 \<le> x' \<and> x' < int (cwidth c) \<and> 0 \<le> y' \<and> y' < int (cheight c)")
  case True
  then have ne: "y' * int (cwidth c) + x' \<noteq> y * int (cwidth c) + x"
    using cell_index_inj[of x' "cwidth c" y' x y] assms by auto
  have "0 \<le> y' * int (cwidth c) + x'" "0 \<le> y * int (cwidth c) + x"
    using True assms by simp_all
  then have "nat (y' * int (cwidth c) + x') \<noteq> nat (y * int (cwidth c) + x)"
    using ne by linarith
  then show ?thesis
    using assms True
    by (simp add: canvas_get_int canvas_set_int)
next
  case False
  then show ?thesis by (auto simp add: canvas_get_int canvas_set_int)
qed

subsection \<open>Dominant colour\<close>

lemma count_filter_eq: "length (filter (\<lambda>other. other = c) cs) = count_list cs c"
  by (induction cs) auto

lemma dom_inv_step:
  assumes "dom_inv cs pre st" "c \<in> set cs"
  shows "dom_inv cs (pre @ [c]) (dominant_step cs c st)"
proof -
  obtain m col where st: "st = (m, col)" by (cases st)
  have pos: "0 < count_list cs c" using assms(2) count_list_0_iff[of cs c] by auto
  show ?thesis
    using assms(1) pos unfolding st dom_inv_def dominant_step_def count_filter_eq Let_def
    by (auto simp: not_less)
qed

lemma dom_inv_fold:
  "dom_inv cs pre st \<Longrightarrow> set xs \<subseteq> set cs \<Longrightarrow> dom_inv cs (pre @ xs) (fold (dominant_step cs) xs st)"
proof (induction xs arbitrary: pre st)
  case Nil
  then show ?case by simp
next
  case (Cons x xs)
  have "dom_inv cs ((pre @ [x]) @ xs) (fold (dominant_step cs) xs (dominant_step cs x st))"
    using Cons.prems by (intro Cons.IH dom_inv_step) auto
  then show ?case by simp
qed

lemma dominant_fold_max:
  assumes "cs \<noteq> []"
  shows "snd (fold (dominant_step cs) cs (0, 0)) =
         Max {c \<in> set cs. \<forall>c' \<in> set cs. count_list cs c' \<le> count_list cs c}"
proof -
  obtain m col where r: "fold (dominant_step cs) cs (0, 0) = (m, col)"
    by (cases "fold (dominant_step cs) cs (0, 0)")
  have "dom_inv cs ([] @ cs) (fold (dominant_step cs) cs (0, 0))"
    by (rule dom_inv_fold) (simp_all add: dom_inv_def)
  then have col: "col \<in> set cs" and m: "m = count_list cs col"
    and all: "\<forall>c \<in> set cs. count_list cs c < m \<or> (count_list cs c = m \<and> c \<le> col)"
    using assms unfolding r dom_inv_def by auto
  let ?S = "{c \<in> set cs. \<forall>c' \<in> set cs. count_list cs c' \<le> count_list cs c}"
  have "col \<in> ?S" using col m all by auto
  moreover have "\<forall>c \<in> ?S. c \<le> col"
  proof
    fix c assume c: "c \<in> ?S"
    then have "count_list cs col \<le> count_list cs c" using col by auto
    with all c m show "c \<le> col" by auto
  qed
  moreover have "finite ?S" by simp
  ultimately have "Max ?S = col" by (intro Max_eqI) auto
  then show ?thesis by (simp add: r)
qed

lemma map_filter_gt0:
  "\<forall>v \<in> set vs. 0 \<le> v \<Longrightarrow>
   List.map_filter (\<lambda>p. if js_gt0 p then p else None) (map Some vs) = filter (\<lambda>v. v \<noteq> 0) vs"
  by (induction vs) (auto simp: List.map_filter_simps js_gt0_def)

lemma dominant_color_spec:
  assumes "\<forall>v \<in> set vs. 0 \<le> v"
  shows "dominant_color (map Some vs) = spec_dominant vs"
  unfolding dominant_color_def spec_dominant_def map_filter_gt0[OF assms] Let_def
  using dominant_fold_max[of "filter (\<lambda>v. v \<noteq> 0) vs"] by auto

subsection \<open>Glyphs of a line\<close>

lemma closed_Nil: "closed []" by (simp add: closed_def)

lemma strip_inside: "109 \<notin> set body \<Longrightarrow> strip_escapes True (body @ 109 # rest) = strip_escapes False rest"
  by (induction body) auto

lemma strip_escape: "is_escape e \<Longrightarrow> strip_escapes False (e @ rest) = strip_escapes False rest"
  unfolding is_escape_def using strip_inside by auto

lemma closed_escape:
  assumes "closed a" "is_escape e"
  shows "closed (a @ e)" "strip_escapes False (a @ e) = strip_escapes False a"
proof -
  have e: "\<And>rest. strip_escapes False (a @ e @ rest) = strip_escapes False a @ strip_escapes False rest"
    using assms(1) strip_escape[OF assms(2)] by (simp add: closed_def)
  from e[of "[]"] show 2: "strip_escapes False (a @ e) = strip_escapes False a" by simp
  show "closed (a @ e)" unfolding closed_def using e 2 by simp
qed

lemma closed_glyph:
  assumes "closed a" "ch \<noteq> 27"
  shows "closed (a @ [ch])" "strip_escapes False (a @ [ch]) = strip_escapes False a @ [ch]"
proof -
  have e: "\<And>rest. strip_escapes False (a @ [ch] @ rest) = strip_escapes False a @ ch # strip_escapes False rest"
    using assms by (simp add: closed_def)
  from e[of "[]"] show 2: "strip_escapes False (a @ [ch]) = strip_escapes False a @ [ch]" by simp
  show "closed (a @ [ch])" unfolding closed_def using e 2 by simp
qed

lemma digits_no_m: "109 \<notin> set (digits n)"
proof (induction n rule: digits.induct)
  case (1 n)
  show ?case
  proof (cases "n < 10")
    case True
    then show ?thesis by (subst digits.simps) simp
  next
    case False
    have "48 + n mod 10 \<noteq> 109" by presburger
    with False 1 show ?thesis by (subst digits.simps) simp
  qed
qed

lemma int_to_string_no_m: "109 \<notin> set (int_to_string i)"
  by (simp add: int_to_string_def digits_no_m)

lemma is_escape_gradient: "is_escape (gradient_entry i)"
proof -
  obtain r g b where rgb: "gradient_rgb i = (r, g, b)" by (cases "gradient_rgb i")
  have "gradient_entry i = 27 # ([91, 51, 56, 59, 50, 59] @ int_to_string r @ [59] @ int_to_string g @ [59] @ int_to_string b) @ [109]"
    by (simp add: gradient_entry_def rgb)
  moreover have "109 \<notin> set ([91, 51, 56, 59, 50, 59] @ int_to_string r @ [59] @ int_to_string g @ [59] @ int_to_string b)"
    by (simp add: int_to_string_no_m)
  ultimately show ?thesis unfolding is_escape_def by blast
qed

lemma is_escape_color: "is_escape (color_escape color)"
proof -
  have "is_escape ESC_RESET" "is_escape ESC_GRAY"
    by (simp_all add: is_escape_def ESC_RESET_def ESC_GRAY_def)
  moreover have "color \<ge> GRADIENT_START_IDX \<Longrightarrow> color < GRADIENT_START_IDX + GRADIENT_STEPS \<Longrightarrow>
      is_escape (GRADIENT_ANSI ! nat (color - GRADIENT_START_IDX))"
    by (simp add: GRADIENT_ANSI_def GRADIENT_STEPS_def is_escape_gradient)
  moreover have "is_escape []" by (simp add: is_escape_def)
  ultimately show ?thesis by (simp add: color_escape_def)
qed

lemma block_index_range: "0 \<le> block_index p1 p2 p3 p4 \<and> block_index p1 p2 p3 p4 < 16"
  by (simp add: block_index_def)

lemma block_lookup_not_esc: "i < 16 \<Longrightarrow> BLOCK_LOOKUP ! i \<noteq> 27"
proof -
  have "list_all (\<lambda>c. c \<noteq> 27) BLOCK_LOOKUP" by (simp add: BLOCK_LOOKUP_def)
  moreover have "length BLOCK_LOOKUP = 16" by (simp add: BLOCK_LOOKUP_def)
  ultimately show "i < 16 \<Longrightarrow> BLOCK_LOOKUP ! i \<noteq> 27" by (simp add: list_all_length)
qed

lemma block_char_lookup:
  "block_char cv y x =
     BLOCK_LOOKUP ! nat (block_index (canvas_get cv (of_nat x) (of_int y)) (canvas_get cv (of_nat x + 1) (of_int y))
        (canvas_get cv (of_nat x) (of_int y + 1)) (canvas_get cv (of_nat x + 1) (of_int y + 1)))"
  by (simp add: block_char_def block_pixels_def)

lemma block_char_not_esc: "block_char cv y x \<noteq> 27"
proof -
  have "nat (block_index p1 p2 p3 p4) < 16" for p1 p2 p3 p4
    using block_index_range[of p1 p2 p3 p4] by linarith
  then show ?thesis unfolding block_char_lookup by (rule block_lookup_not_esc)
qed

lemma cell_glyphs:
  assumes "closed (fst st)"
  shows "closed (fst (toLines_cell cv y x st))"
    "glyphs (fst (toLines_cell cv y x st)) = glyphs (fst st) @ [block_char cv y x]"
proof -
  obtain line cur where st: "st = (line, cur)" by (cases st)
  let ?e = "color_escape (dominant_color (block_pixels cv y x))"
  have c1: "closed (line @ ?e)" and g1: "strip_escapes False (line @ ?e) = strip_escapes False line"
    using closed_escape[OF _ is_escape_color] assms st by simp_all
  have a: "closed ((line @ ?e) @ [block_char cv y x])"
     "strip_escapes False ((line @ ?e) @ [block_char cv y x]) = strip_escapes False line @ [block_char cv y x]"
    using closed_glyph[OF c1 block_char_not_esc] g1 by simp_all
  have b: "closed (line @ [block_char cv y x])"
     "strip_escapes False (line @ [block_char cv y x]) = strip_escapes False line @ [block_char cv y x]"
    using closed_glyph[OF _ block_char_not_esc] assms st by simp_all
  show "closed (fst (toLines_cell cv y x st))"
    using a b by (simp add: toLines_cell_def st Let_def)
  show "glyphs (fst (toLines_cell cv y x st)) = glyphs (fst st) @ [block_char cv y x]"
    using a b by (simp add: toLines_cell_def st Let_def glyphs_def)
qed

lemma upt_half_step:
  assumes "x < (w::nat)"
  shows "map (\<lambda>k. f (x + 2 * k)) [0 ..< (w + 1 - x) div 2] =
         f x # map (\<lambda>k. f (x + 2 + 2 * k)) [0 ..< (w + 1 - (x + 2)) div 2]"
proof -
  have m: "(w + 1 - x) div 2 = Suc ((w + 1 - (x + 2)) div 2)" using assms by presburger
  have e: "x + 2 * Suc k = x + 2 + 2 * k" for k by simp
  show ?thesis unfolding m map_upt_Suc e by simp
qed

lemma cols_glyphs:
  "closed (fst st) \<Longrightarrow>
   closed (fst (toLines_cols cv y x st)) \<and>
   glyphs (fst (toLines_cols cv y x st)) =
     glyphs (fst st) @ map (\<lambda>k. block_char cv y (x + 2 * k)) [0 ..< (cwidth cv + 1 - x) div 2]"
proof (induction cv y x st rule: toLines_cols.induct)
  case (1 cv y x st)
  show ?case
  proof (cases "x < cwidth cv")
    case True
    note IH = 1(1)[OF True cell_glyphs(1)[OF 1(2)]]
    show ?thesis
      using IH True cell_glyphs(2)[OF 1(2), of cv y x]
      unfolding toLines_cols.simps[of cv y x st] upt_half_step[OF True] by simp
  next
    case False
    then have "(cwidth cv + 1 - x) div 2 = 0" by simp
    with False 1(2) show ?thesis unfolding toLines_cols.simps[of cv y x st] by simp
  qed
qed

lemma row_glyphs:
  "glyphs (toLines_row cv y) = map (\<lambda>k. block_char cv y (2 * k)) [0 ..< (cwidth cv + 1) div 2]"
proof -
  obtain line cur where r: "toLines_cols cv y 0 ([], 0) = (line, cur)"
    by (cases "toLines_cols cv y 0 ([], 0)")
  have c: "closed line" and g: "glyphs line = map (\<lambda>k. block_char cv y (2 * k)) [0 ..< (cwidth cv + 1) div 2]"
    using cols_glyphs[of "([], 0)" cv y 0] closed_Nil by (simp_all add: r glyphs_def)
  have "is_escape ESC_RESET" by (simp add: is_escape_def ESC_RESET_def)
  then have "glyphs (line @ ESC_RESET) = glyphs line"
    using closed_escape(2)[OF c] by (simp add: glyphs_def)
  then show ?thesis using g by (simp add: toLines_row_def r)
qed

lemma rows_count_step:
  assumes "of_int y < (e::rat)"
  shows "nat \<lceil>(e - of_int y) / 2\<rceil> = Suc (nat \<lceil>(e - of_int (y + 2)) / 2\<rceil>)"
proof -
  have "(e - of_int y) / 2 = (e - of_int (y + 2)) / 2 + 1" by (simp add: field_simps)
  then have "\<lceil>(e - of_int y) / 2\<rceil> = \<lceil>(e - of_int (y + 2)) / 2\<rceil> + 1" by (simp only: ceiling_add_one)
  moreover have "0 < \<lceil>(e - of_int y) / 2\<rceil>" using assms by simp
  ultimately show ?thesis by linarith
qed

lemma rows_map:
  "toLines_rows cv y e = map (\<lambda>k. toLines_row cv (y + 2 * int k)) [0 ..< nat \<lceil>(e - of_int y) / 2\<rceil>]"
proof (induction cv y e rule: toLines_rows.induct)
  case (1 cv y e)
  show ?case
  proof (cases "of_int y < e")
    case True
    have "toLines_rows cv y e = toLines_row cv y # toLines_rows cv (y + 2) e"
      using True by (subst toLines_rows.simps) simp
    also have "\<dots> = toLines_row cv y # map (\<lambda>k. toLines_row cv (y + 2 + 2 * int k)) [0 ..< nat \<lceil>(e - of_int (y + 2)) / 2\<rceil>]"
      using 1[OF True] by simp
    also have "\<dots> = map (\<lambda>k. toLines_row cv (y + 2 * int k)) [0 ..< Suc (nat \<lceil>(e - of_int (y + 2)) / 2\<rceil>)]"
      unfolding map_upt_Suc by (simp add: algebra_simps)
    finally show ?thesis using rows_count_step[OF True] by simp
  next
    case False
    then have "\<lceil>(e - of_int y) / 2\<rceil> \<le> 0" by (simp add: ceiling_le_iff)
    with False show ?thesis by (subst toLines_rows.simps) simp
  qed
qed

lemma block_index_pattern: "nat (block_index p1 p2 p3 p4) = pattern_index [p1, p2, p3, p4]"
  by (simp add: block_index_def pattern_index_def on_bit_def)

lemma block_char_pattern: "block_char cv y x = BLOCK_LOOKUP ! pattern_index (block_pixels cv y x)"
  unfolding block_char_lookup block_index_pattern by (simp add: block_pixels_def)

lemma toLines_rows_eq:
  "toLines cv minY maxY =
     map (\<lambda>k. toLines_row cv (max 0 \<lfloor>minY\<rfloor> + 2 * int k))
       [0 ..< nat \<lceil>(min (of_nat (cheight cv)) maxY - of_int (max 0 \<lfloor>minY\<rfloor>)) / 2\<rceil>]"
  unfolding toLines_def Let_def by (rule rows_map)

lemma half_ceiling: "int ((w + 1) div 2) = \<lceil>(of_nat w :: rat) / 2\<rceil>"
proof -
  have "\<lceil>(of_nat w :: rat) / 2\<rceil> = \<lceil>of_int (int w) / (of_int 2 :: rat)\<rceil>" by simp
  also have "\<dots> = - ((- int w) div 2)" by (simp only: ceiling_divide_eq_div)
  also have "\<dots> = (int w + 1) div 2" by presburger
  also have "\<dots> = int ((w + 1) div 2)" by (simp add: zdiv_int)
  finally show ?thesis by simp
qed

subsection \<open>Rounding to doubles\<close>

text \<open>Integers below \<open>2\<^sup>5\<^sup>3\<close> are doubles; the remaining facts are values of the rounding at
  the numbers of the examples.\<close>

lemma round_even_int: "round_even (of_int k) = k"
  by (simp add: round_even_def)

lemma fl_int:
  assumes "\<bar>n\<bar> < 2 ^ 53"
  shows "fl (of_int n) = of_int n"
proof (cases "n = 0")
  case True then show ?thesis by (simp add: fl_def)
next
  case False
  define m where "m = \<bar>n\<bar>"
  have m: "0 < m" "m < 2 ^ 53" using False assms by (simp_all add: m_def)
  have a: "\<bar>of_int n :: rat\<bar> = of_int m" by (simp add: m_def)
  have "(1::rat) \<le> of_int m" using m(1) by simp
  then have ex: "expo (of_int n) = bitlen m - 1" unfolding expo_def a Let_def by simp
  have bl: "1 \<le> bitlen m" "bitlen m \<le> 53"
  proof -
    show "1 \<le> bitlen m" using m(1) bitlen_eq_zero_iff[of m] bitlen_nonneg[of m] by linarith
    have "2 ^ nat (bitlen m - 1) \<le> m" using bitlen_bounds[OF m(1)] by blast
    with m(2) have "(2::int) ^ nat (bitlen m - 1) < 2 ^ 53" by linarith
    then have "nat (bitlen m - 1) < 53" by (simp only: power_strict_increasing_iff one_less_numeral_iff semiring_norm)
    then show "bitlen m \<le> 53" by linarith
  qed
  define e where "e = bitlen m - 1"
  have e: "0 \<le> e" "e \<le> 52" using bl by (simp_all add: e_def)
  have mx: "max (expo (of_int n)) (- 1022) = e" using ex e by (simp add: e_def)
  obtain j :: nat where j: "52 - e = int j" using e nonneg_int_cases[of "52 - e"] by auto
  have ulp: "(2::rat) powi (e - 52) = 1 / 2 ^ j"
  proof -
    have eq: "e - 52 = - int j" using j by linarith
    show ?thesis unfolding eq by (simp add: power_int_minus field_simps)
  qed
  have q: "(of_int n :: rat) / (1 / 2 ^ j) = of_int (n * 2 ^ j)" by simp
  have "fl (of_int n) = of_int (round_even (of_int n / (1 / 2 ^ j))) * (1 / 2 ^ j)"
    using False unfolding fl_def Let_def mx ulp by simp
  also have "\<dots> = of_int (n * 2 ^ j) * (1 / 2 ^ j)" unfolding q round_even_int ..
  also have "\<dots> = of_int n" by simp
  finally show ?thesis .
qed

lemma small_intE:
  assumes "small_int q"
  obtains n :: int where "q = of_int n" "\<bar>n\<bar> \<le> 2 ^ 50"
proof -
  from assms have i: "of_int \<lfloor>q\<rfloor> = q" and b: "\<bar>q\<bar> \<le> 2 ^ 50"
    unfolding small_int_def is_integer_def by blast+
  have "\<bar>(of_int \<lfloor>q\<rfloor> :: rat)\<bar> \<le> of_int (2 ^ 50)" using b unfolding i by simp
  then have "\<bar>\<lfloor>q\<rfloor>\<bar> \<le> 2 ^ 50" by (simp only: of_int_abs[symmetric] of_int_le_iff)
  with i[symmetric] show ?thesis by (rule that)
qed

lemma fl_small: "small_int q \<Longrightarrow> fl q = q"
proof -
  assume "small_int q"
  then obtain n :: int where n: "q = of_int n" "\<bar>n\<bar> \<le> 2 ^ 50" by (rule small_intE)
  have "\<bar>n\<bar> < 2 ^ 53" using n(2) by simp
  then show ?thesis unfolding n(1) by (rule fl_int)
qed

lemma fl_0: "fl 0 = 0" by (simp add: fl_def)

lemma bitlen_numeral_eval:
  "bitlen 0 = 0" "bitlen 1 = 1"
  "bitlen (numeral (Num.Bit0 n)) = bitlen (numeral n) + 1"
  "bitlen (numeral (Num.Bit1 n)) = bitlen (numeral n) + 1"
proof -
  show "bitlen 0 = 0" by simp
  show "bitlen 1 = 1" by (simp add: compute_bitlen[of 1])
  show "bitlen (numeral (Num.Bit0 n)) = bitlen (numeral n) + 1"
    by (subst compute_bitlen) simp
  show "bitlen (numeral (Num.Bit1 n)) = bitlen (numeral n) + 1"
    by (subst compute_bitlen) simp
qed

lemma fl_3_2: "fl (3 / 2) = 3 / 2"
proof -
  have c: "\<lfloor>\<bar>(3 / 2) :: rat\<bar>\<rfloor> = 1" by (simp add: floor_eq_iff)
  have e: "expo (3 / 2) = 0" unfolding expo_def Let_def using c by (simp add: bitlen_numeral_eval)
  have f: "\<lfloor>(3 / 2) / (2::rat) powi (0 - 52)\<rfloor> = 6755399441055744" by (simp add: power_int_minus floor_eq_iff)
  show ?thesis unfolding fl_def Let_def e round_even_def using f by (simp add: power_int_minus)
qed

lemma fl_1_2: "fl (1 / 2) = 1 / 2"
proof -
  have c: "\<lceil>1 / \<bar>(1 / 2) :: rat\<bar>\<rceil> = 2" by (simp add: ceiling_eq_iff)
  have e: "expo (1 / 2) = - 1" unfolding expo_def Let_def using c by (simp add: bitlen_numeral_eval)
  have f: "\<lfloor>(1 / 2) / (2::rat) powi (- 1 - 52)\<rfloor> = 4503599627370496" by (simp add: power_int_minus floor_eq_iff)
  show ?thesis unfolding fl_def Let_def e round_even_def using f by (simp add: power_int_minus)
qed

lemma fl_3_10: "fl (3 / 10) = 5404319552844595 / 18014398509481984"
proof -
  have c: "\<lceil>1 / \<bar>(3 / 10) :: rat\<bar>\<rceil> = 4" by (simp add: ceiling_eq_iff)
  have e: "expo (3 / 10) = - 2" unfolding expo_def Let_def using c by (simp add: bitlen_numeral_eval)
  have f: "\<lfloor>(3 / 10) / (2::rat) powi (- 2 - 52)\<rfloor> = 5404319552844595" by (simp add: power_int_minus floor_eq_iff)
  show ?thesis unfolding fl_def Let_def e round_even_def using f by (simp add: power_int_minus)
qed

lemma fl_7_10: "fl (7 / 10) = 3152519739159347 / 4503599627370496"
proof -
  have c: "\<lceil>1 / \<bar>(7 / 10) :: rat\<bar>\<rceil> = 2" by (simp add: ceiling_eq_iff)
  have e: "expo (7 / 10) = - 1" unfolding expo_def Let_def using c by (simp add: bitlen_numeral_eval)
  have f: "\<lfloor>(7 / 10) / (2::rat) powi (- 1 - 52)\<rfloor> = 6305039478318694" by (simp add: power_int_minus floor_eq_iff)
  show ?thesis unfolding fl_def Let_def e round_even_def using f by (simp add: power_int_minus)
qed

lemma fl_180_3_10: "fl (180 * (5404319552844595 / 18014398509481984)) = 54"
proof -
  have c: "\<lfloor>\<bar>(180 * (5404319552844595 / 18014398509481984)) :: rat\<bar>\<rfloor> = 53" by (simp add: floor_eq_iff)
  have e: "expo (180 * (5404319552844595 / 18014398509481984)) = 5" unfolding expo_def Let_def using c by (simp add: bitlen_numeral_eval)
  have f: "\<lfloor>(180 * (5404319552844595 / 18014398509481984)) / (2::rat) powi (5 - 52)\<rfloor> = 7599824371187711" by (simp add: power_int_minus floor_eq_iff)
  show ?thesis unfolding fl_def Let_def e round_even_def using f by (simp add: power_int_minus)
qed

lemma fl_180_7_10: "fl (180 * (3152519739159347 / 4503599627370496)) = 8866461766385663 / 70368744177664"
proof -
  have c: "\<lfloor>\<bar>(180 * (3152519739159347 / 4503599627370496)) :: rat\<bar>\<rfloor> = 125" by (simp add: floor_eq_iff)
  have e: "expo (180 * (3152519739159347 / 4503599627370496)) = 6" unfolding expo_def Let_def using c by (simp add: bitlen_numeral_eval)
  have f: "\<lfloor>(180 * (3152519739159347 / 4503599627370496)) / (2::rat) powi (6 - 52)\<rfloor> = 8866461766385663" by (simp add: power_int_minus floor_eq_iff)
  show ?thesis unfolding fl_def Let_def e round_even_def using f by (simp add: power_int_minus)
qed

lemma fl_180_3_10_half: "fl ((54) / 2) = 27"
proof -
  have c: "\<lfloor>\<bar>((54) / 2) :: rat\<bar>\<rfloor> = 27" by (simp add: floor_eq_iff)
  have e: "expo ((54) / 2) = 4" unfolding expo_def Let_def using c by (simp add: bitlen_numeral_eval)
  have f: "\<lfloor>((54) / 2) / (2::rat) powi (4 - 52)\<rfloor> = 7599824371187712" by (simp add: power_int_minus floor_eq_iff)
  show ?thesis unfolding fl_def Let_def e round_even_def using f by (simp add: power_int_minus)
qed

lemma fl_180_7_10_half: "fl ((8866461766385663 / 70368744177664) / 2) = 8866461766385663 / 140737488355328"
proof -
  have c: "\<lfloor>\<bar>((8866461766385663 / 70368744177664) / 2) :: rat\<bar>\<rfloor> = 62" by (simp add: floor_eq_iff)
  have e: "expo ((8866461766385663 / 70368744177664) / 2) = 5" unfolding expo_def Let_def using c by (simp add: bitlen_numeral_eval)
  have f: "\<lfloor>((8866461766385663 / 70368744177664) / 2) / (2::rat) powi (5 - 52)\<rfloor> = 8866461766385663" by (simp add: power_int_minus floor_eq_iff)
  show ?thesis unfolding fl_def Let_def e round_even_def using f by (simp add: power_int_minus)
qed

lemma fl_2_5: "fl (2 / 5) = 3602879701896397 / 9007199254740992"
proof -
  have c: "\<lceil>1 / \<bar>(2 / 5) :: rat\<bar>\<rceil> = 3" by (simp add: ceiling_eq_iff)
  have e: "expo (2 / 5) = - 2" unfolding expo_def Let_def using c by (simp add: bitlen_numeral_eval)
  have f: "\<lfloor>(2 / 5) / (2::rat) powi (- 2 - 52)\<rfloor> = 7205759403792793" by (simp add: power_int_minus floor_eq_iff)
  show ?thesis unfolding fl_def Let_def e round_even_def using f by (simp add: power_int_minus)
qed

lemma fl_d04: "fl (3602879701896397 / 9007199254740992) = 3602879701896397 / 9007199254740992"
proof -
  have c: "\<lceil>1 / \<bar>(3602879701896397 / 9007199254740992) :: rat\<bar>\<rceil> = 3" by (simp add: ceiling_eq_iff)
  have e: "expo (3602879701896397 / 9007199254740992) = - 2" unfolding expo_def Let_def using c by (simp add: bitlen_numeral_eval)
  have f: "\<lfloor>(3602879701896397 / 9007199254740992) / (2::rat) powi (- 2 - 52)\<rfloor> = 7205759403792794" by (simp add: power_int_minus floor_eq_iff)
  show ?thesis unfolding fl_def Let_def e round_even_def using f by (simp add: power_int_minus)
qed

lemma fl_d04_2: "fl (21617278211378381 / 9007199254740992) = 5404319552844595 / 2251799813685248"
proof -
  have c: "\<lfloor>\<bar>(21617278211378381 / 9007199254740992) :: rat\<bar>\<rfloor> = 2" by (simp add: floor_eq_iff)
  have e: "expo (21617278211378381 / 9007199254740992) = 1" unfolding expo_def Let_def using c by (simp add: bitlen_numeral_eval)
  have f: "\<lfloor>(21617278211378381 / 9007199254740992) / (2::rat) powi (1 - 52)\<rfloor> = 5404319552844595" by (simp add: power_int_minus floor_eq_iff)
  show ?thesis unfolding fl_def Let_def e round_even_def using f by (simp add: power_int_minus)
qed

lemma fl_d04_1: "fl (12610078956637389 / 9007199254740992) = 3152519739159347 / 2251799813685248"
proof -
  have c: "\<lfloor>\<bar>(12610078956637389 / 9007199254740992) :: rat\<bar>\<rfloor> = 1" by (simp add: floor_eq_iff)
  have e: "expo (12610078956637389 / 9007199254740992) = 0" unfolding expo_def Let_def using c by (simp add: bitlen_numeral_eval)
  have f: "\<lfloor>(12610078956637389 / 9007199254740992) / (2::rat) powi (0 - 52)\<rfloor> = 6305039478318694" by (simp add: power_int_minus floor_eq_iff)
  show ?thesis unfolding fl_def Let_def e round_even_def using f by (simp add: power_int_minus)
qed

lemma fl_d14: "fl (3152519739159347 / 2251799813685248) = 3152519739159347 / 2251799813685248"
proof -
  have c: "\<lfloor>\<bar>(3152519739159347 / 2251799813685248) :: rat\<bar>\<rfloor> = 1" by (simp add: floor_eq_iff)
  have e: "expo (3152519739159347 / 2251799813685248) = 0" unfolding expo_def Let_def using c by (simp add: bitlen_numeral_eval)
  have f: "\<lfloor>(3152519739159347 / 2251799813685248) / (2::rat) powi (0 - 52)\<rfloor> = 6305039478318694" by (simp add: power_int_minus floor_eq_iff)
  show ?thesis unfolding fl_def Let_def e round_even_def using f by (simp add: power_int_minus)
qed

lemma fl_d14_d04: "fl (9007199254740991 / 9007199254740992) = 9007199254740991 / 9007199254740992"
proof -
  have c: "\<lceil>1 / \<bar>(9007199254740991 / 9007199254740992) :: rat\<bar>\<rceil> = 2" by (simp add: ceiling_eq_iff)
  have e: "expo (9007199254740991 / 9007199254740992) = - 1" unfolding expo_def Let_def using c by (simp add: bitlen_numeral_eval)
  have f: "\<lfloor>(9007199254740991 / 9007199254740992) / (2::rat) powi (- 1 - 52)\<rfloor> = 9007199254740991" by (simp add: power_int_minus floor_eq_iff)
  show ?thesis unfolding fl_def Let_def e round_even_def using f by (simp add: power_int_minus)
qed

lemma fl_d14_1: "fl (5404319552844595 / 2251799813685248) = 5404319552844595 / 2251799813685248"
proof -
  have c: "\<lfloor>\<bar>(5404319552844595 / 2251799813685248) :: rat\<bar>\<rfloor> = 2" by (simp add: floor_eq_iff)
  have e: "expo (5404319552844595 / 2251799813685248) = 1" unfolding expo_def Let_def using c by (simp add: bitlen_numeral_eval)
  have f: "\<lfloor>(5404319552844595 / 2251799813685248) / (2::rat) powi (1 - 52)\<rfloor> = 5404319552844595" by (simp add: power_int_minus floor_eq_iff)
  show ?thesis unfolding fl_def Let_def e round_even_def using f by (simp add: power_int_minus)
qed

lemma fl_90_7_10: "fl (90 * (3152519739159347 / 4503599627370496)) = 8866461766385663 / 140737488355328"
proof -
  have c: "\<lfloor>\<bar>(90 * (3152519739159347 / 4503599627370496)) :: rat\<bar>\<rfloor> = 62" by (simp add: floor_eq_iff)
  have e: "expo (90 * (3152519739159347 / 4503599627370496)) = 5" unfolding expo_def Let_def using c by (simp add: bitlen_numeral_eval)
  have f: "\<lfloor>(90 * (3152519739159347 / 4503599627370496)) / (2::rat) powi (5 - 52)\<rfloor> = 8866461766385663" by (simp add: power_int_minus floor_eq_iff)
  show ?thesis unfolding fl_def Let_def e round_even_def using f by (simp add: power_int_minus)
qed

lemma clouds_92_columns:
  "\<lfloor>fl (fl (180 * fl (3 / 10)) / 2)\<rfloor> * 2 = 54" "\<lfloor>fl (fl (180 * fl (7 / 10)) / 2)\<rfloor> * 2 = 124"
  unfolding fl_3_10 fl_7_10 fl_180_3_10 fl_180_7_10 fl_180_3_10_half fl_180_7_10_half
  by (simp_all add: floor_eq_iff)

text \<open>At 90 rows the viewport is 62 cells high: \<^verbatim>\<open>90 * 0.7\<close> is \<open>62.99999999999999\<close>.\<close>

lemma viewport_90_rows: "\<lfloor>fl (90 * fl (7 / 10))\<rfloor> = 62"
  unfolding fl_7_10 fl_90_7_10 by (simp add: floor_eq_iff)

subsection \<open>Collision scan and sprite pixels\<close>

lemma js_shl2_small: "0 \<le> n \<Longrightarrow> n * 4 < 2 ^ 31 \<Longrightarrow> js_shl2 n = n * 4"
  unfolding js_shl2_def by (rule signed_take_bit_int_eq_self) simp_all

lemma byte_index:
  fixes n :: int
  assumes "0 \<le> n" "n * 4 + 3 < int L"
  shows "nat (4 * n) < L" "nat (4 * n + 3) < L"
  using assms by linarith+

lemma byte_index_mod:
  fixes n :: int
  assumes "0 \<le> n"
  shows "nat (4 * n) mod 4 = 0" "nat (4 * n + 3) mod 4 = 3"
proof -
  have a: "nat (4 * n) = 4 * nat n" using assms by linarith
  have b: "nat (4 * n + 3) = 4 * nat n + 3" using assms by linarith
  show "nat (4 * n) mod 4 = 0" unfolding a by simp
  show "nat (4 * n + 3) mod 4 = 3" unfolding b by simp
qed

lemma isPixelCollidable_spec:
  assumes "sprite_ok s"
  shows "isPixelCollidable s x y = spec_collidable s x y"
proof (cases "0 \<le> x \<and> x < of_nat (swidth s) \<and> 0 \<le> y \<and> y < of_nat (sheight s)")
  case False
  then show ?thesis by (auto simp: isPixelCollidable_def spec_collidable_def not_less not_le)
next
  case True
  let ?px = "\<lfloor>x\<rfloor>" and ?py = "\<lfloor>y\<rfloor>"
  have b: "0 \<le> ?px" "?px < int (swidth s)" "0 \<le> ?py" "?py < int (sheight s)"
    using True by (simp_all add: floor_less_iff)
  let ?n = "int (swidth s) * ?py + ?px"
  have n: "0 \<le> ?n" "nat ?n < swidth s * sheight s"
    using cell_index[OF b] by (simp_all add: mult.commute)
  have len: "length (sdata s) = swidth s * sheight s * 4" "length (sdata s) < 2 ^ 31"
    using assms unfolding sprite_ok_def by blast+
  have "nat ?n * 4 + 3 < length (sdata s)" using n(2) unfolding len(1) by simp
  then have "int (nat ?n * 4 + 3) < int (length (sdata s))" by (simp only: of_nat_less_iff)
  then have lt: "?n * 4 + 3 < int (length (sdata s))" using n(1) by simp
  have "int (length (sdata s)) < 2 ^ 31" using len(2) by (metis of_nat_less_numeral_power_cancel_iff)
  with lt have small: "?n * 4 < 2 ^ 31" by linarith
  have idx: "js_shl2 ?n = 4 * ?n" using js_shl2_small[OF n(1) small] by simp
  note r0 = byte_index[OF n(1) lt]
  have "isPixelCollidable s x y \<longleftrightarrow>
        js_gt (typed_read (sdata s) (of_int (4 * ?n + 3))) 128 \<and> js_lt (typed_read (sdata s) (of_int (4 * ?n))) 128"
    using True unfolding isPixelCollidable_def Let_def idx by (simp add: not_less not_le)
  also have "\<dots> \<longleftrightarrow> alpha_at s ?px ?py > 128 \<and> red_at s ?px ?py < 128"
    unfolding typed_read_int using r0 n(1) by (simp add: js_gt_def js_lt_def alpha_at_def red_at_def)
  finally show ?thesis using True by (simp add: spec_collidable_def)
qed

lemma uniform_sprite_ok: "w * h * 4 < 2 ^ 31 \<Longrightarrow> sprite_ok (uniform_sprite w h shade)"
  by (simp add: sprite_ok_def uniform_sprite_def)

lemma uniform_channels:
  assumes "0 \<le> px" "px < int w" "0 \<le> py" "py < int h"
  shows "red_at (uniform_sprite w h shade) px py = uint shade"
    "alpha_at (uniform_sprite w h shade) px py = 255"
proof -
  let ?n = "int w * py + px"
  have n: "0 \<le> ?n" "nat ?n < w * h" using cell_index[OF assms] by (simp_all add: mult.commute)
  have "nat ?n * 4 + 3 < w * h * 4" using n(2) by simp
  then have "int (nat ?n * 4 + 3) < int (w * h * 4)" by (simp only: of_nat_less_iff)
  then have lt: "?n * 4 + 3 < int (w * h * 4)" using n(1) by simp
  note r = byte_index[OF n(1) lt]
  note m0 = byte_index_mod(1)[OF n(1)] and m3 = byte_index_mod(2)[OF n(1)]
  show "red_at (uniform_sprite w h shade) px py = uint shade"
    unfolding red_at_def uniform_sprite_def using r(1) m0 by simp
  show "alpha_at (uniform_sprite w h shade) px py = 255"
    unfolding alpha_at_def uniform_sprite_def using r(2) m3 by simp
qed

lemma uniform_collidable:
  "spec_collidable (uniform_sprite w h shade) x y \<longleftrightarrow>
     0 \<le> x \<and> x < of_nat w \<and> 0 \<le> y \<and> y < of_nat h \<and> uint shade < 128"
proof (cases "0 \<le> x \<and> x < of_nat w \<and> 0 \<le> y \<and> y < of_nat h")
  case False
  then show ?thesis by (auto simp: spec_collidable_def uniform_sprite_def)
next
  case True
  then have b: "0 \<le> \<lfloor>x\<rfloor>" "\<lfloor>x\<rfloor> < int w" "0 \<le> \<lfloor>y\<rfloor>" "\<lfloor>y\<rfloor> < int h"
    by (simp_all add: floor_less_iff)
  have d: "swidth (uniform_sprite w h shade) = w" "sheight (uniform_sprite w h shade) = h"
    by (simp_all add: uniform_sprite_def)
  show ?thesis unfolding spec_collidable_def uniform_channels[OF b] d using True by simp
qed

lemma dark_collidable:
  "spec_collidable (dark_sprite w h) x y \<longleftrightarrow> 0 \<le> x \<and> x < of_nat w \<and> 0 \<le> y \<and> y < of_nat h"
  by (simp add: dark_sprite_def uniform_collidable)

lemma light_not_collidable: "\<not> spec_collidable (light_sprite w h) x y"
  by (simp add: light_sprite_def uniform_collidable)

lemma dark_ok: "w * h * 4 < 2 ^ 31 \<Longrightarrow> sprite_ok (dark_sprite w h)"
  by (simp add: dark_sprite_def uniform_sprite_ok)

lemma light_ok: "w * h * 4 < 2 ^ 31 \<Longrightarrow> sprite_ok (light_sprite w h)"
  by (simp add: light_sprite_def uniform_sprite_ok)

lemma scan_loop_int:
  assumes body: "\<And>k. a \<le> k \<Longrightarrow> k < b \<Longrightarrow> body (of_int k) = Some (P k)"
    and b: "b \<le> 2 ^ 52" and a: "- (2 ^ 52) \<le> a"
  shows "scan_loop body (of_int b) (of_int a) = Some (\<exists>k \<in> {a ..< b}. P k)"
  using body a
proof (induction "nat (b - a)" arbitrary: a)
  case 0
  then have "\<not> a < b" by simp
  then show ?case unfolding scan_loop.simps[of body "of_int b" "of_int a"] by simp
next
  case (Suc n)
  then have lt: "a < b" by linarith
  have ba: "body (of_int a) = Some (P a)" using Suc.prems(1)[of a] lt by simp
  have "\<bar>a + 1\<bar> < 2 ^ 53" using lt b Suc.prems(2) by simp
  then have "fl (of_int (a + 1)) = of_int (a + 1)" by (rule fl_int)
  then have f: "fl (of_int a + 1) = of_int (a + 1)" by simp
  show ?case
  proof (cases "P a")
    case True
    then have "\<exists>k \<in> {a ..< b}. P k" using lt by auto
    then show ?thesis unfolding scan_loop.simps[of body "of_int b" "of_int a"] ba using lt True by simp
  next
    case False
    have n: "n = nat (b - (a + 1))" using Suc.hyps(2) by linarith
    have ih: "scan_loop body (of_int b) (of_int (a + 1)) = Some (\<exists>k \<in> {a + 1 ..< b}. P k)"
      using Suc.hyps(1)[OF n] Suc.prems by simp
    have "(\<exists>k \<in> {a ..< b}. P k) \<longleftrightarrow> (\<exists>k \<in> {a + 1 ..< b}. P k)"
    proof
      assume "\<exists>k \<in> {a ..< b}. P k"
      then obtain k where k: "a \<le> k" "k < b" "P k" by auto
      with False have "k \<noteq> a" by blast
      with k show "\<exists>k \<in> {a + 1 ..< b}. P k" by auto
    next
      assume "\<exists>k \<in> {a + 1 ..< b}. P k"
      then show "\<exists>k \<in> {a ..< b}. P k" by auto
    qed
    then show ?thesis
      unfolding scan_loop.simps[of body "of_int b" "of_int a"] ba f ih using lt False by simp
  qed
qed

lemma scan_rows_int:
  assumes r: "r \<le> 2 ^ 52" and l: "- (2 ^ 52) \<le> l" and b: "b \<le> 2 ^ 52" and t: "- (2 ^ 52) \<le> t"
  shows "scan_rows hit (of_int l) (of_int r) (of_int b) (of_int t)
         = Some (\<exists>Y \<in> {t ..< b}. \<exists>X \<in> {l ..< r}. hit (of_int X) (of_int Y))"
proof -
  have row: "scan_row hit (of_int r) y (of_int l) = Some (\<exists>X \<in> {l ..< r}. hit (of_int X) y)" for y
    unfolding scan_row_def by (rule scan_loop_int[OF _ r l]) simp
  show ?thesis unfolding scan_rows_def
    by (rule scan_loop_int[OF _ b t]) (rule row)
qed

lemma local_coordinate:
  assumes "\<bar>s\<bar> \<le> 2 ^ 50" "\<bar>c\<bar> \<le> 2 ^ 50" "\<bar>v\<bar> \<le> 2 ^ 52"
  shows "fl (of_int s + fl (of_int v - of_int c)) = of_int s + (of_int v - of_int c)"
proof -
  have "\<bar>v - c\<bar> < 2 ^ 53" using assms by simp
  then have a: "fl (of_int (v - c)) = of_int (v - c)" by (rule fl_int)
  have "\<bar>s + (v - c)\<bar> < 2 ^ 53" using assms by simp
  then have b: "fl (of_int (s + (v - c))) = of_int (s + (v - c))" by (rule fl_int)
  show ?thesis using a b by simp
qed

lemma box_edge:
  assumes "\<bar>x\<bar> \<le> 2 ^ 50" "\<bar>w\<bar> \<le> 2 ^ 50"
  shows "fl (of_int x + of_int w) = of_int (x + w)"
proof -
  have "\<bar>x + w\<bar> < 2 ^ 53" using assms by simp
  then have "fl (of_int (x + w)) = of_int (x + w)" by (rule fl_int)
  then show ?thesis by simp
qed

lemma checkCollision_body_int:
  assumes ok: "sprite_ok s1" "sprite_ok s2"
    and bd: "\<bar>x1\<bar> \<le> 2 ^ 50" "\<bar>y1\<bar> \<le> 2 ^ 50" "\<bar>w1\<bar> \<le> 2 ^ 50" "\<bar>h1\<bar> \<le> 2 ^ 50"
      "\<bar>sx1\<bar> \<le> 2 ^ 50" "\<bar>sy1\<bar> \<le> 2 ^ 50"
      "\<bar>x2\<bar> \<le> 2 ^ 50" "\<bar>y2\<bar> \<le> 2 ^ 50" "\<bar>w2\<bar> \<le> 2 ^ 50" "\<bar>h2\<bar> \<le> 2 ^ 50"
      "\<bar>sx2\<bar> \<le> 2 ^ 50" "\<bar>sy2\<bar> \<le> 2 ^ 50"
  shows "checkCollision_body s1 (of_int x1) (of_int y1) (of_int w1) (of_int h1) (of_int sx1) (of_int sy1)
           s2 (of_int x2) (of_int y2) (of_int w2) (of_int h2) (of_int sx2) (of_int sy2)
         = Some (spec_collision s1 (of_int x1) (of_int y1) (of_int w1) (of_int h1) (of_int sx1) (of_int sy1)
           s2 (of_int x2) (of_int y2) (of_int w2) (of_int h2) (of_int sx2) (of_int sy2))"
proof -
  define l where "l = max x1 x2"
  define r where "r = min (x1 + w1) (x2 + w2)"
  define t where "t = max y1 y2"
  define b where "b = min (y1 + h1) (y2 + h2)"
  let ?hit = "both_collidable s1 (of_int x1) (of_int y1) (of_int sx1) (of_int sy1)
                s2 (of_int x2) (of_int y2) (of_int sx2) (of_int sy2)"
  let ?Q = "\<lambda>X Y. spec_collidable s1 (of_int sx1 + (of_int X - of_int x1)) (of_int sy1 + (of_int Y - of_int y1))
                 \<and> spec_collidable s2 (of_int sx2 + (of_int X - of_int x2)) (of_int sy2 + (of_int Y - of_int y2))"
  have L: "max (of_int x1) (of_int x2) = (of_int l :: rat)" unfolding l_def by simp
  have T: "max (of_int y1) (of_int y2) = (of_int t :: rat)" unfolding t_def by simp
  have R: "min (fl (of_int x1 + of_int w1)) (fl (of_int x2 + of_int w2)) = (of_int r :: rat)"
    unfolding box_edge[OF bd(1) bd(3)] box_edge[OF bd(7) bd(9)] r_def by simp
  have B: "min (fl (of_int y1 + of_int h1)) (fl (of_int y2 + of_int h2)) = (of_int b :: rat)"
    unfolding box_edge[OF bd(2) bd(4)] box_edge[OF bd(8) bd(10)] b_def by simp
  have R': "min (of_int x1 + of_int w1) (of_int x2 + of_int w2) = (of_int r :: rat)"
    unfolding r_def by simp
  have B': "min (of_int y1 + of_int h1) (of_int y2 + of_int h2) = (of_int b :: rat)"
    unfolding b_def by simp
  have lims: "r \<le> 2 ^ 52" "- (2 ^ 52) \<le> l" "b \<le> 2 ^ 52" "- (2 ^ 52) \<le> t"
  proof -
    have "r \<le> x1 + w1" unfolding r_def by simp
    with bd(1) bd(3) show "r \<le> 2 ^ 52" by simp
    have "x1 \<le> l" unfolding l_def by simp
    with bd(1) show "- (2 ^ 52) \<le> l" by simp
    have "b \<le> y1 + h1" unfolding b_def by simp
    with bd(2) bd(4) show "b \<le> 2 ^ 52" by simp
    have "y1 \<le> t" unfolding t_def by simp
    with bd(2) show "- (2 ^ 52) \<le> t" by simp
  qed
  have hit: "?hit (of_int X) (of_int Y) = ?Q X Y" if "\<bar>X\<bar> \<le> 2 ^ 52" "\<bar>Y\<bar> \<le> 2 ^ 52" for X Y
    unfolding both_collidable_def Let_def
      local_coordinate[OF bd(5) bd(1) that(1)] local_coordinate[OF bd(6) bd(2) that(2)]
      local_coordinate[OF bd(11) bd(7) that(1)] local_coordinate[OF bd(12) bd(8) that(2)]
      isPixelCollidable_spec[OF ok(1)] isPixelCollidable_spec[OF ok(2)] ..
  have inside: "(\<exists>Y \<in> {t ..< b}. \<exists>X \<in> {l ..< r}. ?hit (of_int X) (of_int Y))
      \<longleftrightarrow> (\<exists>X \<in> {l ..< r}. \<exists>Y \<in> {t ..< b}. ?Q X Y)"
  proof -
    have "?hit (of_int X) (of_int Y) = ?Q X Y" if "X \<in> {l ..< r}" "Y \<in> {t ..< b}" for X Y
    proof (rule hit)
      show "\<bar>X\<bar> \<le> 2 ^ 52" using that(1) lims by auto
      show "\<bar>Y\<bar> \<le> 2 ^ 52" using that(2) lims by auto
    qed
    then show ?thesis by blast
  qed
  have spec: "spec_collision s1 (of_int x1) (of_int y1) (of_int w1) (of_int h1) (of_int sx1) (of_int sy1)
           s2 (of_int x2) (of_int y2) (of_int w2) (of_int h2) (of_int sx2) (of_int sy2)
        \<longleftrightarrow> (\<exists>X \<in> {l ..< r}. \<exists>Y \<in> {t ..< b}. ?Q X Y)"
    unfolding spec_collision_def Let_def L T R' B' ceiling_of_int ..
  show ?thesis
  proof (cases "l \<ge> r \<or> t \<ge> b")
    case True
    then have "\<not> (\<exists>X \<in> {l ..< r}. \<exists>Y \<in> {t ..< b}. ?Q X Y)" by auto
    then show ?thesis unfolding spec checkCollision_body_def Let_def L T R B using True by simp
  next
    case False
    then show ?thesis
      unfolding spec checkCollision_body_def Let_def L T R B scan_rows_int[OF lims] inside by simp
  qed
qed

lemma checkCollision_integer:
  assumes ok: "sprite_ok s1" "sprite_ok s2"
    and sm: "small_int x1" "small_int y1" "small_int w1" "small_int h1" "small_int srcX1" "small_int srcY1"
      "small_int x2" "small_int y2" "small_int w2" "small_int h2" "small_int srcX2" "small_int srcY2"
  shows "checkCollision s1 x1 y1 w1 h1 srcX1 srcY1 s2 x2 y2 w2 h2 srcX2 srcY2 =
         Some (spec_collision s1 x1 y1 w1 h1 srcX1 srcY1 s2 x2 y2 w2 h2 srcX2 srcY2)"
proof -
  obtain ix1 where x1: "x1 = of_int ix1" "\<bar>ix1\<bar> \<le> 2 ^ 50" using sm(1) by (rule small_intE)
  obtain iy1 where y1: "y1 = of_int iy1" "\<bar>iy1\<bar> \<le> 2 ^ 50" using sm(2) by (rule small_intE)
  obtain iw1 where w1: "w1 = of_int iw1" "\<bar>iw1\<bar> \<le> 2 ^ 50" using sm(3) by (rule small_intE)
  obtain ih1 where h1: "h1 = of_int ih1" "\<bar>ih1\<bar> \<le> 2 ^ 50" using sm(4) by (rule small_intE)
  obtain isx1 where sx1: "srcX1 = of_int isx1" "\<bar>isx1\<bar> \<le> 2 ^ 50" using sm(5) by (rule small_intE)
  obtain isy1 where sy1: "srcY1 = of_int isy1" "\<bar>isy1\<bar> \<le> 2 ^ 50" using sm(6) by (rule small_intE)
  obtain ix2 where x2: "x2 = of_int ix2" "\<bar>ix2\<bar> \<le> 2 ^ 50" using sm(7) by (rule small_intE)
  obtain iy2 where y2: "y2 = of_int iy2" "\<bar>iy2\<bar> \<le> 2 ^ 50" using sm(8) by (rule small_intE)
  obtain iw2 where w2: "w2 = of_int iw2" "\<bar>iw2\<bar> \<le> 2 ^ 50" using sm(9) by (rule small_intE)
  obtain ih2 where h2: "h2 = of_int ih2" "\<bar>ih2\<bar> \<le> 2 ^ 50" using sm(10) by (rule small_intE)
  obtain isx2 where sx2: "srcX2 = of_int isx2" "\<bar>isx2\<bar> \<le> 2 ^ 50" using sm(11) by (rule small_intE)
  obtain isy2 where sy2: "srcY2 = of_int isy2" "\<bar>isy2\<bar> \<le> 2 ^ 50" using sm(12) by (rule small_intE)
  show ?thesis
    unfolding checkCollision_def sm[THEN fl_small]
    unfolding x1(1) y1(1) w1(1) h1(1) sx1(1) sy1(1) x2(1) y2(1) w2(1) h2(1) sx2(1) sy2(1)
    by (rule checkCollision_body_int[OF ok x1(2) y1(2) w1(2) h1(2) sx1(2) sy1(2) x2(2) y2(2) w2(2) h2(2) sx2(2) sy2(2)])
qed

lemma small_int_examples:
  "small_int 0" "small_int 5" "small_int 10" "small_int 17" "small_int 18" "small_int 20"
  "small_int 23" "small_int 44" "small_int 88" "small_int 123" "small_int 128"
  by (simp_all add: small_int_def is_integer_def)

lemma dark10_ok: "sprite_ok (dark_sprite 10 10)" by (rule dark_ok) simp
lemma light10_ok: "sprite_ok (light_sprite 10 10)" by (rule light_ok) simp

lemma example_overlap:
  "checkCollision (dark_sprite 10 10) 0 0 10 10 0 0 (dark_sprite 10 10) 5 5 10 10 0 0 = Some True"
proof -
  have "spec_collision (dark_sprite 10 10) 0 0 10 10 0 0 (dark_sprite 10 10) 5 5 10 10 0 0"
    unfolding spec_collision_def Let_def
    by (rule bexI[of _ 5], rule bexI[of _ 5]) (simp_all add: dark_collidable)
  then show ?thesis
    by (simp add: checkCollision_integer[OF dark10_ok dark10_ok] small_int_examples)
qed

lemma example_touching:
  "checkCollision (dark_sprite 10 10) 0 0 10 10 0 0 (dark_sprite 10 10) 10 10 10 10 0 0 = Some False"
proof -
  have "\<not> spec_collision (dark_sprite 10 10) 0 0 10 10 0 0 (dark_sprite 10 10) 10 10 10 10 0 0"
    unfolding spec_collision_def Let_def by simp
  then show ?thesis
    by (simp add: checkCollision_integer[OF dark10_ok dark10_ok] small_int_examples)
qed

lemma example_light:
  "checkCollision (dark_sprite 10 10) 0 0 10 10 0 0 (light_sprite 10 10) 0 0 10 10 0 0 = Some False"
proof -
  have "\<not> spec_collision (dark_sprite 10 10) 0 0 10 10 0 0 (light_sprite 10 10) 0 0 10 10 0 0"
    unfolding spec_collision_def Let_def by (simp add: light_not_collidable)
  then show ?thesis
    by (simp add: checkCollision_integer[OF dark10_ok light10_ok] small_int_examples)
qed

lemma example_half:
  "checkCollision (dark_sprite 1 1) 0 0 1 1 0 0 (dark_sprite 1 1) (1 / 2) 0 1 1 0 0 = Some True"
proof -
  have ok: "sprite_ok (dark_sprite 1 1)" by (rule dark_ok) simp
  have f1: "fl 1 = 1" using fl_int[of 1] by simp
  have hit: "both_collidable (dark_sprite 1 1) 0 0 0 0 (dark_sprite 1 1) (1 / 2) 0 0 0 (1 / 2) 0"
    unfolding both_collidable_def Let_def isPixelCollidable_spec[OF ok]
    by (simp add: fl_0 fl_1_2 dark_collidable)
  have row: "scan_row (both_collidable (dark_sprite 1 1) 0 0 0 0 (dark_sprite 1 1) (1 / 2) 0 0 0) 1 0 (1 / 2)
             = Some True"
    unfolding scan_row_def scan_loop.simps[of _ 1 "1 / 2"] using hit by simp
  have sr: "scan_rows (both_collidable (dark_sprite 1 1) 0 0 0 0 (dark_sprite 1 1) (1 / 2) 0 0 0)
              (1 / 2) 1 1 0 = Some True"
    unfolding scan_rows_def scan_loop.simps[of _ 1 0] using row by simp
  have L: "max (0::rat) (1 / 2) = 1 / 2" and T: "max (0::rat) 0 = 0" by simp_all
  have R: "min (fl (0 + 1)) (fl (1 / 2 + 1)) = 1" and B: "min (fl (0 + 1)) (fl (0 + 1)) = 1"
    by (simp_all add: f1 fl_3_2)
  show ?thesis
    unfolding checkCollision_def checkCollision_body_def Let_def fl_0 f1 fl_1_2 L R T B
    using sr by simp
qed

text \<open>At an origin that is not an integer the rounding decides the pixel that is read: a solid 3x1 sprite at \<open>x = 0\<close> and the sprite of a blank and a solid pixel at
  \<open>x = 0.4\<close> do not collide, the sample \<open>0.4 + 1\<close> being read at the local coordinate
  \<open>(0.4 + 1) - 0.4 = 0.9999999999999999\<close>, the blank pixel, where exact arithmetic reads the
  solid one.\<close>

lemma checkCollision_rounding_example:
  "checkCollision (dark_sprite 3 1) 0 0 3 1 0 0
     \<lparr>swidth = 2, sheight = 1, sdata = [0, 0, 0, 0, 0, 0, 0, 255]\<rparr> (2 / 5) 0 2 1 0 0 = Some False"
  "spec_collidable (dark_sprite 3 1) (0 + (fl (2 / 5) + 1 - 0)) 0
   \<and> spec_collidable \<lparr>swidth = 2, sheight = 1, sdata = [0, 0, 0, 0, 0, 0, 0, 255]\<rparr>
        (0 + (fl (2 / 5) + 1 - fl (2 / 5))) 0"
proof -
  let ?s2 = "\<lparr>swidth = 2, sheight = 1, sdata = [0, 0, 0, 0, 0, 0, 0, 255]\<rparr>"
  let ?hit = "both_collidable (dark_sprite 3 1) 0 0 0 0 ?s2 (3602879701896397 / 9007199254740992) 0 0 0"
  have ok1: "sprite_ok (dark_sprite 3 1)" by (rule dark_ok) simp
  have ok2: "sprite_ok ?s2" by (simp add: sprite_ok_def)
  have f: "fl 1 = 1" "fl 2 = 2" "fl 3 = 3" using fl_int[of 1] fl_int[of 2] fl_int[of 3] by simp_all
  have px: "\<not> spec_collidable ?s2 x 0" if "0 \<le> x" "x < 1" for x
  proof -
    have "\<lfloor>x\<rfloor> = 0" using that by (simp add: floor_eq_iff)
    then show ?thesis by (simp add: spec_collidable_def alpha_at_def)
  qed
  have h1: "\<not> ?hit (3602879701896397 / 9007199254740992) 0"
    unfolding both_collidable_def Let_def isPixelCollidable_spec[OF ok1] isPixelCollidable_spec[OF ok2]
    using px[of 0] by (simp add: fl_0)
  have h2: "\<not> ?hit (3152519739159347 / 2251799813685248) 0"
    unfolding both_collidable_def Let_def isPixelCollidable_spec[OF ok1] isPixelCollidable_spec[OF ok2]
    using px[of "9007199254740991 / 9007199254740992"] by (simp add: fl_0 fl_d14 fl_d14_d04)
  have r3: "scan_loop (\<lambda>x. Some (?hit x 0)) (5404319552844595 / 2251799813685248) (5404319552844595 / 2251799813685248) = Some False"
    unfolding scan_loop.simps[of _ _ "5404319552844595 / 2251799813685248"] by simp
  have r2: "scan_loop (\<lambda>x. Some (?hit x 0)) (5404319552844595 / 2251799813685248) (3152519739159347 / 2251799813685248) = Some False"
    unfolding scan_loop.simps[of _ _ "3152519739159347 / 2251799813685248"] using h2 r3 by (simp add: fl_d14_1)
  have row: "scan_row ?hit (5404319552844595 / 2251799813685248) 0 (3602879701896397 / 9007199254740992) = Some False"
    unfolding scan_row_def scan_loop.simps[of _ _ "3602879701896397 / 9007199254740992"] using h1 r2 by (simp add: fl_d04_1)
  have o1: "scan_loop (\<lambda>y. scan_row ?hit (5404319552844595 / 2251799813685248) y (3602879701896397 / 9007199254740992)) 1 1 = Some False"
    unfolding scan_loop.simps[of _ 1 1] by simp
  have rows: "scan_rows ?hit (3602879701896397 / 9007199254740992) (5404319552844595 / 2251799813685248) 1 0 = Some False"
    unfolding scan_rows_def scan_loop.simps[of _ 1 0] using row o1 by (simp add: f)
  have L: "max (0::rat) (3602879701896397 / 9007199254740992) = 3602879701896397 / 9007199254740992" and T: "max (0::rat) 0 = 0" by simp_all
  have R: "min (fl (0 + 3)) (fl (3602879701896397 / 9007199254740992 + 2)) = 5404319552844595 / 2251799813685248"
    and B: "min (fl (0 + 1)) (fl (0 + 1)) = 1"
    by (simp_all add: f fl_d04_2)
  show "checkCollision (dark_sprite 3 1) 0 0 3 1 0 0 ?s2 (2 / 5) 0 2 1 0 0 = Some False"
    unfolding checkCollision_def checkCollision_body_def Let_def fl_0 f fl_2_5 L R T B
    using rows by simp
  show "spec_collidable (dark_sprite 3 1) (0 + (fl (2 / 5) + 1 - 0)) 0
   \<and> spec_collidable ?s2 (0 + (fl (2 / 5) + 1 - fl (2 / 5))) 0"
  proof
    show "spec_collidable (dark_sprite 3 1) (0 + (fl (2 / 5) + 1 - 0)) 0"
      by (simp add: fl_2_5 dark_collidable)
    have "spec_collidable ?s2 1 0" by (simp add: spec_collidable_def alpha_at_def red_at_def)
    then show "spec_collidable ?s2 (0 + (fl (2 / 5) + 1 - fl (2 / 5))) 0" by simp
  qed
qed

subsection \<open>Gradient colours\<close>

lemma getGradientColor_finite:
  "\<exists>c. getGradientColor (Num t) = Num (of_int c) \<and> GRADIENT_START_IDX \<le> c
       \<and> c < GRADIENT_START_IDX + GRADIENT_STEPS"
proof -
  let ?q = "max 0 (min 1 t)"
  have q: "0 \<le> ?q" "?q \<le> 1" by simp_all
  have s: "(of_int GRADIENT_STEPS :: rat) - 1 = 31" by (simp add: GRADIENT_STEPS_def)
  let ?idx = "\<lfloor>?q * 31\<rfloor>"
  have "0 \<le> ?q * 31" using q(1) by simp
  moreover have "?q * 31 \<le> 31" using q(2) by simp
  ultimately have i: "0 \<le> ?idx" "?idx \<le> 31"
    by (simp_all add: floor_le_iff le_floor_iff)
  have a: "getGradientColor (Num t) = Num (of_int (GRADIENT_START_IDX + ?idx))"
    unfolding getGradientColor_def js_clamp01_def Let_def s by simp
  have b: "GRADIENT_START_IDX \<le> GRADIENT_START_IDX + ?idx" using i by simp
  have c: "GRADIENT_START_IDX + ?idx < GRADIENT_START_IDX + GRADIENT_STEPS"
    using i by (simp add: GRADIENT_STEPS_def)
  show ?thesis by (rule exI[of _ "GRADIENT_START_IDX + ?idx"]) (intro conjI a b c)
qed

lemma gradient_color_in_range:
  assumes "2 \<le> swidth s"
  shows "\<exists>c. gradient_color_at s sx = Num (of_int c) \<and> GRADIENT_START_IDX \<le> c
       \<and> c < GRADIENT_START_IDX + GRADIENT_STEPS"
proof -
  have "(of_nat (swidth s) :: rat) - 1 \<noteq> 0" using assms by auto
  then have "js_div (of_nat sx) (of_nat (swidth s) - 1) = Num (of_nat sx / (of_nat (swidth s) - 1))"
    by (simp add: js_div_def)
  then show ?thesis unfolding gradient_color_at_def Let_def using getGradientColor_finite by simp
qed

subsection \<open>The tick and the key handler\<close>

lemma spawn_obstacle_step_frame:
  "score (fst (spawn_obstacle_step state rnd g)) = score g"
  "dinoY (fst (spawn_obstacle_step state rnd g)) = dinoY g"
  "dinoVy (fst (spawn_obstacle_step state rnd g)) = dinoVy g"
  "highScore (fst (spawn_obstacle_step state rnd g)) = highScore g"
  "gameState (fst (spawn_obstacle_step state rnd g)) = gameState g"
  by (simp_all add: spawn_obstacle_step_def Let_def split: option.splits prod.splits)

lemma spawn_obstacle_step_obstacles:
  "\<exists>spawned. obstacles (fst (spawn_obstacle_step state rnd g)) = obstacles g @ spawned
      \<and> length spawned \<le> 1 \<and> (\<forall>ob \<in> set spawned. ox ob = game_width state)"
proof -
  have e: "obstacles g = obstacles g @ []" by simp
  show ?thesis
    unfolding spawn_obstacle_step_def Let_def
    by (auto split: option.splits prod.splits intro: exI[of _ "[]"])
qed

lemma spawn_cloud_step_frame:
  "score (fst (spawn_cloud_step state rnd k g)) = score g"
  "dinoY (fst (spawn_cloud_step state rnd k g)) = dinoY g"
  "dinoVy (fst (spawn_cloud_step state rnd k g)) = dinoVy g"
  "highScore (fst (spawn_cloud_step state rnd k g)) = highScore g"
  "gameState (fst (spawn_cloud_step state rnd k g)) = gameState g"
  "obstacles (fst (spawn_cloud_step state rnd k g)) = obstacles g"
  by (simp_all add: spawn_cloud_step_def Let_def split: option.splits)

lemma spawn_logo_step_frame:
  "score (spawn_logo_step state rnd k g) = score g"
  "dinoY (spawn_logo_step state rnd k g) = dinoY g"
  "dinoVy (spawn_logo_step state rnd k g) = dinoVy g"
  "highScore (spawn_logo_step state rnd k g) = highScore g"
  "gameState (spawn_logo_step state rnd k g) = gameState g"
  "obstacles (spawn_logo_step state rnd k g) = obstacles g"
  by (simp_all add: spawn_logo_step_def Let_def)

lemma collision_step_frame:
  "score (collision_step state now g) = score g"
  "dinoY (collision_step state now g) = dinoY g"
  "dinoVy (collision_step state now g) = dinoVy g"
  "obstacles (collision_step state now g) = obstacles g"
  by (simp_all add: collision_step_def)

lemma collision_step_state:
  "gameState (collision_step state now g) =
     (if collisionDetected state now \<and> \<not> infiniteMode state then GAME_OVER else gameState g)"
  "highScore (collision_step state now g) =
     (if collisionDetected state now \<and> \<not> infiniteMode state then max (highScore g) (score state)
      else highScore g)"
  by (simp_all add: collision_step_def)

lemma tick_advance_fields:
  "score (tick_advance state) = score state + timeScale state"
  "dinoVy (tick_advance state) = fst (tick_physics state)"
  "dinoY (tick_advance state) = snd (tick_physics state)"
  "obstacles (tick_advance state) = nextObstacles state"
  "highScore (tick_advance state) = highScore state"
  "gameState (tick_advance state) = gameState state"
  by (simp_all add: tick_advance_def)

lemma game_tick_unfold:
  assumes "gameState state \<noteq> WAITING" "gameState state \<noteq> GAME_OVER"
  shows "game_tick state rnd now =
     (if snd (snd (spawn_obstacle_step state rnd (tick_advance state)))
      then fst (spawn_obstacle_step state rnd (tick_advance state))
      else collision_step state now
             (spawn_logo_step state rnd
                (snd (spawn_cloud_step state rnd
                        (fst (snd (spawn_obstacle_step state rnd (tick_advance state))))
                        (fst (spawn_obstacle_step state rnd (tick_advance state)))))
                (fst (spawn_cloud_step state rnd
                        (fst (snd (spawn_obstacle_step state rnd (tick_advance state))))
                        (fst (spawn_obstacle_step state rnd (tick_advance state)))))))"
  using assms by (simp add: game_tick_def split: prod.splits)

lemmas step_frames = spawn_obstacle_step_frame spawn_cloud_step_frame spawn_logo_step_frame
  collision_step_frame tick_advance_fields

lemma game_tick_fields:
  assumes "gameState state \<noteq> WAITING" "gameState state \<noteq> GAME_OVER"
  shows "score (game_tick state rnd now) = score state + timeScale state"
    "dinoVy (game_tick state rnd now) = fst (tick_physics state)"
    "dinoY (game_tick state rnd now) = snd (tick_physics state)"
  unfolding game_tick_unfold[OF assms] by (simp_all add: step_frames)

lemma game_tick_obstacles:
  assumes "gameState state \<noteq> WAITING" "gameState state \<noteq> GAME_OVER"
  shows "\<exists>spawned. obstacles (game_tick state rnd now) = nextObstacles state @ spawned
      \<and> length spawned \<le> 1 \<and> (\<forall>ob \<in> set spawned. ox ob = game_width state)"
proof -
  have "obstacles (game_tick state rnd now) =
        obstacles (fst (spawn_obstacle_step state rnd (tick_advance state)))"
    unfolding game_tick_unfold[OF assms] by (simp add: step_frames)
  then show ?thesis
    using spawn_obstacle_step_obstacles[of state rnd "tick_advance state"]
    by (simp add: tick_advance_fields)
qed

lemma game_tick_high_score:
  assumes "gameState state = PLAYING"
  shows "gameState (game_tick state rnd now) = GAME_OVER \<longrightarrow>
           highScore (game_tick state rnd now) = max (highScore state) (score state)"
    "gameState (game_tick state rnd now) \<noteq> GAME_OVER \<longrightarrow>
           highScore (game_tick state rnd now) = highScore state"
    "gameState (game_tick state rnd now) = GAME_OVER \<or> gameState (game_tick state rnd now) = PLAYING"
proof -
  have ne: "gameState state \<noteq> WAITING" "gameState state \<noteq> GAME_OVER" using assms by simp_all
  show "gameState (game_tick state rnd now) = GAME_OVER \<longrightarrow>
           highScore (game_tick state rnd now) = max (highScore state) (score state)"
    unfolding game_tick_unfold[OF ne] using assms
    by (simp add: step_frames collision_step_state)
  show "gameState (game_tick state rnd now) \<noteq> GAME_OVER \<longrightarrow>
           highScore (game_tick state rnd now) = highScore state"
    unfolding game_tick_unfold[OF ne] using assms
    by (simp add: step_frames collision_step_state)
  show "gameState (game_tick state rnd now) = GAME_OVER \<or> gameState (game_tick state rnd now) = PLAYING"
    unfolding game_tick_unfold[OF ne] using assms
    by (simp add: step_frames collision_step_state)
qed

lemma game_tick_game_over_iff:
  assumes "gameState state = PLAYING" "obstacleSmallSprite state \<noteq> None"
  shows "gameState (game_tick state rnd now) = GAME_OVER \<longleftrightarrow>
         collisionDetected state now \<and> \<not> infiniteMode state"
proof -
  have ne: "gameState state \<noteq> WAITING" "gameState state \<noteq> GAME_OVER" using assms by simp_all
  have nr: "\<not> snd (snd (spawn_obstacle_step state rnd g))" for g
    using assms(2) by (auto simp: spawn_obstacle_step_def Let_def split: option.splits prod.splits)
  show ?thesis
    unfolding game_tick_unfold[OF ne] using assms(1) nr
    by (simp add: step_frames collision_step_state)
qed

lemma resetGame_fields:
  assumes "dinoSprite g = Some ds"
  shows "gameState (resetGame g) = PLAYING" "score (resetGame g) = 0"
    "dinoY (resetGame g) = GROUND_Y - of_nat (sheight ds)" "dinoVy (resetGame g) = 0"
    "obstacles (resetGame g) = []" "logos (resetGame g) = []"
    "clouds (resetGame g) =
       [\<lparr>cx = of_int (\<lfloor>fl (fl (game_width g * fl (3 / 10)) / 2)\<rfloor> * 2), cy = 30\<rparr>,
        \<lparr>cx = of_int (\<lfloor>fl (fl (game_width g * fl (7 / 10)) / 2)\<rfloor> * 2), cy = 60\<rparr>]"
    "groundOffset (resetGame g) = INITIAL_GROUND_OFFSET" "tick (resetGame g) = 0"
    "speedRef (resetGame g) = SPEED_INITIAL" "lastSpawnTickRef (resetGame g) = 0"
    "lastPteroSpawnTickRef (resetGame g) = 0" "gameTickRef (resetGame g) = 0"
    "speedMode (resetGame g) = speedMode g"
  using assms by (simp_all add: resetGame_def)

lemma resetGame_highScore: "highScore (resetGame g) = highScore g"
  by (simp add: resetGame_def split: option.splits)

lemma handle_key_waiting:
  assumes "gameState g = WAITING" "jump_input key"
  shows "gameState (handle_key g key rnd now) = gameState (resetGame g)"
    "score (handle_key g key rnd now) = score (resetGame g)"
    "dinoY (handle_key g key rnd now) = dinoY (resetGame g)"
    "dinoVy (handle_key g key rnd now) = dinoVy (resetGame g)"
    "speedMode (handle_key g key rnd now) = speedMode (resetGame g)"
  using assms by (simp_all add: handle_key_def Let_def)

lemma rand_range: "0 \<le> rand rnd k" "rand rnd k < 1"
  unfolding rand_def by linarith+

lemma table_index:
  assumes "0 < n"
  shows "nat \<lfloor>rand rnd k * of_nat n\<rfloor> < n"
proof -
  have "rand rnd k * of_nat n < of_nat n" using rand_range(2)[of rnd k] assms by simp
  moreover have "0 \<le> rand rnd k * of_nat n" using rand_range(1)[of rnd k] by simp
  ultimately have "\<lfloor>rand rnd k * of_nat n\<rfloor> < int n" "0 \<le> \<lfloor>rand rnd k * of_nat n\<rfloor>"
    by (simp_all add: floor_less_iff)
  then show ?thesis by linarith
qed

lemma cactus_widths:
  "i < length CACTUS_LARGE_DEFINITIONS \<Longrightarrow> 0 < fst (snd (snd (CACTUS_LARGE_DEFINITIONS ! i)))"
  "i < length CACTUS_SMALL_DEFINITIONS \<Longrightarrow> 0 < fst (snd (snd (CACTUS_SMALL_DEFINITIONS ! i)))"
proof -
  have "list_all (\<lambda>d. 0 < fst (snd (snd d))) CACTUS_LARGE_DEFINITIONS"
    by (simp add: CACTUS_LARGE_DEFINITIONS_def)
  then show "i < length CACTUS_LARGE_DEFINITIONS \<Longrightarrow> 0 < fst (snd (snd (CACTUS_LARGE_DEFINITIONS ! i)))"
    by (simp add: list_all_length)
  have "list_all (\<lambda>d. 0 < fst (snd (snd d))) CACTUS_SMALL_DEFINITIONS"
    by (simp add: CACTUS_SMALL_DEFINITIONS_def)
  then show "i < length CACTUS_SMALL_DEFINITIONS \<Longrightarrow> 0 < fst (snd (snd (CACTUS_SMALL_DEFINITIONS ! i)))"
    by (simp add: list_all_length)
qed

lemma spawn_obstacle_step_widths:
  "\<exists>spawned. obstacles (fst (spawn_obstacle_step state rnd g)) = obstacles g @ spawned
      \<and> length spawned \<le> 1
      \<and> (\<forall>ob \<in> set spawned. ox ob = game_width state \<and> 0 \<le> owidth ob)"
proof -
  have l: "0 \<le> dw"
    if "CACTUS_LARGE_DEFINITIONS ! nat \<lfloor>rand rnd k * of_nat (length CACTUS_LARGE_DEFINITIONS)\<rfloor>
          = (dx, dy, dw, dh)" for k dx dy dw dh
  proof -
    have "0 < fst (snd (snd (CACTUS_LARGE_DEFINITIONS
          ! nat \<lfloor>rand rnd k * of_nat (length CACTUS_LARGE_DEFINITIONS)\<rfloor>)))"
      by (rule cactus_widths(1), rule table_index) (simp add: CACTUS_LARGE_DEFINITIONS_def)
    then show ?thesis unfolding that by simp
  qed
  have s: "0 \<le> dw"
    if "CACTUS_SMALL_DEFINITIONS ! nat \<lfloor>rand rnd k * of_nat (length CACTUS_SMALL_DEFINITIONS)\<rfloor>
          = (dx, dy, dw, dh)" for k dx dy dw dh
  proof -
    have "0 < fst (snd (snd (CACTUS_SMALL_DEFINITIONS
          ! nat \<lfloor>rand rnd k * of_nat (length CACTUS_SMALL_DEFINITIONS)\<rfloor>)))"
      by (rule cactus_widths(2), rule table_index) (simp add: CACTUS_SMALL_DEFINITIONS_def)
    then show ?thesis unfolding that by simp
  qed
  show ?thesis
  proof (cases "spawn_wanted state rnd")
    case False
    then show ?thesis by (simp add: spawn_obstacle_step_def)
  next
    case True
    show ?thesis
      unfolding spawn_obstacle_step_def Let_def using True
      by (auto split: option.splits prod.splits dest: l s simp del: of_nat_mult)
  qed
qed

lemma game_tick_obstacles_widths:
  assumes "gameState state \<noteq> WAITING" "gameState state \<noteq> GAME_OVER"
  shows "\<exists>spawned. obstacles (game_tick state rnd now) = nextObstacles state @ spawned
      \<and> length spawned \<le> 1
      \<and> (\<forall>ob \<in> set spawned. ox ob = game_width state \<and> 0 \<le> owidth ob)"
proof -
  have "obstacles (game_tick state rnd now) =
        obstacles (fst (spawn_obstacle_step state rnd (tick_advance state)))"
    unfolding game_tick_unfold[OF assms] by (simp add: step_frames)
  then show ?thesis
    using spawn_obstacle_step_widths[of state rnd "tick_advance state"]
    by (simp add: tick_advance_fields)
qed

lemma nextObstacles_eq:
  "nextObstacles g =
     filter (\<lambda>ob. ox ob + owidth ob > 0)
       (map (\<lambda>ob. ob\<lparr>ox := ox ob - (if otype ob = PTERODACTYL then next_speed g * 2
                                        else next_speed g) * timeScale g\<rparr>) (obstacles g))"
proof -
  have "move_obstacle (next_speed g) (timeScale g) =
        (\<lambda>ob. ob\<lparr>ox := ox ob - (if otype ob = PTERODACTYL then next_speed g * 2
                                     else next_speed g) * timeScale g\<rparr>)"
    by (rule ext) (simp add: move_obstacle_def Let_def)
  then show ?thesis by (simp add: nextObstacles_def)
qed

lemma nextObstacles_live: "ob \<in> set (nextObstacles g) \<Longrightarrow> \<not> ox ob + owidth ob \<le> 0"
  by (auto simp: nextObstacles_def)

lemma tick_physics_normal:
  assumes "speedMode g = NORMAL" "dinoVy g = 0"
  shows "dinoY g + GRAVITY * 1 \<le> GROUND_Y - DINO_HEIGHT \<Longrightarrow> tick_physics g = (GRAVITY * 1, dinoY g + GRAVITY * 1)"
    "dinoY g + GRAVITY * 1 > GROUND_Y - DINO_HEIGHT \<Longrightarrow> tick_physics g = (0, GROUND_Y - DINO_HEIGHT)"
  using assms by (simp_all add: tick_physics_def timeScale_def Let_def)

lemma start_then_tick:
  assumes "gameState g = WAITING" "dinoSprite g = Some ds" "jump_input key" "speedMode g = NORMAL"
  shows "gameState (handle_key g key rnd now) = PLAYING"
    "score (handle_key g key rnd now) = 0"
    "dinoY (handle_key g key rnd now) = GROUND_Y - of_nat (sheight ds)"
    "score (game_tick (handle_key g key rnd now) rnd' now') = score (handle_key g key rnd now) + 1"
    "24 \<le> sheight ds \<Longrightarrow> dinoVy (game_tick (handle_key g key rnd now) rnd' now') = GRAVITY * 1"
    "24 \<le> sheight ds \<Longrightarrow> dinoY (game_tick (handle_key g key rnd now) rnd' now')
        = dinoY (handle_key g key rnd now) + GRAVITY * 1"
    "sheight ds \<le> 23 \<Longrightarrow> dinoVy (game_tick (handle_key g key rnd now) rnd' now') = 0"
    "sheight ds \<le> 23 \<Longrightarrow> dinoY (game_tick (handle_key g key rnd now) rnd' now') = GROUND_Y - DINO_HEIGHT"
proof -
  let ?g1 = "handle_key g key rnd now"
  note hk = handle_key_waiting[OF assms(1,3), of rnd now] and rf = resetGame_fields[OF assms(2)]
  show st: "gameState ?g1 = PLAYING" and sc: "score ?g1 = 0"
    and y: "dinoY ?g1 = GROUND_Y - of_nat (sheight ds)"
    by (simp_all add: hk rf)
  have vy: "dinoVy ?g1 = 0" and sm: "speedMode ?g1 = NORMAL" by (simp_all add: hk rf assms(4))
  have ne: "gameState ?g1 \<noteq> WAITING" "gameState ?g1 \<noteq> GAME_OVER" using st by simp_all
  note f = game_tick_fields[OF ne, of rnd' now']
  show "score (game_tick ?g1 rnd' now') = score ?g1 + 1" by (simp add: f timeScale_def sm)
  {
    assume h: "24 \<le> sheight ds"
    then have "(24::rat) \<le> of_nat (sheight ds)" by (metis of_nat_numeral of_nat_le_iff)
    then have "dinoY ?g1 + GRAVITY * 1 \<le> GROUND_Y - DINO_HEIGHT"
      by (simp add: y GROUND_Y_def HEIGHT_def DINO_HEIGHT_def GRAVITY_def)
    from tick_physics_normal(1)[OF sm vy this]
    show "dinoVy (game_tick ?g1 rnd' now') = GRAVITY * 1"
      "dinoY (game_tick ?g1 rnd' now') = dinoY ?g1 + GRAVITY * 1"
      by (simp_all add: f)
  }
  {
    assume h: "sheight ds \<le> 23"
    then have "of_nat (sheight ds) \<le> (23::rat)" by (metis of_nat_numeral of_nat_le_iff)
    then have "dinoY ?g1 + GRAVITY * 1 > GROUND_Y - DINO_HEIGHT"
      by (simp add: y GROUND_Y_def HEIGHT_def DINO_HEIGHT_def GRAVITY_def)
    from tick_physics_normal(2)[OF sm vy this]
    show "dinoVy (game_tick ?g1 rnd' now') = 0"
      "dinoY (game_tick ?g1 rnd' now') = GROUND_Y - DINO_HEIGHT"
      by (simp_all add: f)
  }
qed

lemma demo_game_fields:
  "gameState (demo_game h) = WAITING" "dinoSprite (demo_game h) = Some (dark_sprite 220 h)"
  "speedMode (demo_game h) = NORMAL" "highScore (demo_game h) = 0"
  by (simp_all add: demo_game_def loaded_game_def)

lemma jump_space: "jump_input space_key"
  by (simp add: jump_input_def space_key_def)

lemma dark_dims: "swidth (dark_sprite w h) = w" "sheight (dark_sprite w h) = h"
  by (simp_all add: dark_sprite_def uniform_sprite_def)

lemma playing_game_fields:
  "gameState (playing_game obs) = PLAYING" "obstacles (playing_game obs) = obs"
  "score (playing_game obs) = 42" "highScore (playing_game obs) = 0"
  "speedRef (playing_game obs) = 5" "speedMode (playing_game obs) = NORMAL"
  "dinoY (playing_game obs) = 123" "dinoVy (playing_game obs) = 0"
  "gameTickRef (playing_game obs) = 0" "isDucking (playing_game obs) = False"
  "infiniteMode (playing_game obs) = False"
  "dinoSprite (playing_game obs) = Some (dark_sprite 220 23)"
  "duckLeftSprite (playing_game obs) = Some (dark_sprite 59 30)"
  "duckRightSprite (playing_game obs) = Some (dark_sprite 59 30)"
  "obstacleSmallSprite (playing_game obs) = Some (dark_sprite 102 18)"
  "game_width (playing_game obs) = 196"
  by (simp_all add: playing_game_def resetGame_def demo_game_def loaded_game_def dark_dims
      game_width_def GROUND_Y_def HEIGHT_def SPEED_INITIAL_def)

lemma playing_game_derived:
  "timeScale (playing_game obs) = 1" "next_speed (playing_game obs) = 1001 / 200"
  "tick_physics (playing_game obs) = (0, 123)"
  by (simp_all add: timeScale_def next_speed_def tick_physics_def playing_game_fields
      MAX_SPEED_def SPEED_ACCELERATION_def GRAVITY_def GROUND_Y_def HEIGHT_def DINO_HEIGHT_def Let_def)

lemma next_obstacles_example:
  "nextObstacles (playing_game [cactus_at 100, ptero_at 50, cactus_at (- 13)])
     = [cactus_at (100 - 1001 / 200), ptero_at (50 - 1001 / 100)]"
  unfolding nextObstacles_eq playing_game_fields playing_game_derived
  by (simp add: cactus_at_def ptero_at_def)

lemma collision_example: "collisionDetected (playing_game [cactus_at (20 + 1001 / 200)]) now"
proof -
  let ?g = "playing_game [cactus_at (20 + 1001 / 200)]"
  have n: "nextObstacles ?g = [cactus_at 20]"
    unfolding nextObstacles_eq playing_game_fields playing_game_derived
    by (simp add: cactus_at_def)
  have ok1: "sprite_ok (dark_sprite 220 23)" and ok2: "sprite_ok (dark_sprite 102 18)"
    by (rule dark_ok, simp)+
  have cc: "checkCollision (dark_sprite 220 23) 10 123 44 23 88 0 (dark_sprite 102 18) 20 128 17 18 0 0
            = Some True"
  proof -
    have "spec_collision (dark_sprite 220 23) 10 123 44 23 88 0 (dark_sprite 102 18) 20 128 17 18 0 0"
      unfolding spec_collision_def Let_def
      by (rule bexI[of _ 20], rule bexI[of _ 128]) (simp_all add: dark_collidable)
    then show ?thesis
      by (simp add: checkCollision_integer[OF ok1 ok2] small_int_examples)
  qed
  have hit: "obstacle_hit (dark_sprite 220 23) 123 44 23 88 (cactus_at 20)"
    using cc by (simp add: obstacle_hit_def cactus_at_def DINO_X_def GROUND_Y_def HEIGHT_def)
  have fr: "\<lfloor>(1::rat) / 3\<rfloor> = 0" by (simp add: floor_eq_iff)
  show ?thesis
    unfolding collisionDetected_def playing_game_fields playing_game_derived n Let_def
    using hit fr
    by (simp add: GROUND_Y_def HEIGHT_def DINO_HEIGHT_def DINO_WIDTH_def POSE_RUN1_def)
qed

subsection \<open>The colour of a block\<close>

lemma canvas_get_nonneg: "canvas_get cv x y = Some v \<Longrightarrow> 0 \<le> v"
  by (auto simp: canvas_get_def typed_read_def split: if_splits)

lemma block_pixels_nonneg: "Some v \<in> set (block_pixels cv y x) \<Longrightarrow> 0 \<le> v"
  unfolding block_pixels_def using canvas_get_nonneg by (auto dest: sym)

lemma map_filter_gt0_opt:
  "(\<And>v. Some v \<in> set ps \<Longrightarrow> 0 \<le> v) \<Longrightarrow>
   List.map_filter (\<lambda>p. if js_gt0 p then p else None) ps
     = filter (\<lambda>v. v \<noteq> 0) (map (\<lambda>p. case p of Some v \<Rightarrow> v | None \<Rightarrow> 0) ps)"
proof (induction ps)
  case Nil
  then show ?case by (simp add: List.map_filter_simps)
next
  case (Cons p ps)
  have IH: "List.map_filter (\<lambda>p. if js_gt0 p then p else None) ps
     = filter (\<lambda>v. v \<noteq> 0) (map (\<lambda>p. case p of Some v \<Rightarrow> v | None \<Rightarrow> 0) ps)"
    using Cons by simp
  show ?case
  proof (cases p)
    case None
    then show ?thesis using IH by (simp add: List.map_filter_simps js_gt0_def)
  next
    case (Some v)
    then have "0 \<le> v" using Cons.prems[of v] by simp
    then show ?thesis using IH Some by (auto simp add: List.map_filter_simps js_gt0_def)
  qed
qed

lemma dominant_color_spec_opt:
  assumes "\<And>v. Some v \<in> set ps \<Longrightarrow> 0 \<le> v"
  shows "dominant_color ps = spec_dominant (map (\<lambda>p. case p of Some v \<Rightarrow> v | None \<Rightarrow> 0) ps)"
proof -
  define nz where "nz = filter (\<lambda>v. v \<noteq> 0) (map (\<lambda>p. case p of Some v \<Rightarrow> v | None \<Rightarrow> 0) ps)"
  have e: "List.map_filter (\<lambda>p. if js_gt0 p then p else None) ps = nz"
    unfolding nz_def by (rule map_filter_gt0_opt[OF assms])
  have a: "dominant_color ps = (if nz = [] then 0 else snd (fold (dominant_step nz) nz (0, 0)))"
    unfolding dominant_color_def e Let_def by simp
  have b: "spec_dominant (map (\<lambda>p. case p of Some v \<Rightarrow> v | None \<Rightarrow> 0) ps)
        = (if nz = [] then 0
           else Max {c \<in> set nz. \<forall>c' \<in> set nz. count_list nz c' \<le> count_list nz c})"
    unfolding spec_dominant_def nz_def[symmetric] Let_def by simp
  show ?thesis unfolding a b using dominant_fold_max[of nz] by simp
qed

lemma toLines_cell_color:
  "snd (toLines_cell cv y x st) = dominant_color (block_pixels cv y x)"
  by (cases st) (simp add: toLines_cell_def Let_def)

subsection \<open>Claims about the canvas\<close>

text \<open>
  Claim C2. In a 2x2 block the dominant colour chosen by \<^verbatim>\<open>toLines\<close> is the most frequent
  nonzero value among the four sub-pixels, the numerically larger colour code winning a tie
  (\<open>spec_dominant\<close>): so for all four values that are not negative, as the bytes of a canvas
  are, and so for the colour the loop body of \<^verbatim>\<open>toLines\<close> leaves current at the block at
  \<open>(x, y)\<close> of any canvas (a sub-pixel read as \<^verbatim>\<open>undefined\<close> counting as 0). For the sub-pixels
  1, 2, 0, 0 the dominant colour is 2.
\<close>

theorem toLines_dominant_color:
  "(0 \<le> p1 \<and> 0 \<le> p2 \<and> 0 \<le> p3 \<and> 0 \<le> p4 \<longrightarrow>
     dominant_color [Some p1, Some p2, Some p3, Some p4] = spec_dominant [p1, p2, p3, p4])
   \<and> snd (toLines_cell cv y x st)
       = spec_dominant (map (\<lambda>p. case p of Some v \<Rightarrow> v | None \<Rightarrow> 0) (block_pixels cv y x))
   \<and> dominant_color [Some 1, Some 2, Some 0, Some 0] = 2"
proof -
  have "dominant_color [Some 1, Some 2, Some 0, Some 0] = 2"
    by (simp add: dominant_color_def List.map_filter_simps js_gt0_def dominant_step_def)
  moreover have "snd (toLines_cell cv y x st)
       = spec_dominant (map (\<lambda>p. case p of Some v \<Rightarrow> v | None \<Rightarrow> 0) (block_pixels cv y x))"
    unfolding toLines_cell_color by (rule dominant_color_spec_opt) (rule block_pixels_nonneg)
  ultimately show ?thesis using dominant_color_spec[of "[p1, p2, p3, p4]"] by simp
qed

theorem toLines_dominant_color_witness:
  "(0::int) \<le> 3 \<and> (0::int) \<le> 7 \<and> (0::int) \<le> 0 \<and>
   dominant_color [Some 3, Some 7, Some 0, Some 3] = spec_dominant [3, 7, 0, 3] \<and>
   spec_dominant [3, 7, 0, 3] = 3 \<and> spec_dominant [3, 7, 0, 0] = 7"
  using toLines_dominant_color[of 3 7 0 3] by code_simp

text \<open>
  Claim C5, as amended. \<^verbatim>\<open>toLines(minY, maxY)\<close> returns
  \<open>ceil((min(height, maxY) - max(0, floor(minY))) / 2)\<close> lines (none when that is negative):
  the window is clamped to the canvas. So the count is \<open>ceil((maxY - minY) / 2)\<close> whenever
  \<open>0 \<le> minY \<le> maxY \<le> height\<close> and \<open>minY\<close> is an integer. Every returned line shows exactly
  \<open>ceil(width / 2)\<close> glyphs once the colour escape sequences are removed.
\<close>

theorem toLines_counts:
  "length (toLines cv minY maxY) =
       nat \<lceil>(min (of_nat (cheight cv)) maxY - of_int (max 0 \<lfloor>minY\<rfloor>)) / 2\<rceil>
   \<and> (0 \<le> minY \<and> is_integer minY \<and> minY \<le> maxY \<and> maxY \<le> of_nat (cheight cv) \<longrightarrow>
        int (length (toLines cv minY maxY)) = \<lceil>(maxY - minY) / 2\<rceil>)
   \<and> (\<forall>line \<in> set (toLines cv minY maxY).
        int (length (glyphs line)) = \<lceil>(of_nat (cwidth cv) :: rat) / 2\<rceil>)"
proof (intro conjI impI ballI)
  show len: "length (toLines cv minY maxY) =
       nat \<lceil>(min (of_nat (cheight cv)) maxY - of_int (max 0 \<lfloor>minY\<rfloor>)) / 2\<rceil>"
    unfolding toLines_rows_eq by simp
  {
    assume h: "0 \<le> minY \<and> is_integer minY \<and> minY \<le> maxY \<and> maxY \<le> of_nat (cheight cv)"
    then have "of_int (max 0 \<lfloor>minY\<rfloor>) = minY" by (simp add: is_integer_def max_def)
    moreover have "min (of_nat (cheight cv)) maxY = maxY" using h by simp
    moreover have "0 \<le> \<lceil>(maxY - minY) / 2\<rceil>" using h by simp
    ultimately have "int (length (toLines cv minY maxY)) = int (nat \<lceil>(maxY - minY) / 2\<rceil>)"
      by (simp only: len)
    also have "\<dots> = \<lceil>(maxY - minY) / 2\<rceil>"
      using \<open>0 \<le> \<lceil>(maxY - minY) / 2\<rceil>\<close> by simp
    finally show "int (length (toLines cv minY maxY)) = \<lceil>(maxY - minY) / 2\<rceil>" .
  }
  {
    fix line assume "line \<in> set (toLines cv minY maxY)"
    then obtain y where "line = toLines_row cv y" unfolding toLines_rows_eq by auto
    then show "int (length (glyphs line)) = \<lceil>(of_nat (cwidth cv) :: rat) / 2\<rceil>"
      using half_ceiling[of "cwidth cv"] by (simp add: row_glyphs)
  }
qed

theorem toLines_counts_witness:
  "(0::rat) \<le> 1 \<and> is_integer 1 \<and> (1::rat) \<le> 4 \<and> (4::rat) \<le> of_nat (cheight (new_canvas 3 4)) \<and>
   length (toLines (new_canvas 3 4) 1 4) = 2 \<and>
   int (length (toLines (new_canvas 3 4) 1 4)) = \<lceil>(4 - 1) / (2::rat)\<rceil> \<and>
   toLines (new_canvas 3 4) 1 4 ! 1 \<in> set (toLines (new_canvas 3 4) 1 4) \<and>
   int (length (glyphs (toLines (new_canvas 3 4) 1 4 ! 1))) = 2"
proof -
  have h: "(0::rat) \<le> 1 \<and> is_integer 1 \<and> (1::rat) \<le> 4 \<and> (4::rat) \<le> of_nat (cheight (new_canvas 3 4))"
    by (simp add: is_integer_def new_canvas_def)
  have c0: "\<lceil>(3::rat) / 2\<rceil> = 2" by (simp add: ceiling_eq_iff)
  have c: "\<lceil>(4 - 1) / (2::rat)\<rceil> = 2" "\<lceil>(of_nat (cwidth (new_canvas 3 4)) :: rat) / 2\<rceil> = 2"
     "nat \<lceil>(min (of_nat (cheight (new_canvas 3 4))) 4 - rat_of_int (max 0 \<lfloor>1::rat\<rfloor>)) / 2\<rceil> = 2"
    by (simp_all add: new_canvas_def c0)
  note t = toLines_counts[of "new_canvas 3 4" 1 4, unfolded c]
  from t have len: "length (toLines (new_canvas 3 4) 1 4) = 2" by simp
  then have m: "toLines (new_canvas 3 4) 1 4 ! 1 \<in> set (toLines (new_canvas 3 4) 1 4)"
    by (intro nth_mem) simp
  from t m have "int (length (glyphs (toLines (new_canvas 3 4) 1 4 ! 1))) = 2" by blast
  then show ?thesis using t h m unfolding c by simp
qed

text \<open>
  The count \<open>ceil((maxY - minY) / 2)\<close> of claim C5 fails for a window that leaves the canvas: a
  canvas of height 4 asked for the rows 0 to 10 returns 2 lines, not 5.
\<close>

theorem toLines_counts_counterexample:
  "int (length (toLines (new_canvas 2 4) 0 10)) \<noteq> \<lceil>(10 - 0) / (2::rat)\<rceil>"
proof -
  have "length (toLines (new_canvas 2 4) 0 10) = 2"
    unfolding toLines_rows_eq by (simp add: new_canvas_def)
  then show ?thesis by simp
qed

text \<open>
  Claim C6. The glyph that \<^verbatim>\<open>toLines\<close> emits for a 2x2 block is the entry of the fixed 16-entry
  table at the 4-bit pattern of the block, each sub-pixel read as a boolean (\<open>> 0\<close>) and the
  bits packed in the order TL, TR, BL, BR with TL most significant. The table has 16
  distinct glyphs, the pattern 0000 gives a space and 1111 the full block.
\<close>

theorem toLines_glyph_table:
  "(\<forall>k < length (toLines cv minY maxY). \<forall>j < (cwidth cv + 1) div 2.
      glyphs (toLines cv minY maxY ! k) ! j =
        BLOCK_LOOKUP ! pattern_index (block_pixels cv (max 0 \<lfloor>minY\<rfloor> + 2 * int k) (2 * j)))
   \<and> length BLOCK_LOOKUP = 16 \<and> distinct BLOCK_LOOKUP
   \<and> BLOCK_LOOKUP ! 0 = 32 \<and> BLOCK_LOOKUP ! 15 = 9608"
proof -
  have "glyphs (toLines cv minY maxY ! k) ! j =
        BLOCK_LOOKUP ! pattern_index (block_pixels cv (max 0 \<lfloor>minY\<rfloor> + 2 * int k) (2 * j))"
    if "k < length (toLines cv minY maxY)" "j < (cwidth cv + 1) div 2" for k j
  proof -
    have "toLines cv minY maxY ! k = toLines_row cv (max 0 \<lfloor>minY\<rfloor> + 2 * int k)"
      using that(1) unfolding toLines_rows_eq by simp
    then show ?thesis using that(2) by (simp add: row_glyphs block_char_pattern)
  qed
  moreover have "length BLOCK_LOOKUP = 16" "distinct BLOCK_LOOKUP" "BLOCK_LOOKUP ! 0 = 32" "BLOCK_LOOKUP ! 15 = 9608"
    by (simp_all add: BLOCK_LOOKUP_def)
  ultimately show ?thesis by blast
qed

theorem toLines_glyph_table_witness:
  "(0::nat) < length (toLines (canvas_set (new_canvas 3 4) 1 0 (Num 1)) 0 4) \<and>
   (0::nat) < (cwidth (canvas_set (new_canvas 3 4) 1 0 (Num 1)) + 1) div 2 \<and>
   glyphs (toLines (canvas_set (new_canvas 3 4) 1 0 (Num 1)) 0 4 ! 0) ! 0 = 9629"
proof -
  let ?cv = "canvas_set (new_canvas 3 4) 1 0 (Num 1)"
  have cv: "?cv = \<lparr>cwidth = 3, cheight = 4, pixels = [0, 1, 0, 0, 0, 0, 0, 0, 0, 0, 0, 0]\<rparr>"
    by (simp add: canvas_set_def new_canvas_def in_canvas_def typed_write_def to_uint8_def
        eval_nat_numeral)
  have k: "0 < length (toLines ?cv 0 4)"
    unfolding toLines_rows_eq cv by (simp add: ceiling_eq_iff)
  have j: "0 < (cwidth ?cv + 1) div 2" unfolding cv by simp
  have p: "BLOCK_LOOKUP ! pattern_index (block_pixels ?cv (max 0 \<lfloor>0::rat\<rfloor> + 2 * int 0) (2 * 0)) = 9629"
    unfolding cv
    by (simp add: block_pixels_def canvas_get_def in_canvas_def typed_read_def is_integer_def
        pattern_index_def on_bit_def js_gt0_def BLOCK_LOOKUP_def)
  show ?thesis
    using toLines_glyph_table[of ?cv 0 4, THEN conjunct1, rule_format, OF k j] k j p by simp
qed

text \<open>
  Claim C7. For coordinates outside \<open>[0, width) \<times> [0, height)\<close>, \<^verbatim>\<open>set\<close> leaves the canvas
  unchanged and \<^verbatim>\<open>get\<close> returns 0.
\<close>

theorem canvas_out_of_bounds:
  "\<not> (0 \<le> x \<and> x < of_nat (cwidth c) \<and> 0 \<le> y \<and> y < of_nat (cheight c)) \<Longrightarrow>
   canvas_set c x y color = c \<and> canvas_get c x y = Some 0"
proof -
  assume "\<not> (0 \<le> x \<and> x < of_nat (cwidth c) \<and> 0 \<le> y \<and> y < of_nat (cheight c))"
  then have "\<not> in_canvas c x y" by (simp add: in_canvas_def)
  then show ?thesis by (simp add: canvas_set_def canvas_get_def)
qed

theorem canvas_out_of_bounds_witness:
  "\<not> (0 \<le> (3::rat) \<and> (3::rat) < of_nat (cwidth (new_canvas 3 2)) \<and> 0 \<le> (1::rat) \<and> (1::rat) < of_nat (cheight (new_canvas 3 2))) \<and>
   canvas_set (new_canvas 3 2) 3 1 (Num 7) = new_canvas 3 2 \<and> canvas_get (new_canvas 3 2) 3 1 = Some 0"
  using canvas_out_of_bounds[of 3 "new_canvas 3 2" 1 "Num 7"] by (simp add: new_canvas_def)

text \<open>
  Claim C10. On a canvas, for integers \<open>x\<close> in \<open>[0, width)\<close>, \<open>y\<close> in \<open>[0, height)\<close> and a colour
  code \<open>col\<close> in \<open>[0, 255]\<close>, \<^verbatim>\<open>get(x, y)\<close> after \<^verbatim>\<open>set(x, y, col)\<close> returns \<open>col\<close>, and the
  \<^verbatim>\<open>set\<close> changes no other cell of the pixel buffer: the buffer keeps its length, every
  other index keeps its value, and \<^verbatim>\<open>get\<close> at every other integer position returns what it
  returned before.
\<close>

theorem canvas_set_get:
  assumes "canvas_ok c" "0 \<le> x" "x < int (cwidth c)" "0 \<le> y" "y < int (cheight c)"
    "0 \<le> col" "col \<le> 255"
  shows "canvas_get (canvas_set c (of_int x) (of_int y) (Num (of_int col))) (of_int x) (of_int y) = Some col
    \<and> cwidth (canvas_set c (of_int x) (of_int y) (Num (of_int col))) = cwidth c
    \<and> cheight (canvas_set c (of_int x) (of_int y) (Num (of_int col))) = cheight c
    \<and> length (pixels (canvas_set c (of_int x) (of_int y) (Num (of_int col)))) = length (pixels c)
    \<and> (\<forall>i. i \<noteq> nat (y * int (cwidth c) + x) \<longrightarrow>
          pixels (canvas_set c (of_int x) (of_int y) (Num (of_int col))) ! i = pixels c ! i)
    \<and> (\<forall>x' y'. (x', y') \<noteq> (x, y) \<longrightarrow>
          canvas_get (canvas_set c (of_int x) (of_int y) (Num (of_int col))) (of_int x') (of_int y')
            = canvas_get c (of_int x') (of_int y'))"
proof -
  have 1: "canvas_get (canvas_set c (of_int x) (of_int y) (Num (of_int col))) (of_int x) (of_int y) = Some col"
    using assms by (intro set_get_same) auto
  have 2: "canvas_set c (of_int x) (of_int y) (Num (of_int col)) =
           c\<lparr>pixels := (pixels c)[nat (y * int (cwidth c) + x) := to_uint8 (Num (of_int col))]\<rparr>"
    using assms by (simp add: canvas_set_int)
  have 3: "canvas_get (canvas_set c (of_int x) (of_int y) (Num (of_int col))) (of_int x') (of_int y')
            = canvas_get c (of_int x') (of_int y')" if "(x', y') \<noteq> (x, y)" for x' y'
    using assms that by (intro set_get_other) auto
  show ?thesis using 1 3 unfolding 2 by simp
qed

theorem canvas_set_get_witness:
  "canvas_ok (new_canvas 3 2) \<and> (0::int) \<le> 2 \<and> (2::int) < int (cwidth (new_canvas 3 2)) \<and> (0::int) \<le> 1 \<and>
   (1::int) < int (cheight (new_canvas 3 2)) \<and> (0::int) \<le> 200 \<and> (200::int) \<le> 255 \<and>
   canvas_get (canvas_set (new_canvas 3 2) 2 1 (Num 200)) 2 1 = Some 200 \<and>
   (0::nat) \<noteq> nat (1 * int (cwidth (new_canvas 3 2)) + 2) \<and>
   pixels (canvas_set (new_canvas 3 2) 2 1 (Num 200)) ! 0 = pixels (new_canvas 3 2) ! 0 \<and>
   (1::int, 1::int) \<noteq> (2, 1) \<and>
   canvas_get (canvas_set (new_canvas 3 2) 2 1 (Num 200)) 1 1 = Some 0"
proof -
  have ok: "canvas_ok (new_canvas 3 2)" by (rule canvas_ok_new)
  have d: "cwidth (new_canvas 3 2) = 3" "cheight (new_canvas 3 2) = 2" by (simp_all add: new_canvas_def)
  have g: "canvas_get (new_canvas 3 2) (of_int 1) (of_int 1) = Some 0"
    using canvas_get_int[of "new_canvas 3 2" 1 1] by (simp add: new_canvas_def)
  have t: "canvas_get (canvas_set (new_canvas 3 2) (of_int 2) (of_int 1) (Num (of_int 200))) (of_int 2) (of_int 1) = Some 200
     \<and> (\<forall>i. i \<noteq> nat (1 * int 3 + 2) \<longrightarrow>
          pixels (canvas_set (new_canvas 3 2) (of_int 2) (of_int 1) (Num (of_int 200))) ! i
            = pixels (new_canvas 3 2) ! i)
     \<and> (\<forall>x' y'. (x', y') \<noteq> (2, 1) \<longrightarrow>
          canvas_get (canvas_set (new_canvas 3 2) (of_int 2) (of_int 1) (Num (of_int 200))) (of_int x') (of_int y')
            = canvas_get (new_canvas 3 2) (of_int x') (of_int y'))"
    using canvas_set_get[OF ok, of 2 1 200] unfolding d by simp
  from t have "(1::int, 1::int) \<noteq> (2, 1) \<longrightarrow>
     canvas_get (canvas_set (new_canvas 3 2) (of_int 2) (of_int 1) (Num (of_int 200))) (of_int 1) (of_int 1)
       = canvas_get (new_canvas 3 2) (of_int 1) (of_int 1)"
    by blast
  then have b: "canvas_get (canvas_set (new_canvas 3 2) (of_int 2) (of_int 1) (Num (of_int 200))) (of_int 1) (of_int 1) = Some 0"
    using g by simp
  from t have "(0::nat) \<noteq> nat (1 * int 3 + 2) \<longrightarrow>
     pixels (canvas_set (new_canvas 3 2) (of_int 2) (of_int 1) (Num (of_int 200))) ! 0
       = pixels (new_canvas 3 2) ! 0"
    by blast
  then have c: "pixels (canvas_set (new_canvas 3 2) (of_int 2) (of_int 1) (Num (of_int 200))) ! 0
       = pixels (new_canvas 3 2) ! 0"
    by simp
  show ?thesis using t b c ok unfolding d by simp
qed

subsection \<open>Claims about the game\<close>

text \<open>
  Claim C3, as amended. A jump input in the state WAITING starts a run: the state is PLAYING,
  the score 0 and the player at the ground minus the height of its sprite. One tick later,
  at normal speed and with no input, the score is 1 higher. The vertical velocity is
  \<open>gravity * 1.0\<close> and \<open>y\<close> is larger by it only if that does not pass the ground line
  \<open>GROUND_Y - DINO_HEIGHT\<close>, which is so for a sprite at least 24 pixels high; for a sprite of
  23 pixels or less, the height \<open>DINO_HEIGHT\<close> the code assumes among them, the player is
  clamped to the ground line and the velocity is 0.
\<close>

theorem start_run_and_first_tick:
  assumes "gameState g = WAITING" "dinoSprite g = Some ds" "jump_input key" "speedMode g = NORMAL"
  shows "gameState (handle_key g key rnd now) = PLAYING
    \<and> score (handle_key g key rnd now) = 0
    \<and> dinoY (handle_key g key rnd now) = GROUND_Y - of_nat (sheight ds)
    \<and> score (game_tick (handle_key g key rnd now) rnd' now') = score (handle_key g key rnd now) + 1
    \<and> (24 \<le> sheight ds \<longrightarrow>
         dinoVy (game_tick (handle_key g key rnd now) rnd' now') = GRAVITY * 1
         \<and> dinoY (game_tick (handle_key g key rnd now) rnd' now')
             = dinoY (handle_key g key rnd now) + GRAVITY * 1)
    \<and> (sheight ds \<le> 23 \<longrightarrow>
         dinoVy (game_tick (handle_key g key rnd now) rnd' now') = 0
         \<and> dinoY (game_tick (handle_key g key rnd now) rnd' now') = GROUND_Y - DINO_HEIGHT)"
  by (intro conjI impI) (simp_all add: start_then_tick[OF assms])

theorem start_run_and_first_tick_witness:
  "gameState (demo_game 24) = WAITING \<and> dinoSprite (demo_game 24) = Some (dark_sprite 220 24)
   \<and> jump_input space_key \<and> speedMode (demo_game 24) = NORMAL
   \<and> 24 \<le> sheight (dark_sprite 220 24)
   \<and> gameState (handle_key (demo_game 24) space_key (\<lambda>k. 0) 0) = PLAYING
   \<and> score (handle_key (demo_game 24) space_key (\<lambda>k. 0) 0) = 0
   \<and> dinoY (handle_key (demo_game 24) space_key (\<lambda>k. 0) 0) = 122
   \<and> score (game_tick (handle_key (demo_game 24) space_key (\<lambda>k. 0) 0) (\<lambda>k. 0) 33) = 1
   \<and> dinoVy (game_tick (handle_key (demo_game 24) space_key (\<lambda>k. 0) 0) (\<lambda>k. 0) 33) = 3 / 4
   \<and> dinoY (game_tick (handle_key (demo_game 24) space_key (\<lambda>k. 0) 0) (\<lambda>k. 0) 33) = 122 + 3 / 4
   \<and> gameState (demo_game 23) = WAITING \<and> dinoSprite (demo_game 23) = Some (dark_sprite 220 23)
   \<and> speedMode (demo_game 23) = NORMAL \<and> sheight (dark_sprite 220 23) \<le> 23
   \<and> dinoVy (game_tick (handle_key (demo_game 23) space_key (\<lambda>k. 0) 0) (\<lambda>k. 0) 33) = 0
   \<and> dinoY (game_tick (handle_key (demo_game 23) space_key (\<lambda>k. 0) 0) (\<lambda>k. 0) 33) = 123"
proof -
  have h24: "24 \<le> sheight (dark_sprite 220 24)" and h23: "sheight (dark_sprite 220 23) \<le> 23"
    by (simp_all add: dark_dims)
  note a = start_run_and_first_tick[OF demo_game_fields(1,2) jump_space demo_game_fields(3),
      of 24 "\<lambda>k. 0" 0 "\<lambda>k. 0" 33]
  note b = start_run_and_first_tick[OF demo_game_fields(1,2) jump_space demo_game_fields(3),
      of 23 "\<lambda>k. 0" 0 "\<lambda>k. 0" 33]
  show ?thesis
    using a b h24 h23 demo_game_fields[of 24] demo_game_fields[of 23] jump_space
    by (simp add: dark_dims GROUND_Y_def HEIGHT_def DINO_HEIGHT_def GRAVITY_def)
qed

text \<open>
  Claim C3 as stated fails for the sprite height 23 the code assumes: the player starts on
  the ground line, and the first tick leaves \<open>y\<close> where it was with velocity 0.
\<close>

theorem start_run_and_first_tick_counterexample:
  "dinoVy (game_tick (handle_key (demo_game 23) space_key (\<lambda>k. 0) 0) (\<lambda>k. 0) 0) = 0
   \<and> dinoVy (game_tick (handle_key (demo_game 23) space_key (\<lambda>k. 0) 0) (\<lambda>k. 0) 0) \<noteq> GRAVITY * 1
   \<and> dinoY (game_tick (handle_key (demo_game 23) space_key (\<lambda>k. 0) 0) (\<lambda>k. 0) 0)
       = dinoY (handle_key (demo_game 23) space_key (\<lambda>k. 0) 0)"
proof -
  have h: "sheight (dark_sprite 220 23) \<le> 23" by (simp add: dark_dims)
  note t = start_then_tick[OF demo_game_fields(1,2) jump_space demo_game_fields(3)]
  have "dinoVy (game_tick (handle_key (demo_game 23) space_key (\<lambda>k. 0) 0) (\<lambda>k. 0) 0) = 0"
    by (rule t(7)[OF h])
  moreover have "dinoY (game_tick (handle_key (demo_game 23) space_key (\<lambda>k. 0) 0) (\<lambda>k. 0) 0)
       = dinoY (handle_key (demo_game 23) space_key (\<lambda>k. 0) 0)"
    unfolding t(8)[OF h] t(3) by (simp add: dark_dims DINO_HEIGHT_def)
  ultimately show ?thesis by (simp add: GRAVITY_def)
qed

text \<open>
  Claim C8. On a tick in the state PLAYING every obstacle moves left by the speed times the
  time scale, the speed being \<^verbatim>\<open>speedRef.current\<close> after the acceleration of this tick and twice
  that for a pterodactyl; the obstacles with \<open>x + width \<le> 0\<close> are dropped, and the list of the
  next state is the list so updated followed by at most one obstacle spawned at the right
  edge. No entry of the updated list has \<open>x + width \<le> 0\<close>, nor has any entry of the list of
  the next state when the game is wider than 0.
\<close>

theorem tick_obstacle_update:
  assumes "gameState g = PLAYING"
  shows "(\<exists>spawned. obstacles (game_tick g rnd now) =
            filter (\<lambda>ob. ox ob + owidth ob > 0)
              (map (\<lambda>ob. ob\<lparr>ox := ox ob - (if otype ob = PTERODACTYL then next_speed g * 2
                                               else next_speed g) * timeScale g\<rparr>) (obstacles g))
            @ spawned
          \<and> length spawned \<le> 1 \<and> (\<forall>ob \<in> set spawned. ox ob = game_width g))
     \<and> (\<forall>ob \<in> set (nextObstacles g). \<not> ox ob + owidth ob \<le> 0)
     \<and> (0 < game_width g \<longrightarrow>
          (\<forall>ob \<in> set (obstacles (game_tick g rnd now)). \<not> ox ob + owidth ob \<le> 0))"
proof -
  have ne: "gameState g \<noteq> WAITING" "gameState g \<noteq> GAME_OVER" using assms by simp_all
  obtain spawned where sp: "obstacles (game_tick g rnd now) = nextObstacles g @ spawned"
    "length spawned \<le> 1" "\<forall>ob \<in> set spawned. ox ob = game_width g \<and> 0 \<le> owidth ob"
    using game_tick_obstacles_widths[OF ne, of rnd now] by blast
  have 1: "\<exists>spawned. obstacles (game_tick g rnd now) =
            filter (\<lambda>ob. ox ob + owidth ob > 0)
              (map (\<lambda>ob. ob\<lparr>ox := ox ob - (if otype ob = PTERODACTYL then next_speed g * 2
                                               else next_speed g) * timeScale g\<rparr>) (obstacles g))
            @ spawned
          \<and> length spawned \<le> 1 \<and> (\<forall>ob \<in> set spawned. ox ob = game_width g)"
    using sp unfolding nextObstacles_eq by blast
  have 2: "\<forall>ob \<in> set (nextObstacles g). \<not> ox ob + owidth ob \<le> 0"
    using nextObstacles_live by blast
  have 3: "0 < game_width g \<longrightarrow>
          (\<forall>ob \<in> set (obstacles (game_tick g rnd now)). \<not> ox ob + owidth ob \<le> 0)"
  proof (intro impI ballI)
    fix ob assume w: "0 < game_width g" and "ob \<in> set (obstacles (game_tick g rnd now))"
    then consider "ob \<in> set (nextObstacles g)" | "ob \<in> set spawned" unfolding sp(1) by auto
    then show "\<not> ox ob + owidth ob \<le> 0"
    proof cases
      case 1 then show ?thesis by (rule nextObstacles_live)
    next
      case 2
      with sp(3) have "ox ob = game_width g" "0 \<le> owidth ob" by auto
      with w show ?thesis by simp
    qed
  qed
  show ?thesis using 1 2 3 by blast
qed

theorem tick_obstacle_update_witness:
  "gameState (playing_game [cactus_at 100, ptero_at 50, cactus_at (- 13)]) = PLAYING
   \<and> 0 < game_width (playing_game [cactus_at 100, ptero_at 50, cactus_at (- 13)])
   \<and> nextObstacles (playing_game [cactus_at 100, ptero_at 50, cactus_at (- 13)])
        = [cactus_at (100 - 1001 / 200), ptero_at (50 - 1001 / 100)]
   \<and> (\<exists>spawned.
         obstacles (game_tick (playing_game [cactus_at 100, ptero_at 50, cactus_at (- 13)]) (\<lambda>k. 0) 0)
           = [cactus_at (100 - 1001 / 200), ptero_at (50 - 1001 / 100)] @ spawned
         \<and> length spawned \<le> 1)
   \<and> \<not> ox (ptero_at (50 - 1001 / 100)) + owidth (ptero_at (50 - 1001 / 100)) \<le> 0
   \<and> \<not> ox (last (obstacles (game_tick
              (playing_game [cactus_at 100, ptero_at 50, cactus_at (- 13)]) (\<lambda>k. 0) 0)))
        + owidth (last (obstacles (game_tick
              (playing_game [cactus_at 100, ptero_at 50, cactus_at (- 13)]) (\<lambda>k. 0) 0))) \<le> 0"
proof -
  let ?g = "playing_game [cactus_at 100, ptero_at 50, cactus_at (- 13)]"
  have p: "gameState ?g = PLAYING" and w: "0 < game_width ?g"
    by (simp_all add: playing_game_fields)
  note t = tick_obstacle_update[OF p, of "\<lambda>k. 0" 0]
  from t obtain spawned where sp:
    "obstacles (game_tick ?g (\<lambda>k. 0) 0) = nextObstacles ?g @ spawned" "length spawned \<le> 1"
    unfolding nextObstacles_eq[symmetric] by blast
  then have ex: "\<exists>spawned. obstacles (game_tick ?g (\<lambda>k. 0) 0)
           = [cactus_at (100 - 1001 / 200), ptero_at (50 - 1001 / 100)] @ spawned
         \<and> length spawned \<le> 1"
    unfolding next_obstacles_example by blast
  have "ptero_at (50 - 1001 / 100) \<in> set (nextObstacles ?g)"
    unfolding next_obstacles_example by simp
  with t have a: "\<not> ox (ptero_at (50 - 1001 / 100)) + owidth (ptero_at (50 - 1001 / 100)) \<le> 0"
    by blast
  have "obstacles (game_tick ?g (\<lambda>k. 0) 0) \<noteq> []"
    unfolding sp(1) next_obstacles_example by simp
  then have "last (obstacles (game_tick ?g (\<lambda>k. 0) 0)) \<in> set (obstacles (game_tick ?g (\<lambda>k. 0) 0))"
    by (rule last_in_set)
  with t w have b: "\<not> ox (last (obstacles (game_tick ?g (\<lambda>k. 0) 0)))
        + owidth (last (obstacles (game_tick ?g (\<lambda>k. 0) 0))) \<le> 0"
    by blast
  show ?thesis using p w next_obstacles_example ex a b by blast
qed

text \<open>
  Claim C9. A tick that takes the state from PLAYING to GAME_OVER sets the high score to the
  maximum of the high score and the score, the score being the one of the snapshot the
  tick started from; any other tick in PLAYING leaves the high score as it is. \<^verbatim>\<open>resetGame\<close>
  leaves the high score unchanged and, the sprite of the player being loaded, sets the
  state to PLAYING and resets the score, the position and velocity of the player, the
  obstacles, clouds and logos, the speed and the spawn timers. The two initial clouds stand
  at the even columns below 0.3 and 0.7 of the width, the products being those of doubles:
  at a width of 180 dots the second one stands at 124, since \<^verbatim>\<open>180 * 0.7\<close> is
  \<open>125.99999999999999\<close>.
\<close>

theorem high_score_update_and_reset:
  "(gameState g = PLAYING \<and> gameState (game_tick g rnd now) = GAME_OVER \<longrightarrow>
       highScore (game_tick g rnd now) = max (highScore g) (score g))
   \<and> (gameState g = PLAYING \<and> gameState (game_tick g rnd now) \<noteq> GAME_OVER \<longrightarrow>
       highScore (game_tick g rnd now) = highScore g)
   \<and> highScore (resetGame g) = highScore g
   \<and> (dinoSprite g = Some ds \<longrightarrow>
        gameState (resetGame g) = PLAYING \<and> score (resetGame g) = 0
        \<and> dinoY (resetGame g) = GROUND_Y - of_nat (sheight ds) \<and> dinoVy (resetGame g) = 0
        \<and> obstacles (resetGame g) = [] \<and> logos (resetGame g) = []
        \<and> clouds (resetGame g) =
             [\<lparr>cx = of_int (\<lfloor>fl (fl (game_width g * fl (3 / 10)) / 2)\<rfloor> * 2), cy = 30\<rparr>,
              \<lparr>cx = of_int (\<lfloor>fl (fl (game_width g * fl (7 / 10)) / 2)\<rfloor> * 2), cy = 60\<rparr>]
        \<and> speedRef (resetGame g) = SPEED_INITIAL
        \<and> lastSpawnTickRef (resetGame g) = 0 \<and> lastPteroSpawnTickRef (resetGame g) = 0
        \<and> gameTickRef (resetGame g) = 0)"
  using game_tick_high_score(1,2)[of g rnd now] resetGame_highScore[of g] resetGame_fields[of g ds]
  by simp

theorem high_score_update_and_reset_witness:
  "gameState (playing_game [cactus_at (20 + 1001 / 200)]) = PLAYING
   \<and> gameState (game_tick (playing_game [cactus_at (20 + 1001 / 200)]) (\<lambda>k. 0) 1000) = GAME_OVER
   \<and> highScore (playing_game [cactus_at (20 + 1001 / 200)]) = 0
   \<and> score (playing_game [cactus_at (20 + 1001 / 200)]) = 42
   \<and> highScore (game_tick (playing_game [cactus_at (20 + 1001 / 200)]) (\<lambda>k. 0) 1000) = 42
   \<and> gameState (playing_game []) = PLAYING
   \<and> gameState (game_tick (playing_game []) (\<lambda>k. 0) 1000) \<noteq> GAME_OVER
   \<and> highScore (game_tick (playing_game []) (\<lambda>k. 0) 1000) = 0
   \<and> dinoSprite ((playing_game [cactus_at 100])\<lparr>highScore := 7\<rparr>) = Some (dark_sprite 220 23)
   \<and> highScore (resetGame ((playing_game [cactus_at 100])\<lparr>highScore := 7\<rparr>)) = 7
   \<and> score (resetGame ((playing_game [cactus_at 100])\<lparr>highScore := 7\<rparr>)) = 0
   \<and> obstacles (resetGame ((playing_game [cactus_at 100])\<lparr>highScore := 7\<rparr>)) = []
   \<and> dinoSprite ((demo_game 23)\<lparr>columns := 92\<rparr>) = Some (dark_sprite 220 23)
   \<and> game_width ((demo_game 23)\<lparr>columns := 92\<rparr>) = 180
   \<and> clouds (resetGame ((demo_game 23)\<lparr>columns := 92\<rparr>))
       = [\<lparr>cx = 54, cy = 30\<rparr>, \<lparr>cx = 124, cy = 60\<rparr>]"
proof -
  let ?g = "playing_game [cactus_at (20 + 1001 / 200)]"
  have over: "gameState (game_tick ?g (\<lambda>k. 0) 1000) = GAME_OVER"
    using game_tick_game_over_iff[of ?g "\<lambda>k. 0" 1000] collision_example[of 1000]
    by (simp add: playing_game_fields)
  have nc: "\<not> collisionDetected (playing_game []) 1000"
    by (simp add: collisionDetected_def nextObstacles_def playing_game_fields Let_def)
  have notover: "gameState (game_tick (playing_game []) (\<lambda>k. 0) 1000) \<noteq> GAME_OVER"
    using game_tick_game_over_iff[of "playing_game []" "\<lambda>k. 0" 1000] nc
    by (simp add: playing_game_fields)
  let ?r = "(playing_game [cactus_at 100])\<lparr>highScore := 7\<rparr>"
  have ds: "dinoSprite ?r = Some (dark_sprite 220 23)" by (simp add: playing_game_fields)
  note a = high_score_update_and_reset[of ?g "\<lambda>k. 0" 1000 "dark_sprite 220 23"]
  note b = high_score_update_and_reset[of "playing_game []" "\<lambda>k. 0" 1000 "dark_sprite 220 23"]
  note c = high_score_update_and_reset[of ?r "\<lambda>k. 0" 1000 "dark_sprite 220 23"]
  have 1: "highScore (game_tick ?g (\<lambda>k. 0) 1000) = 42"
    using a over by (simp add: playing_game_fields)
  have 2: "highScore (game_tick (playing_game []) (\<lambda>k. 0) 1000) = 0"
    using b notover by (simp add: playing_game_fields)
  have 3: "highScore (resetGame ?r) = 7" "score (resetGame ?r) = 0" "obstacles (resetGame ?r) = []"
    using c ds by simp_all
  let ?w = "(demo_game 23)\<lparr>columns := 92\<rparr>"
  have dw: "dinoSprite ?w = Some (dark_sprite 220 23)" and gw: "game_width ?w = 180"
    by (simp_all add: demo_game_def loaded_game_def game_width_def)
  note d = high_score_update_and_reset[of ?w "\<lambda>k. 0" 1000 "dark_sprite 220 23"]
  have "clouds (resetGame ?w) =
          [\<lparr>cx = of_int (\<lfloor>fl (fl (game_width ?w * fl (3 / 10)) / 2)\<rfloor> * 2), cy = 30\<rparr>,
           \<lparr>cx = of_int (\<lfloor>fl (fl (game_width ?w * fl (7 / 10)) / 2)\<rfloor> * 2), cy = 60\<rparr>]"
    using d dw by blast
  then have 4: "clouds (resetGame ?w) = [\<lparr>cx = 54, cy = 30\<rparr>, \<lparr>cx = 124, cy = 60\<rparr>]"
    unfolding gw clouds_92_columns by simp
  show ?thesis using over notover 1 2 3 ds dw gw 4 by (simp add: playing_game_fields)
qed

subsection \<open>Claims about sprites\<close>

text \<open>
  Claim C1, as amended. For sprites as \<^verbatim>\<open>parseSprite\<close> builds them and two boxes whose
  origins, sizes and source offsets are integers (of magnitude at most \<open>2\<^sup>5\<^sup>0\<close>, so that every
  sum and difference of the scan is an exact double), \<^verbatim>\<open>checkCollision\<close> returns, and it
  returns true if and only if at some integer world coordinate inside the intersection
  rectangle of the two boxes the source pixels of both sprites are collidable
  (\<open>spec_collision\<close>); a pixel is collidable iff it lies within the bounds of its sprite, has
  alpha above 128 and red below 128. A degenerate rectangle gives false. Two 10x10 dark
  sprites at (0,0) and (5,5) collide, at (0,0) and (10,10) they do not, and a dark sprite
  does not collide with an all-light one at full overlap. (At other origins the scan
  starts from the corner of the rectangle and proceeds by rounded steps of one, lemmas
  \<open>example_half\<close> and \<open>checkCollision_rounding_example\<close>.)
\<close>

theorem checkCollision_pixel_exact:
  assumes "sprite_ok s1" "sprite_ok s2"
    and "small_int x1" "small_int y1" "small_int w1" "small_int h1"
    and "small_int srcX1" "small_int srcY1"
    and "small_int x2" "small_int y2" "small_int w2" "small_int h2"
    and "small_int srcX2" "small_int srcY2"
  shows
   "checkCollision s1 x1 y1 w1 h1 srcX1 srcY1 s2 x2 y2 w2 h2 srcX2 srcY2 =
       Some (spec_collision s1 x1 y1 w1 h1 srcX1 srcY1 s2 x2 y2 w2 h2 srcX2 srcY2)
    \<and> (max x1 x2 \<ge> min (x1 + w1) (x2 + w2) \<or> max y1 y2 \<ge> min (y1 + h1) (y2 + h2) \<longrightarrow>
        checkCollision s1 x1 y1 w1 h1 srcX1 srcY1 s2 x2 y2 w2 h2 srcX2 srcY2 = Some False)
    \<and> isPixelCollidable s1 px py = spec_collidable s1 px py
    \<and> checkCollision (dark_sprite 10 10) 0 0 10 10 0 0 (dark_sprite 10 10) 5 5 10 10 0 0
        = Some True
    \<and> checkCollision (dark_sprite 10 10) 0 0 10 10 0 0 (dark_sprite 10 10) 10 10 10 10 0 0
        = Some False
    \<and> checkCollision (dark_sprite 10 10) 0 0 10 10 0 0 (light_sprite 10 10) 0 0 10 10 0 0
        = Some False"
proof -
  note eq = checkCollision_integer[OF assms]
  have 2: "max x1 x2 \<ge> min (x1 + w1) (x2 + w2) \<or> max y1 y2 \<ge> min (y1 + h1) (y2 + h2) \<longrightarrow>
        checkCollision s1 x1 y1 w1 h1 srcX1 srcY1 s2 x2 y2 w2 h2 srcX2 srcY2 = Some False"
  proof
    assume "max x1 x2 \<ge> min (x1 + w1) (x2 + w2) \<or> max y1 y2 \<ge> min (y1 + h1) (y2 + h2)"
    then have "\<lceil>min (x1 + w1) (x2 + w2)\<rceil> \<le> \<lceil>max x1 x2\<rceil>
        \<or> \<lceil>min (y1 + h1) (y2 + h2)\<rceil> \<le> \<lceil>max y1 y2\<rceil>"
      using ceiling_mono by blast
    then have "\<not> spec_collision s1 x1 y1 w1 h1 srcX1 srcY1 s2 x2 y2 w2 h2 srcX2 srcY2"
      unfolding spec_collision_def Let_def by auto
    then show "checkCollision s1 x1 y1 w1 h1 srcX1 srcY1 s2 x2 y2 w2 h2 srcX2 srcY2 = Some False"
      unfolding eq by simp
  qed
  show ?thesis
    by (intro conjI eq 2 isPixelCollidable_spec[OF assms(1)]
        example_overlap example_touching example_light)
qed

theorem checkCollision_pixel_exact_witness:
  "sprite_ok (dark_sprite 10 10) \<and> small_int 0 \<and> small_int 5 \<and> small_int 10
   \<and> checkCollision (dark_sprite 10 10) 0 0 10 10 0 0 (dark_sprite 10 10) 5 5 10 10 0 0
       = Some True
   \<and> spec_collision (dark_sprite 10 10) 0 0 10 10 0 0 (dark_sprite 10 10) 5 5 10 10 0 0
   \<and> max (0::rat) 10 \<ge> min (0 + 10) (10 + 10)
   \<and> checkCollision (dark_sprite 10 10) 0 0 10 10 0 0 (dark_sprite 10 10) 10 10 10 10 0 0
       = Some False
   \<and> \<not> spec_collision (dark_sprite 10 10) 0 0 10 10 0 0 (dark_sprite 10 10) 10 10 10 10 0 0"
proof -
  note i = small_int_examples(1,2,3)
  have d: "max (0::rat) 10 \<ge> min (0 + 10) (10 + 10)" by simp
  note a = checkCollision_pixel_exact[OF dark10_ok dark10_ok
      i(1) i(1) i(3) i(3) i(1) i(1) i(2) i(2) i(3) i(3) i(1) i(1)]
  note b = checkCollision_pixel_exact[OF dark10_ok dark10_ok
      i(1) i(1) i(3) i(3) i(1) i(1) i(3) i(3) i(3) i(3) i(1) i(1)]
  have 1: "checkCollision (dark_sprite 10 10) 0 0 10 10 0 0 (dark_sprite 10 10) 5 5 10 10 0 0
           = Some True"
    using a by blast
  have "checkCollision (dark_sprite 10 10) 0 0 10 10 0 0 (dark_sprite 10 10) 5 5 10 10 0 0
        = Some (spec_collision (dark_sprite 10 10) 0 0 10 10 0 0 (dark_sprite 10 10) 5 5 10 10 0 0)"
    using a by blast
  with 1 have 2: "spec_collision (dark_sprite 10 10) 0 0 10 10 0 0 (dark_sprite 10 10) 5 5 10 10 0 0"
    by simp
  have 3: "checkCollision (dark_sprite 10 10) 0 0 10 10 0 0 (dark_sprite 10 10) 10 10 10 10 0 0
           = Some False"
    using b d by blast
  have "checkCollision (dark_sprite 10 10) 0 0 10 10 0 0 (dark_sprite 10 10) 10 10 10 10 0 0
        = Some (spec_collision (dark_sprite 10 10) 0 0 10 10 0 0 (dark_sprite 10 10) 10 10 10 10 0 0)"
    using b by blast
  with 3 have 4: "\<not> spec_collision (dark_sprite 10 10) 0 0 10 10 0 0 (dark_sprite 10 10) 10 10 10 10 0 0"
    by simp
  show ?thesis using 1 2 3 4 d i dark10_ok by blast
qed

text \<open>
  Claim C1 as stated fails for a box whose origin is not an integer: two 1x1 dark sprites
  at \<open>x = 0\<close> and \<open>x = 1/2\<close> collide, at the sampled position \<open>(1/2, 0)\<close>, although the
  intersection \<open>[1/2, 1) \<times> [0, 1)\<close> holds no integer world coordinate. (All the numbers of
  this run are doubles, and no operation on them rounds.)
\<close>

theorem checkCollision_pixel_exact_counterexample:
  "checkCollision (dark_sprite 1 1) 0 0 1 1 0 0 (dark_sprite 1 1) (1 / 2) 0 1 1 0 0 = Some True
   \<and> \<not> spec_collision (dark_sprite 1 1) 0 0 1 1 0 0 (dark_sprite 1 1) (1 / 2) 0 1 1 0 0"
proof
  show "checkCollision (dark_sprite 1 1) 0 0 1 1 0 0 (dark_sprite 1 1) (1 / 2) 0 1 1 0 0 = Some True"
    by (rule example_half)
  have "\<lceil>max (0::rat) (1 / 2)\<rceil> = 1" "\<lceil>min ((0::rat) + 1) (1 / 2 + 1)\<rceil> = 1"
    by (simp_all add: ceiling_eq_iff)
  then show "\<not> spec_collision (dark_sprite 1 1) 0 0 1 1 0 0 (dark_sprite 1 1) (1 / 2) 0 1 1 0 0"
    unfolding spec_collision_def Let_def by simp
qed

text \<open>
  Claim C4 fails on the code for a sprite of width 1: the horizontal fraction is the
  quotient \<open>0 / 0\<close>, the colour computed for the dark pixel is \<^verbatim>\<open>NaN\<close>, outside the gradient
  range, and the canvas stores it as 0, so that the pixel drawn is erased. (For every
  wider sprite the colour lies in the 32 codes from 10, lemma \<open>gradient_color_in_range\<close>.)
\<close>

theorem drawSpriteGradient_width_one:
  "gradient_color_at \<lparr>swidth = 1, sheight = 1, sdata = [0, 0, 0, 255]\<rparr> 0 = NaN
   \<and> canvas_get (canvas_set (new_canvas 1 1) 0 0 (Num 1)) 0 0 = Some 1
   \<and> canvas_get (drawSpriteGradient (canvas_set (new_canvas 1 1) 0 0 (Num 1))
         \<lparr>swidth = 1, sheight = 1, sdata = [0, 0, 0, 255]\<rparr> 0 0) 0 0 = Some 0"
proof -
  have g: "gradient_color_at \<lparr>swidth = 1, sheight = 1, sdata = [0, 0, 0, 255]\<rparr> 0 = NaN"
    by (simp add: gradient_color_at_def js_div_def getGradientColor_def js_clamp01_def)
  have cv: "canvas_set (new_canvas 1 1) 0 0 (Num 1) = \<lparr>cwidth = 1, cheight = 1, pixels = [1]\<rparr>"
    by (simp add: canvas_set_def new_canvas_def in_canvas_def typed_write_def to_uint8_def)
  have px: "drawSpriteGradient_pixel \<lparr>swidth = 1, sheight = 1, sdata = [0, 0, 0, 255]\<rparr> 0 0 0 0
              \<lparr>cwidth = 1, cheight = 1, pixels = [1]\<rparr>
            = \<lparr>cwidth = 1, cheight = 1, pixels = [0]\<rparr>"
    unfolding drawSpriteGradient_pixel_def Let_def g
    by (simp add: js_shl2_def typed_read_def is_integer_def js_gt_def js_lt_def
        canvas_set_def in_canvas_def typed_write_def to_uint8_def)
  have dr: "drawSpriteGradient \<lparr>cwidth = 1, cheight = 1, pixels = [1]\<rparr>
              \<lparr>swidth = 1, sheight = 1, sdata = [0, 0, 0, 255]\<rparr> 0 0
            = \<lparr>cwidth = 1, cheight = 1, pixels = [0]\<rparr>"
    unfolding drawSpriteGradient_def using px by simp
  show ?thesis unfolding cv dr g
    by (simp add: canvas_get_def in_canvas_def typed_read_def is_integer_def)
qed

end
